theory Spec2Isabelle
  imports Main "HOL-Library.AList"
begin

section \<open>Values shared by the scripts\<close>

text \<open>
  Strings and buffers are lists of characters. The scripts only slice, concatenate and
  compare them; for the ASCII text they handle (file names, hex digests, content
  addresses, task names) a code unit of the string and a byte of its UTF-8 buffer coincide.
  A path is the list of segments handed to \<open>path.join\<close>; the file system is keyed by it.
\<close>

type_synonym bytes = string
type_synonym path = "string list"

datatype error =
    Error string
  | ENOENT path
  | SyntaxError
  | NoMatchingEvent string
  | DecryptError
  | InvalidKey
  | Rejected
  | TypeError
  | OutOfBounds

text \<open>
  \<open>Error m\<close> is \<open>throw new Error(m)\<close> of the scripts themselves; the other errors are
  thrown by what they call: \<open>fs.readFileSync\<close> on a missing path, \<open>JSON.parse\<close>, the
  contract interface's event lookup, the keystore decryption, the wallet constructor, a
  rejected SDK call or transaction wait, \<open>Buffer.from\<close> on a value that is not a string,
  and the ABI coder on a number outside the range of its type.
\<close>

text \<open>The functions of the ethers library the scripts call, taken as parameters.\<close>

record Ethers =
  keccak256 :: "bytes \<Rightarrow> string"
  fromEncryptedJsonSync :: "string \<Rightarrow> string \<Rightarrow> string option"
  newWallet :: "string \<Rightarrow> bool"

text \<open>\<open>s.slice(0, -n)\<close>; for \<open>n = 0\<close> the end index is \<open>-0 = 0\<close> and the result is empty.\<close>

definition slice_to_neg :: "'a list \<Rightarrow> nat \<Rightarrow> 'a list" where
  "slice_to_neg s n = (if n = 0 then [] else take (length s - n) s)"

text \<open>\<open>s.slice(a, b)\<close> for literal indices \<open>0 \<le> a \<le> b\<close>.\<close>

definition slice :: "'a list \<Rightarrow> nat \<Rightarrow> nat \<Rightarrow> 'a list" where
  "slice s a b = take (b - a) (drop a s)"

text \<open>Truthiness of a value that is a string or \<open>undefined\<close>.\<close>

fun truthy :: "string option \<Rightarrow> bool" where
  "truthy None = False"
| "truthy (Some s) = (s \<noteq> [])"

text \<open>
  What \<open>obj[key]\<close> evaluates to when \<open>key\<close> is not a fixed name and \<open>obj\<close> is an object whose
  own properties hold strings (the parsed \<open>pre-deployments.json\<close>, \<open>process.env\<close>): the own
  property of that name, or else the member of that name that every object inherits from
  \<open>Object.prototype\<close> (a function; for \<open>__proto__\<close> the prototype itself), or else
  \<open>undefined\<close>. An inherited member is truthy and is not a string.
\<close>

datatype jsvalue =
    Undefined
  | StringValue string
  | InheritedMember

definition objectPrototypeMembers :: "string list" where
  "objectPrototypeMembers =
     [''constructor'', ''__defineGetter__'', ''__defineSetter__'', ''hasOwnProperty'',
      ''__lookupGetter__'', ''__lookupSetter__'', ''isPrototypeOf'', ''propertyIsEnumerable'',
      ''toString'', ''valueOf'', ''__proto__'', ''toLocaleString'']"

definition getProperty :: "(string \<Rightarrow> string option) \<Rightarrow> string \<Rightarrow> jsvalue" where
  "getProperty obj key =
     (case obj key of
        Some s \<Rightarrow> StringValue s
      | None \<Rightarrow> if key \<in> set objectPrototypeMembers then InheritedMember else Undefined)"

fun truthyValue :: "jsvalue \<Rightarrow> bool" where
  "truthyValue Undefined = False"
| "truthyValue (StringValue s) = (s \<noteq> [])"
| "truthyValue InheritedMember = True"

text \<open>
  \<open>obj[key] = v\<close> on a plain object held as the list of its own properties: an existing key
  keeps its place and takes the new value, a new key is appended. The key \<open>__proto__\<close> is the
  one assignment that creates no own property (it sets the prototype when \<open>v\<close> is an object
  and does nothing otherwise).
\<close>

definition assignProperty :: "string \<Rightarrow> 'v \<Rightarrow> (string \<times> 'v) list \<Rightarrow> (string \<times> 'v) list" where
  "assignProperty key v obj = (if key = ''__proto__'' then obj else AList.update key v obj)"

section \<open>deploy.ts: constants and types\<close>

definition w3fImplementationsPath :: string where
  "w3fImplementationsPath = ''./web3-functions''"

definition w3fConfigsPath :: string where
  "w3fConfigsPath = ''./scripts/configs''"

definition w3fIpfsDeploymentsPath :: string where
  "w3fIpfsDeploymentsPath = ''./scripts/pre-deployments.json''"

definition abisPath :: string where
  "abisPath = ''./abis''"

definition domains :: "string list" where
  "domains = [''mainnet'', ''gnosis'']"

definition triggerTypeNames :: "string list" where
  "triggerTypeNames = [''block'', ''cron'', ''event'', ''time'']"

record TopicRef =
  abiName :: string
  eventName :: string

text \<open>
  A trigger as the parsed JSON object carries it: the \<open>type\<close> tag and the fields of the four
  variants. The code reads only the fields of the variant the tag names; a tag outside
  \<open>triggerTypeNames\<close> is possible in a config file and is what the membership check is for.
\<close>

record Trigger =
  ttype :: string
  cron :: string
  filter_address :: string
  filter_topics :: "TopicRef list"
  blockConfirmations :: int
  interval :: int

record DeploymentConfig =
  domain :: string
  args :: "(string \<times> string) list"
  secrets :: "(string \<times> string) list"
  trigger :: Trigger

text \<open>The SDK's trigger payload.\<close>

datatype TriggerConfig =
    TriggerBLOCK
  | TriggerCRON string
  | TriggerEVENT string "string list list" int
  | TriggerTIME int

record EventFragment =
  event_name :: string
  event_inputs :: "string list"

text \<open>
  The files and the environment the script reads. \<open>listDirectories\<close> and \<open>listJsonFiles\<close>
  are the helpers imported from \<open>./utils\<close>; the three parsers are \<open>JSON.parse\<close> at its three
  call sites, each with the type the script casts the result to (\<open>None\<close>: it throws).
\<close>

record World =
  listDirectories :: "string \<Rightarrow> string list"
  listJsonFiles :: "path \<Rightarrow> string list"
  readFileSync :: "path \<Rightarrow> bytes option"
  parseDeployments :: "bytes \<Rightarrow> (string \<times> string) list option"
  parseConfig :: "bytes \<Rightarrow> DeploymentConfig option"
  parseAbi :: "bytes \<Rightarrow> EventFragment list option"
  processEnv :: "string \<Rightarrow> string option"

section \<open>The automation SDK\<close>

record Task =
  name :: string
  taskId :: string

record CreateTaskParams =
  task_name :: string
  web3FunctionHash :: string
  web3FunctionArgs :: "(string \<times> string) list"
  task_trigger :: TriggerConfig

text \<open>
  The platform behind the SDK is a state \<open>'p\<close> that each call may change. The first
  argument is the network whose SDK instance is called. \<open>createBatchExecTask\<close> and
  \<open>cancelTask\<close> stand for the call together with the awaited \<open>tx.wait()\<close>: \<open>None\<close> and
  \<open>False\<close> mean that one of the two rejected.
\<close>

record 'p Sdk =
  getActiveTasks :: "string \<Rightarrow> 'p \<Rightarrow> Task list option"
  createBatchExecTask :: "string \<Rightarrow> CreateTaskParams \<Rightarrow> 'p \<Rightarrow> string option \<times> 'p"
  secretsSet :: "string \<Rightarrow> (string \<times> jsvalue) list \<Rightarrow> string \<Rightarrow> 'p \<Rightarrow> bool \<times> 'p"
  cancelTask :: "string \<Rightarrow> string \<Rightarrow> 'p \<Rightarrow> bool \<times> 'p"

text \<open>What a run does, in order: console output, the confirmation prompt, SDK calls, file writes.\<close>

datatype event =
    Log string
  | Pause
  | GetActiveTasks string
  | CreateBatchExecTask string CreateTaskParams
  | SecretsSet string "(string \<times> jsvalue) list" string
  | CancelTask string string
  | WriteFileSync string "(string \<times> string) list"

text \<open>Sequencing: a thrown error ends the run with the events issued so far.\<close>

definition andThen ::
  "event list \<times> (error + 's) \<Rightarrow> ('s \<Rightarrow> event list \<times> (error + 't)) \<Rightarrow> event list \<times> (error + 't)" where
  "andThen m f =
     (case m of
        (es, Inl e) \<Rightarrow> (es, Inl e)
      | (es, Inr s) \<Rightarrow> (case f s of (es', r) \<Rightarrow> (es @ es', r)))"

text \<open>\<open>for (const x of xs) { body }\<close> over a state, left by a throw.\<close>

fun forEach ::
  "('a \<Rightarrow> 's \<Rightarrow> event list \<times> (error + 's)) \<Rightarrow> 'a list \<Rightarrow> 's \<Rightarrow> event list \<times> (error + 's)" where
  "forEach body [] s = ([], Inr s)"
| "forEach body (x # xs) s = andThen (body x s) (forEach body xs)"

section \<open>deploy.ts: helper functions\<close>

definition getBufferFromString :: "string \<Rightarrow> bytes" where
  "getBufferFromString str = str"

definition createHash :: "Ethers \<Rightarrow> bytes \<Rightarrow> string \<Rightarrow> string" where
  "createHash ethers rawConfig ipfsDeployment =
     (let configHash = keccak256 ethers rawConfig;
          ipfsDeploymentHash = keccak256 ethers (getBufferFromString ipfsDeployment)
      in keccak256 ethers (getBufferFromString (configHash @ ipfsDeploymentHash)))"

fun join :: "string \<Rightarrow> string list \<Rightarrow> string" where
  "join sep [] = []"
| "join sep [x] = x"
| "join sep (x # y # ys) = x @ sep @ join sep (y # ys)"

text \<open>The canonical signature of an event: its name and the types of its inputs.\<close>

definition format_event :: "EventFragment \<Rightarrow> string" where
  "format_event ev = event_name ev @ ''('' @ join '','' (event_inputs ev) @ '')''"

text \<open>
  Modelled from the spec: \<open>Interface.getEventTopic\<close> of the ethers library, which is not
  part of the repository. Per the spec the event is looked up in the ABI by its name; the
  lookup fails when the name is absent, and the topic of an event that is found is the
  keccak256 hash of its canonical signature.
\<close>

definition getEventTopic :: "Ethers \<Rightarrow> EventFragment list \<Rightarrow> string \<Rightarrow> error + string" where
  "getEventTopic ethers abi evName =
     (case find (\<lambda>ev. event_name ev = evName) abi of
        None \<Rightarrow> Inl (NoMatchingEvent evName)
      | Some ev \<Rightarrow> Inr (keccak256 ethers (getBufferFromString (format_event ev))))"

text \<open>The loop of the event branch: one ABI file read and one topic pushed per entry.\<close>

fun resolveTopics :: "World \<Rightarrow> Ethers \<Rightarrow> TopicRef list \<Rightarrow> string list \<Rightarrow> error + string list" where
  "resolveTopics W ethers [] topics = Inr topics"
| "resolveTopics W ethers (topic # rest) topics =
     (case readFileSync W [abisPath, abiName topic @ ''.json''] of
        None \<Rightarrow> Inl (ENOENT [abisPath, abiName topic @ ''.json''])
      | Some raw \<Rightarrow>
          (case parseAbi W raw of
             None \<Rightarrow> Inl SyntaxError
           | Some abi \<Rightarrow>
               (case getEventTopic ethers abi (eventName topic) of
                  Inl e \<Rightarrow> Inl e
                | Inr t \<Rightarrow> resolveTopics W ethers rest (topics @ [t]))))"

definition createTriggerConfig :: "World \<Rightarrow> Ethers \<Rightarrow> Trigger \<Rightarrow> error + TriggerConfig" where
  "createTriggerConfig W ethers trg =
     (if ttype trg = ''block'' then Inr TriggerBLOCK
      else if ttype trg = ''cron'' then Inr (TriggerCRON (cron trg))
      else if ttype trg = ''event'' then
        (case resolveTopics W ethers (filter_topics trg) [] of
           Inl e \<Rightarrow> Inl e
         | Inr topics \<Rightarrow> Inr (TriggerEVENT (filter_address trg) [topics] (blockConfirmations trg)))
      else if ttype trg = ''time'' then Inr (TriggerTIME (interval trg))
      else Inl (Error ''Unknown trigger type''))"

text \<open>
  \<open>password.slice(0, -1)\<close> drops the last character of the password file, whatever it is.
  The \<open>''\<close> branch is the source's conditional on an empty password path.
\<close>

definition retrievePrivateKeyFromKeystore :: "World \<Rightarrow> Ethers \<Rightarrow> string \<Rightarrow> string \<Rightarrow> error + string" where
  "retrievePrivateKeyFromKeystore W ethers keystorePath passwordPath =
     (case (if passwordPath \<noteq> [] then
              (case readFileSync W [passwordPath] of
                 None \<Rightarrow> Inl (ENOENT [passwordPath])
               | Some content \<Rightarrow> Inr (slice_to_neg content 1))
            else Inr []) of
        Inl e \<Rightarrow> Inl e
      | Inr password \<Rightarrow>
          (case readFileSync W [keystorePath] of
             None \<Rightarrow> Inl (ENOENT [keystorePath])
           | Some keystore \<Rightarrow>
               (case fromEncryptedJsonSync ethers keystore password of
                  None \<Rightarrow> Inl DecryptError
                | Some privateKey \<Rightarrow> Inr privateKey)))"

section \<open>deploy.ts: script setup\<close>

text \<open>
  \<open>envPrivateKey || (keystorePath && passwordPath && retrieve...)\<close>, followed by the check
  that throws when the value is falsy.
\<close>

definition deployerPrivateKey :: "World \<Rightarrow> Ethers \<Rightarrow> error + string" where
  "deployerPrivateKey W ethers =
     (let keystorePath = processEnv W ''GELATO_KEYSTORE_PATH'';
          passwordPath = processEnv W ''GELATO_PASSWORD_PATH'';
          envPrivateKey = processEnv W ''GELATO_PRIVATE_KEY''
      in if truthy envPrivateKey then Inr (the envPrivateKey)
         else if truthy keystorePath \<and> truthy passwordPath then
           (case retrievePrivateKeyFromKeystore W ethers (the keystorePath) (the passwordPath) of
              Inl e \<Rightarrow> Inl e
            | Inr privateKey \<Rightarrow>
                if privateKey = [] then Inl (Error ''Private key is not configured'')
                else Inr privateKey)
         else Inl (Error ''Private key is not configured''))"

section \<open>deploy.ts: execution\<close>

text \<open>
  \<open>oldTasks\<close> is a plain object keyed by task name; an entry holds \<open>(taskId, domain)\<close>.
\<close>

type_synonym oldTasks = "(string \<times> (string \<times> string)) list"

text \<open>The inner loop over the tasks of one network (over no task it does nothing).\<close>

definition indexTasks :: "string \<Rightarrow> Task list \<Rightarrow> oldTasks \<Rightarrow> oldTasks" where
  "indexTasks dmn tasks old = foldl (\<lambda>acc task. assignProperty (name task) (taskId task, dmn) acc) old tasks"

definition indexDomain :: "'p Sdk \<Rightarrow> string \<Rightarrow> oldTasks \<times> 'p \<Rightarrow> event list \<times> (error + oldTasks \<times> 'p)" where
  "indexDomain S dmn st =
     (case getActiveTasks S dmn (snd st) of
        None \<Rightarrow> ([GetActiveTasks dmn], Inl Rejected)
      | Some tasks \<Rightarrow> ([GetActiveTasks dmn], Inr (indexTasks dmn tasks (fst st), snd st)))"

text \<open>
  \<open>Object.entries\<close> lists the keys that are array indices first, in ascending numeric
  order, and then the other keys in the order of their creation.
\<close>

definition isDigit :: "char \<Rightarrow> bool" where
  "isDigit c = (48 \<le> (of_char c :: nat) \<and> (of_char c :: nat) \<le> 57)"

definition nat_of_digits :: "string \<Rightarrow> nat" where
  "nat_of_digits s = foldl (\<lambda>n c. 10 * n + (of_char c - 48)) 0 s"

definition isArrayIndex :: "string \<Rightarrow> bool" where
  "isArrayIndex s =
     (s \<noteq> [] \<and> list_all isDigit s \<and> (s = ''0'' \<or> hd s \<noteq> CHR ''0'') \<and> nat_of_digits s < 2 ^ 32 - 1)"

definition objectEntries :: "(string \<times> 'v) list \<Rightarrow> (string \<times> 'v) list" where
  "objectEntries al =
     sort_key (\<lambda>kv. nat_of_digits (fst kv)) (filter (\<lambda>kv. isArrayIndex (fst kv)) al)
     @ filter (\<lambda>kv. \<not> isArrayIndex (fst kv)) al"

text \<open>
  The reduction over \<open>Object.entries(config.secrets)\<close>: it throws at the first variable whose
  lookup in \<open>process.env\<close> is falsy, and assigns the value looked up otherwise.
\<close>

fun resolveSecrets ::
  "(string \<Rightarrow> string option) \<Rightarrow> (string \<times> string) list \<Rightarrow> (string \<times> jsvalue) list \<Rightarrow> error + (string \<times> jsvalue) list" where
  "resolveSecrets env [] acc = Inr acc"
| "resolveSecrets env ((key, envVarName) # rest) acc =
     (if truthyValue (getProperty env envVarName)
      then resolveSecrets env rest (assignProperty key (getProperty env envVarName) acc)
      else Inl (Error (envVarName @ '' env variable is not defined'')))"

definition deploymentName :: "Ethers \<Rightarrow> string \<Rightarrow> bytes \<Rightarrow> string \<Rightarrow> string" where
  "deploymentName ethers configFileName rawConfig ipfsDeployment =
     (let configName = slice_to_neg configFileName 5;
          hash = createHash ethers rawConfig ipfsDeployment
      in configName @ '' '' @ hash)"

text \<open>
  The tail of the loop body: the prompt, the create-task transaction and the secrets call
  (lines 229 to 238 of the script).
\<close>

definition createTask ::
  "'p Sdk \<Rightarrow> string \<Rightarrow> CreateTaskParams \<Rightarrow> (string \<times> jsvalue) list \<Rightarrow> oldTasks \<times> 'p
   \<Rightarrow> event list \<times> (error + oldTasks \<times> 'p)" where
  "createTask S dmn params secretValues st =
     (case st of (old, p) \<Rightarrow>
        (case createBatchExecTask S dmn params p of
           (None, p') \<Rightarrow>
             ([Log (''Deploying '' @ task_name params), Pause, CreateBatchExecTask dmn params],
              Inl Rejected)
         | (Some newId, p') \<Rightarrow>
             (case secretsSet S dmn secretValues newId p' of
                (False, p'') \<Rightarrow>
                  ([Log (''Deploying '' @ task_name params), Pause, CreateBatchExecTask dmn params,
                    SecretsSet dmn secretValues newId], Inl Rejected)
              | (True, p'') \<Rightarrow>
                  ([Log (''Deploying '' @ task_name params), Pause, CreateBatchExecTask dmn params,
                    SecretsSet dmn secretValues newId], Inr (old, p'')))))"

text \<open>
  The body of the loop over the config files of one keeper. \<open>ipfsDeployment\<close> is the value
  of \<open>ipfsDeployments[w3fName]\<close>. \<open>createHash\<close> hands it to \<open>Buffer.from\<close>, which throws a
  \<open>TypeError\<close> when it is not a string. The derived name holds a space, so the lookup
  \<open>oldTasks[deploymentName]\<close> finds an own property or nothing.
\<close>

definition processConfig ::
  "World \<Rightarrow> Ethers \<Rightarrow> 'p Sdk \<Rightarrow> string \<Rightarrow> jsvalue \<Rightarrow> string \<Rightarrow> oldTasks \<times> 'p
   \<Rightarrow> event list \<times> (error + oldTasks \<times> 'p)" where
  "processConfig W ethers S w3fName ipfsDeployment configFileName st =
     (case readFileSync W [w3fConfigsPath, w3fName, configFileName] of
        None \<Rightarrow> ([], Inl (ENOENT [w3fConfigsPath, w3fName, configFileName]))
      | Some rawConfig \<Rightarrow>
     (case parseConfig W rawConfig of
        None \<Rightarrow> ([], Inl SyntaxError)
      | Some config \<Rightarrow>
     (if domain config \<notin> set domains then
        ([Log (''Domain '' @ domain config @ '' is not supported'')], Inr st)
      else if ttype (trigger config) \<notin> set triggerTypeNames then
        ([Log (''Trigger type '' @ ttype (trigger config) @ '' is not supported'')], Inr st)
      else
     (case ipfsDeployment of
        Undefined \<Rightarrow> ([], Inl TypeError)
      | InheritedMember \<Rightarrow> ([], Inl TypeError)
      | StringValue address \<Rightarrow>
     (if map_of (fst st) (deploymentName ethers configFileName rawConfig address) \<noteq> None then
        ([Log (''Task '' @ deploymentName ethers configFileName rawConfig address
                 @ '' is already active'')],
         Inr (AList.delete (deploymentName ethers configFileName rawConfig address) (fst st), snd st))
      else
     (case createTriggerConfig W ethers (trigger config) of
        Inl e \<Rightarrow> ([], Inl e)
      | Inr triggerConfig \<Rightarrow>
     (case resolveSecrets (processEnv W) (secrets config) [] of
        Inl e \<Rightarrow> ([], Inl e)
      | Inr secretValues \<Rightarrow>
          createTask S (domain config)
            \<lparr> task_name = deploymentName ethers configFileName rawConfig address,
              web3FunctionHash = address,
              web3FunctionArgs = args config,
              task_trigger = triggerConfig \<rparr>
            secretValues st)))))))"

text \<open>The body of the loop over the keeper directories.\<close>

definition processKeeper ::
  "World \<Rightarrow> Ethers \<Rightarrow> 'p Sdk \<Rightarrow> string list \<Rightarrow> (string \<times> string) list \<Rightarrow> string \<Rightarrow> oldTasks \<times> 'p
   \<Rightarrow> event list \<times> (error + oldTasks \<times> 'p)" where
  "processKeeper W ethers S w3fConfigs ipfsDeployments w3fName st =
     (if w3fName \<notin> set w3fConfigs then ([Log (''No configs for '' @ w3fName)], Inr st)
      else if \<not> truthyValue (getProperty (map_of ipfsDeployments) w3fName) then
        ([Log (''No IPFS deployment for '' @ w3fName)], Inr st)
      else
        let configFileNames = listJsonFiles W [w3fConfigsPath, w3fName] in
        if configFileNames = [] then ([Log (''No configs for '' @ w3fName)], Inr st)
        else
          andThen ([Log (''Deploying '' @ w3fName)], Inr st)
            (forEach (processConfig W ethers S w3fName (getProperty (map_of ipfsDeployments) w3fName))
               configFileNames))"

text \<open>The body of the final loop over the entries left in \<open>oldTasks\<close>.\<close>

definition cancelOld :: "'p Sdk \<Rightarrow> string \<times> (string \<times> string) \<Rightarrow> 'p \<Rightarrow> event list \<times> (error + 'p)" where
  "cancelOld S entry p =
     (case entry of (taskName, (tid, dmn)) \<Rightarrow>
        (case cancelTask S dmn tid p of
           (False, p') \<Rightarrow> ([Log (''Cancelling task '' @ taskName), CancelTask dmn tid], Inl Rejected)
         | (True, p') \<Rightarrow> ([Log (''Cancelling task '' @ taskName), CancelTask dmn tid], Inr p')))"

text \<open>The asynchronous main function.\<close>

definition reconcile :: "World \<Rightarrow> Ethers \<Rightarrow> 'p Sdk \<Rightarrow> 'p \<Rightarrow> event list \<times> (error + 'p)" where
  "reconcile W ethers S p =
     (let w3fNames = listDirectories W w3fImplementationsPath;
          w3fConfigs = listDirectories W w3fConfigsPath
      in case readFileSync W [w3fIpfsDeploymentsPath] of
           None \<Rightarrow> ([], Inl (ENOENT [w3fIpfsDeploymentsPath]))
         | Some raw \<Rightarrow>
        (case parseDeployments W raw of
           None \<Rightarrow> ([], Inl SyntaxError)
         | Some ipfsDeployments \<Rightarrow>
             andThen
               (andThen (forEach (indexDomain S) domains ([], p))
                  (forEach (processKeeper W ethers S w3fConfigs ipfsDeployments) w3fNames))
               (\<lambda>st. forEach (cancelOld S) (objectEntries (fst st)) (snd st))))"

text \<open>
  The module as a whole: the private key is resolved and the wallets are built at load
  time, before the main function runs.
\<close>

definition script :: "World \<Rightarrow> Ethers \<Rightarrow> 'p Sdk \<Rightarrow> 'p \<Rightarrow> event list \<times> (error + 'p)" where
  "script W ethers S p =
     (case deployerPrivateKey W ethers of
        Inl e \<Rightarrow> ([], Inl e)
      | Inr key \<Rightarrow> if newWallet ethers key then reconcile W ethers S p else ([], Inl InvalidKey))"

section \<open>deployAll.ts\<close>

text \<open>
  \<open>deploymentDate\<close> is the ISO text of the current date, for instance
  \<open>2024-07-05T12:39:41.000Z\<close>; the tag keeps its day and its time of day.
\<close>

definition deploymentTag :: "string \<Rightarrow> string" where
  "deploymentTag deploymentDate =
     '' <'' @ slice deploymentDate 0 10 @ '' '' @ slice deploymentDate 11 19 @ ''>''"

definition tasksToRetire :: "string \<Rightarrow> string list \<Rightarrow> Task list \<Rightarrow> Task list" where
  "tasksToRetire tag taskNames activeTasks =
     filter (\<lambda>task. slice_to_neg (name task) (length tag) \<in> set taskNames) activeTasks"

text \<open>The body of the loop over \<open>tasksToRetire\<close>.\<close>

definition retireTask :: "'p Sdk \<Rightarrow> string \<Rightarrow> Task \<Rightarrow> 'p \<Rightarrow> event list \<times> (error + 'p)" where
  "retireTask S dmn task p =
     (case cancelTask S dmn (taskId task) p of
        (False, p') \<Rightarrow>
          ([Log (''   * Retiring '' @ name task @ ''...''), CancelTask dmn (taskId task)], Inl Rejected)
      | (True, p') \<Rightarrow>
          ([Log (''   * Retiring '' @ name task @ ''...''), CancelTask dmn (taskId task),
            Log (''   * '' @ name task @ '' retired successfully!'')], Inr p'))"

text \<open>\<open>dmn\<close> names the network of the SDK instance passed as \<open>automation\<close>.\<close>

definition retirePreviouslyDeployedTasks ::
  "'p Sdk \<Rightarrow> string \<Rightarrow> string \<Rightarrow> string list \<Rightarrow> 'p \<Rightarrow> event list \<times> (error + 'p)" where
  "retirePreviouslyDeployedTasks S tag dmn taskNames p =
     (case getActiveTasks S dmn p of
        None \<Rightarrow> ([GetActiveTasks dmn], Inl Rejected)
      | Some activeTasks \<Rightarrow>
          andThen ([GetActiveTasks dmn], Inr p)
            (forEach (retireTask S dmn) (tasksToRetire tag taskNames activeTasks)))"

text \<open>
  \<open>deploy\<close> over the state \<open>(gelatoDeployments, platform)\<close>. The write event carries the
  object that \<open>JSON.stringify\<close> serialises into \<open>deployments.json\<close>. The script calls
  \<open>deploy\<close> with six keeper names written out in it, none of them the name of an inherited
  member, so the two lookups by \<open>w3fName\<close> find an own property or nothing and the
  assignment sets an own property.
\<close>

definition deploy ::
  "(string \<times> string) list \<Rightarrow> string \<Rightarrow> (string \<Rightarrow> 'p \<Rightarrow> event list \<times> (error + 'p))
   \<Rightarrow> (string \<times> string) list \<times> 'p \<Rightarrow> event list \<times> (error + (string \<times> string) list \<times> 'p)" where
  "deploy ipfsDeployments w3fName deploymentLogic st =
     (let ipfsDeployment = map_of ipfsDeployments w3fName;
          gelatoDeployment = map_of (fst st) w3fName
      in if ipfsDeployment = None then
           ([Log (CHR 0x0A # ''== Deploying '' @ w3fName @ '' ==''),
             Log (''   * Skipping '' @ w3fName @ '' deployment (no IPFS deployment found)'')], Inr st)
         else if ipfsDeployment = gelatoDeployment then
           ([Log (CHR 0x0A # ''== Deploying '' @ w3fName @ '' ==''),
             Log (''   * Skipping '' @ w3fName @ '' deployment (already deployed)'')], Inr st)
         else
           andThen
             (andThen
                ([Log (CHR 0x0A # ''== Deploying '' @ w3fName @ '' ==''),
                  Log (''   * Deployment of '' @ w3fName @ '' to be executed (IPFS hash: ''
                       @ the ipfsDeployment @ '')''),
                  Pause,
                  Log (''   * Deploying '' @ w3fName @ ''...'')], Inr (snd st))
                (deploymentLogic (the ipfsDeployment)))
             (\<lambda>p'. ([Log (''   * Deployed '' @ w3fName @ '' successfully!''),
                     WriteFileSync ''./scripts/deployments.json''
                       (AList.update w3fName (the ipfsDeployment) (fst st))],
                    Inr (AList.update w3fName (the ipfsDeployment) (fst st), p'))))"

text \<open>The deployment logic passed to \<open>deploy\<close> for \<open>cap-automator\<close>, the first of the six.\<close>

definition hourInMilliseconds :: int where
  "hourInMilliseconds = 1000 * 60 * 60"

definition capAutomatorLogic ::
  "'p Sdk \<Rightarrow> string \<Rightarrow> string \<Rightarrow> string \<Rightarrow> string \<Rightarrow> 'p \<Rightarrow> event list \<times> (error + 'p)" where
  "capAutomatorLogic S tag slackWebhookUrl etherscanApiKey ipfsDeployment p =
     (let taskNames = [''Cap Automator''];
          params = \<lparr> task_name = hd taskNames @ tag,
                     web3FunctionHash = ipfsDeployment,
                     web3FunctionArgs = [(''threshold'', ''5000''), (''performGasCheck'', ''true''),
                                         (''sendSlackMessages'', ''true'')],
                     task_trigger = TriggerTIME hourInMilliseconds \<rparr>;
          secretValues = [(''SLACK_WEBHOOK_URL'', StringValue slackWebhookUrl),
                          (''ETHERSCAN_API_KEY'', StringValue etherscanApiKey)]
      in andThen (retirePreviouslyDeployedTasks S tag ''mainnet'' taskNames p)
           (\<lambda>p1. case createBatchExecTask S ''mainnet'' params p1 of
                    (None, p2) \<Rightarrow> ([CreateBatchExecTask ''mainnet'' params], Inl Rejected)
                  | (Some newId, p2) \<Rightarrow>
                      (case secretsSet S ''mainnet'' secretValues newId p2 of
                         (False, p3) \<Rightarrow>
                           ([CreateBatchExecTask ''mainnet'' params,
                             SecretsSet ''mainnet'' secretValues newId], Inl Rejected)
                       | (True, p3) \<Rightarrow>
                           ([CreateBatchExecTask ''mainnet'' params,
                             SecretsSet ''mainnet'' secretValues newId], Inr p3))))"

section \<open>The xchain-oracle-ticker handler\<close>

record PotData =
  dsr :: int
  rho :: int

text \<open>
  An address is the text \<open>0x\<close> followed by hexadecimal digits; \<open>Address h\<close> stands for the
  address with the digits \<open>h\<close>, and \<open>addressText\<close> is the string the code handles.
\<close>

datatype address = Address string

fun addressText :: "address \<Rightarrow> string" where
  "addressText (Address h) = ''0x'' @ h"

text \<open>
  What the handler reads from the chain: \<open>pot.dsr()\<close>, the timestamp of the latest block,
  \<open>getLastSeenPotData\<close> of each forwarder (through the multicall), and the gas prices of
  the default provider and of the provider behind a URL. A gas price is the quantity of a
  JSON-RPC answer, which has no sign.
\<close>

record Chain =
  currentDsr :: int
  latestTimestamp :: int
  lastSeenPotData :: "address \<Rightarrow> PotData"
  gasPrice :: nat
  remoteGasPrice :: "string \<Rightarrow> nat"

text \<open>
  The entries of \<open>addresses.mainnet.dsrForwarders\<close>, a table of \<open>../../utils\<close>: pairs of a
  domain alias and the forwarder's address.
\<close>

record Forwarders =
  optimismStyle :: "(string \<times> address) list"
  arbitrumStyle :: "(string \<times> address) list"

text \<open>The encoded calls \<open>refresh(gasLimit)\<close> and \<open>refresh(gasLimit, maxFeePerGas, baseFee)\<close>.\<close>

datatype CallData =
    Refresh int
  | RefreshArbitrum int int int

text \<open>
  The arguments of both calls are of type \<open>uint256\<close>: \<open>encodeFunctionData\<close> throws for a
  number that is negative or does not fit 256 bits.
\<close>

definition isUint256 :: "int \<Rightarrow> bool" where
  "isUint256 x = (0 \<le> x \<and> x < 2 ^ 256)"

definition encodeRefresh :: "int \<Rightarrow> error + CallData" where
  "encodeRefresh gasLimit = (if isUint256 gasLimit then Inr (Refresh gasLimit) else Inl OutOfBounds)"

definition encodeRefreshArbitrum :: "int \<Rightarrow> int \<Rightarrow> int \<Rightarrow> error + CallData" where
  "encodeRefreshArbitrum gasLimit maxFeePerGas baseFee =
     (if isUint256 gasLimit \<and> isUint256 maxFeePerGas \<and> isUint256 baseFee
      then Inr (RefreshArbitrum gasLimit maxFeePerGas baseFee) else Inl OutOfBounds)"

datatype Web3FunctionResult =
    NoExec string
  | Exec "(address \<times> CallData) list"

text \<open>
  The one key of \<open>arbitrumDomainUrls\<close> is the text of \<open>arbitrumStyle.arbitrum\<close>. The table is
  looked up with the text of an address, which starts with \<open>0x\<close> and so is the name of no
  inherited member: the lookup finds the own property or nothing.
\<close>

definition arbitrumDomainUrls :: "Forwarders \<Rightarrow> (string \<times> string) list" where
  "arbitrumDomainUrls fw =
     [(case map_of (arbitrumStyle fw) ''arbitrum'' of None \<Rightarrow> ''undefined'' | Some a \<Rightarrow> addressText a,
       ''https://arb1.arbitrum.io/rpc'')]"

definition generateSlackMessageBit :: "string \<Rightarrow> string" where
  "generateSlackMessageBit domainAlias = CHR 0x0A # '' - '' @ domainAlias"

text \<open>
  The state of the two loops: the multicall results not yet consumed, \<open>callsToExecute\<close> and
  \<open>slackMessageBits\<close>. Decoding \<open>multicallResults[0]\<close> of an empty array throws.
\<close>

type_synonym tickerState = "PotData list \<times> (address \<times> CallData) list \<times> string list"

definition needsRefresh :: "Chain \<Rightarrow> int \<Rightarrow> PotData \<Rightarrow> bool" where
  "needsRefresh chain maxDelta lastForwardedPotData =
     (dsr lastForwardedPotData \<noteq> currentDsr chain
      \<or> latestTimestamp chain > rho lastForwardedPotData + maxDelta)"

definition optimismStep ::
  "Chain \<Rightarrow> int \<Rightarrow> int \<Rightarrow> string \<times> address \<Rightarrow> tickerState \<Rightarrow> error + tickerState" where
  "optimismStep chain maxDelta gasLimit entry st =
     (case st of (multicallResults, callsToExecute, slackMessageBits) \<Rightarrow>
        (case multicallResults of
           [] \<Rightarrow> Inl (Error ''decodeFunctionResult'')
         | lastForwardedPotData # remaining \<Rightarrow>
             if needsRefresh chain maxDelta lastForwardedPotData
             then (case encodeRefresh gasLimit of
                     Inl e \<Rightarrow> Inl e
                   | Inr data \<Rightarrow>
                       Inr (remaining, callsToExecute @ [(snd entry, data)],
                            slackMessageBits @ [generateSlackMessageBit (fst entry)]))
             else Inr (remaining, callsToExecute, slackMessageBits)))"

text \<open>
  An entry without a URL is left by \<open>continue\<close> before anything is read: its multicall
  result stays at the head of \<open>multicallResults\<close>.
\<close>

definition arbitrumStep ::
  "Chain \<Rightarrow> Forwarders \<Rightarrow> int \<Rightarrow> int \<Rightarrow> string \<times> address \<Rightarrow> tickerState \<Rightarrow> error + tickerState" where
  "arbitrumStep chain fw maxDelta gasLimit entry st =
     (case st of (multicallResults, callsToExecute, slackMessageBits) \<Rightarrow>
        (case map_of (arbitrumDomainUrls fw) (addressText (snd entry)) of
           None \<Rightarrow> Inr st
         | Some url \<Rightarrow>
             let baseFee = int (gasPrice chain * 120 div 100);
                 maxFeePerGas = int (remoteGasPrice chain url * 120 div 100)
             in (case multicallResults of
                   [] \<Rightarrow> Inl (Error ''decodeFunctionResult'')
                 | lastForwardedPotData # remaining \<Rightarrow>
                     if needsRefresh chain maxDelta lastForwardedPotData
                     then (case encodeRefreshArbitrum gasLimit maxFeePerGas baseFee of
                             Inl e \<Rightarrow> Inl e
                           | Inr data \<Rightarrow>
                               Inr (remaining, callsToExecute @ [(snd entry, data)],
                                    slackMessageBits @ [generateSlackMessageBit (fst entry)]))
                     else Inr (remaining, callsToExecute, slackMessageBits))))"

text \<open>A loop over the entries of a table, left by a throw.\<close>

fun steps :: "('a \<Rightarrow> 's \<Rightarrow> error + 's) \<Rightarrow> 'a list \<Rightarrow> 's \<Rightarrow> error + 's" where
  "steps body [] s = Inr s"
| "steps body (x # xs) s = (case body x s of Inl e \<Rightarrow> Inl e | Inr s' \<Rightarrow> steps body xs s')"

text \<open>
  The two emoji of the heading, a mechanical arm and a crystal ball, as the bytes of their
  UTF-8 encoding.
\<close>

definition mechanicalArm :: string where
  "mechanicalArm = [CHR 0xF0, CHR 0x9F, CHR 0xA6, CHR 0xBE]"

definition crystalBall :: string where
  "crystalBall = [CHR 0xF0, CHR 0x9F, CHR 0x94, CHR 0xAE]"

definition generateSlackMessage :: "string list \<Rightarrow> string" where
  "generateSlackMessage messageBits =
     ''```'' @ mechanicalArm @ crystalBall @ '' DSR Oracle Keeper '' @ mechanicalArm @ crystalBall
     @ CHR 0x0A # ''Feed refresh to be sent to:'' @ concat messageBits @ ''```''"

text \<open>
  The handler: its result and the message sent to Slack, if one is sent. The multicall
  returns one result per forwarder, in the order of the calls.
\<close>

definition onRun ::
  "Chain \<Rightarrow> Forwarders \<Rightarrow> int \<Rightarrow> int \<Rightarrow> bool \<Rightarrow> error + Web3FunctionResult \<times> string option" where
  "onRun chain fw maxDelta gasLimit sendSlackMessages =
     (let multicallCalls = map snd (optimismStyle fw) @ map snd (arbitrumStyle fw);
          multicallResults = map (lastSeenPotData chain) multicallCalls
      in case steps (optimismStep chain maxDelta gasLimit) (optimismStyle fw) (multicallResults, [], []) of
           Inl e \<Rightarrow> Inl e
         | Inr st1 \<Rightarrow>
        (case steps (arbitrumStep chain fw maxDelta gasLimit) (arbitrumStyle fw) st1 of
           Inl e \<Rightarrow> Inl e
         | Inr (remaining, callsToExecute, slackMessageBits) \<Rightarrow>
             if length callsToExecute = 0 then Inr (NoExec ''Pot data refresh not needed'', None)
             else Inr (Exec callsToExecute,
                       if sendSlackMessages then Some (generateSlackMessage slackMessageBits) else None)))"

section \<open>Notions used to state the properties of deploy.ts\<close>

text \<open>
  What the loops over the keepers and their config files reach: the files of a keeper that
  passes the three checks of the outer loop, the config a file loads to, and the deployment
  name derived for a config that passes the two membership checks, when the value looked up
  for the keeper in \<open>pre-deployments.json\<close> is a string.
\<close>

definition loadConfig :: "World \<Rightarrow> string \<Rightarrow> string \<Rightarrow> (bytes \<times> DeploymentConfig) option" where
  "loadConfig W w3fName configFileName =
     (case readFileSync W [w3fConfigsPath, w3fName, configFileName] of
        None \<Rightarrow> None
      | Some rawConfig \<Rightarrow>
          (case parseConfig W rawConfig of None \<Rightarrow> None | Some config \<Rightarrow> Some (rawConfig, config)))"

definition supported :: "DeploymentConfig \<Rightarrow> bool" where
  "supported config = (domain config \<in> set domains \<and> ttype (trigger config) \<in> set triggerTypeNames)"

fun stringOf :: "jsvalue \<Rightarrow> string option" where
  "stringOf (StringValue s) = Some s"
| "stringOf v = None"

definition derivedName :: "World \<Rightarrow> Ethers \<Rightarrow> string \<Rightarrow> jsvalue \<Rightarrow> string \<Rightarrow> string list" where
  "derivedName W ethers w3fName ipfsDeployment configFileName =
     (case loadConfig W w3fName configFileName of
        None \<Rightarrow> []
      | Some (rawConfig, config) \<Rightarrow>
          (case stringOf ipfsDeployment of
             None \<Rightarrow> []
           | Some address \<Rightarrow>
               if supported config then [deploymentName ethers configFileName rawConfig address] else []))"

definition derivedNames :: "World \<Rightarrow> Ethers \<Rightarrow> string \<Rightarrow> jsvalue \<Rightarrow> string list \<Rightarrow> string list" where
  "derivedNames W ethers w3fName ipfsDeployment configFileNames =
     concat (map (derivedName W ethers w3fName ipfsDeployment) configFileNames)"

fun isLog :: "event \<Rightarrow> bool" where
  "isLog (Log m) = True"
| "isLog e = False"

definition keeperFiles :: "World \<Rightarrow> string list \<Rightarrow> (string \<times> string) list \<Rightarrow> string \<Rightarrow> string list" where
  "keeperFiles W w3fConfigs ipfsDeployments w3fName =
     (if w3fName \<in> set w3fConfigs \<and> truthyValue (getProperty (map_of ipfsDeployments) w3fName)
      then listJsonFiles W [w3fConfigsPath, w3fName] else [])"

definition keeperNames ::
  "World \<Rightarrow> Ethers \<Rightarrow> string list \<Rightarrow> (string \<times> string) list \<Rightarrow> string \<Rightarrow> string list" where
  "keeperNames W ethers w3fConfigs ipfsDeployments w3fName =
     derivedNames W ethers w3fName (getProperty (map_of ipfsDeployments) w3fName)
       (keeperFiles W w3fConfigs ipfsDeployments w3fName)"

definition allNames ::
  "World \<Rightarrow> Ethers \<Rightarrow> string list \<Rightarrow> (string \<times> string) list \<Rightarrow> string list \<Rightarrow> string list" where
  "allNames W ethers w3fConfigs ipfsDeployments w3fNames =
     concat (map (keeperNames W ethers w3fConfigs ipfsDeployments) w3fNames)"

definition ipfsDeploymentsOf :: "World \<Rightarrow> (string \<times> string) list option" where
  "ipfsDeploymentsOf W =
     (case readFileSync W [w3fIpfsDeploymentsPath] of None \<Rightarrow> None | Some raw \<Rightarrow> parseDeployments W raw)"

definition desiredNames :: "World \<Rightarrow> Ethers \<Rightarrow> string list" where
  "desiredNames W ethers =
     (case ipfsDeploymentsOf W of
        None \<Rightarrow> []
      | Some ipfsDeployments \<Rightarrow>
          allNames W ethers (listDirectories W w3fConfigsPath) ipfsDeployments
            (listDirectories W w3fImplementationsPath))"

text \<open>
  A config file the loop over it gets past: it is read and parsed, and when its config
  passes the two membership checks the content address handed to \<open>createHash\<close> is a string.
\<close>

definition configLoads :: "World \<Rightarrow> string \<Rightarrow> jsvalue \<Rightarrow> string \<Rightarrow> bool" where
  "configLoads W w3fName ipfsDeployment configFileName =
     (case loadConfig W w3fName configFileName of
        None \<Rightarrow> False
      | Some (rawConfig, config) \<Rightarrow> \<not> supported config \<or> stringOf ipfsDeployment \<noteq> None)"

definition configsLoad :: "World \<Rightarrow> bool" where
  "configsLoad W =
     (case ipfsDeploymentsOf W of
        None \<Rightarrow> False
      | Some ipfsDeployments \<Rightarrow>
          list_all (\<lambda>n. list_all (configLoads W n (getProperty (map_of ipfsDeployments) n))
                       (keeperFiles W (listDirectories W w3fConfigsPath) ipfsDeployments n))
            (listDirectories W w3fImplementationsPath))"

definition activeIndex :: "'p Sdk \<Rightarrow> 'p \<Rightarrow> oldTasks option" where
  "activeIndex S p =
     (case getActiveTasks S ''mainnet'' p of
        None \<Rightarrow> None
      | Some mainnetTasks \<Rightarrow>
          (case getActiveTasks S ''gnosis'' p of
             None \<Rightarrow> None
           | Some gnosisTasks \<Rightarrow>
               Some (indexTasks ''gnosis'' gnosisTasks (indexTasks ''mainnet'' mainnetTasks []))))"

fun isCreate :: "event \<Rightarrow> bool" where
  "isCreate (CreateBatchExecTask d params) = True"
| "isCreate e = False"

fun isCancel :: "event \<Rightarrow> bool" where
  "isCancel (CancelTask d t) = True"
| "isCancel e = False"

fun isSecretsSet :: "event \<Rightarrow> bool" where
  "isSecretsSet (SecretsSet d s t) = True"
| "isSecretsSet e = False"


section \<open>Notions used to state the other properties\<close>

text \<open>
  The event a topic reference resolves to: the ABI file of that name exists and parses, and
  holds an event of that name. Otherwise the lookup throws \<open>lookupError\<close>.
\<close>

definition abiEvent :: "World \<Rightarrow> TopicRef \<Rightarrow> EventFragment option" where
  "abiEvent W topic =
     (case readFileSync W [abisPath, abiName topic @ ''.json''] of
        None \<Rightarrow> None
      | Some raw \<Rightarrow>
          (case parseAbi W raw of
             None \<Rightarrow> None
           | Some abi \<Rightarrow> find (\<lambda>ev. event_name ev = eventName topic) abi))"

definition lookupError :: "World \<Rightarrow> TopicRef \<Rightarrow> error" where
  "lookupError W topic =
     (case readFileSync W [abisPath, abiName topic @ ''.json''] of
        None \<Rightarrow> ENOENT [abisPath, abiName topic @ ''.json'']
      | Some raw \<Rightarrow>
          (case parseAbi W raw of
             None \<Rightarrow> SyntaxError
           | Some abi \<Rightarrow> NoMatchingEvent (eventName topic)))"

text \<open>
  The reading of the password file in the spec's words, to compare with the code: the
  trailing newline is stripped, and a text without one is left as it is.
\<close>

definition stripTrailingNewline :: "string \<Rightarrow> string" where
  "stripTrailingNewline s = (if s \<noteq> [] \<and> last s = CHR 0x0A then butlast s else s)"

fun isWrite :: "event \<Rightarrow> bool" where
  "isWrite (WriteFileSync path content) = True"
| "isWrite e = False"

text \<open>The object held by \<open>deployments.json\<close> after the events of a run, given what it held before.\<close>

fun deploymentsFile :: "event list \<Rightarrow> (string \<times> string) list \<Rightarrow> (string \<times> string) list" where
  "deploymentsFile [] content = content"
| "deploymentsFile (WriteFileSync path written # es) content =
     deploymentsFile es (if path = ''./scripts/deployments.json'' then written else content)"
| "deploymentsFile (e # es) content = deploymentsFile es content"

text \<open>A consumer is an entry of one of the two forwarder tables; the condition of the two loops.\<close>

definition stale :: "Chain \<Rightarrow> int \<Rightarrow> string \<times> address \<Rightarrow> bool" where
  "stale chain maxDelta entry = needsRefresh chain maxDelta (lastSeenPotData chain (snd entry))"

text \<open>An arbitrum-style consumer the second loop does not skip: its address has a URL.\<close>

definition hasUrl :: "Forwarders \<Rightarrow> string \<times> address \<Rightarrow> bool" where
  "hasUrl fw entry = (map_of (arbitrumDomainUrls fw) (addressText (snd entry)) \<noteq> None)"

text \<open>The call each loop pushes for an entry whose condition holds.\<close>

definition optimismCall :: "int \<Rightarrow> string \<times> address \<Rightarrow> address \<times> CallData" where
  "optimismCall gasLimit entry = (snd entry, Refresh gasLimit)"

definition arbitrumCall :: "Chain \<Rightarrow> Forwarders \<Rightarrow> int \<Rightarrow> string \<times> address \<Rightarrow> address \<times> CallData" where
  "arbitrumCall chain fw gasLimit entry =
     (snd entry,
      RefreshArbitrum gasLimit
        (int (remoteGasPrice chain (the (map_of (arbitrumDomainUrls fw) (addressText (snd entry)))) * 120 div 100))
        (int (gasPrice chain * 120 div 100)))"

section \<open>Example inputs\<close>

text \<open>
  A world laid out by a table of keepers, each with its content address and its config
  files; \<open>configs\<close> is what each file's bytes parse to and \<open>env\<close> the environment. The
  texts of the config files are JSON, and the parsed configs are what they parse to. A field
  that the JSON text leaves out is never read by the code and is filled in arbitrarily.
\<close>

definition exampleWorld ::
  "(string \<times> string \<times> (string \<times> bytes) list) list \<Rightarrow> (bytes \<times> DeploymentConfig) list
   \<Rightarrow> (string \<times> string) list \<Rightarrow> World" where
  "exampleWorld keepers configs env =
     \<lparr> listDirectories =
         (\<lambda>p. if p = w3fImplementationsPath \<or> p = w3fConfigsPath then map fst keepers else []),
       listJsonFiles =
         (\<lambda>p. case p of
                 [c, n] \<Rightarrow> (case map_of keepers n of Some (a, fs) \<Rightarrow> map fst fs | None \<Rightarrow> [])
               | _ \<Rightarrow> []),
       readFileSync =
         (\<lambda>p. case p of
                 [d] \<Rightarrow> if d = w3fIpfsDeploymentsPath then Some ''pre-deployments'' else None
               | [c, n, f] \<Rightarrow> (case map_of keepers n of Some (a, fs) \<Rightarrow> map_of fs f | None \<Rightarrow> None)
               | _ \<Rightarrow> None),
       parseDeployments = (\<lambda>raw. Some (map (\<lambda>k. (fst k, fst (snd k))) keepers)),
       parseConfig = map_of configs,
       parseAbi = (\<lambda>raw. None),
       processEnv = map_of env \<rparr>"

text \<open>
  A platform for the examples: a counter for fresh task identifiers and the active tasks of
  the two networks. It accepts every call.
\<close>

type_synonym examplePlatform = "string \<times> Task list \<times> Task list"

definition exampleSdk :: "examplePlatform Sdk" where
  "exampleSdk =
     \<lparr> getActiveTasks =
         (\<lambda>d p. Some (if d = ''mainnet'' then fst (snd p)
                       else if d = ''gnosis'' then snd (snd p) else [])),
       createBatchExecTask =
         (\<lambda>d params p.
            (Some (''id'' @ fst p),
             (CHR ''*'' # fst p,
              if d = ''mainnet''
              then fst (snd p) @ [\<lparr> name = task_name params, taskId = ''id'' @ fst p \<rparr>]
              else fst (snd p),
              if d = ''gnosis''
              then snd (snd p) @ [\<lparr> name = task_name params, taskId = ''id'' @ fst p \<rparr>]
              else snd (snd p)))),
       secretsSet = (\<lambda>d s t p. (True, p)),
       cancelTask =
         (\<lambda>d t p.
            (True,
             (fst p,
              if d = ''mainnet'' then filter (\<lambda>x. taskId x \<noteq> t) (fst (snd p)) else fst (snd p),
              if d = ''gnosis'' then filter (\<lambda>x. taskId x \<noteq> t) (snd (snd p)) else snd (snd p)))) \<rparr>"

text \<open>The same platform behind an SDK whose create-task call rejects.\<close>

definition rejectingSdk :: "examplePlatform Sdk" where
  "rejectingSdk = exampleSdk \<lparr> createBatchExecTask := (\<lambda>d params p. (None, p)) \<rparr>"

text \<open>A stand-in for the library: the digest is injective, the one keystore opens with one password.\<close>

definition exampleEthers :: Ethers where
  "exampleEthers =
     \<lparr> keccak256 = (\<lambda>b. ''0x'' @ b),
       fromEncryptedJsonSync = (\<lambda>keystore password. if password = ''secret'' then Some ''0xkey'' else None),
       newWallet = (\<lambda>key. True) \<rparr>"

definition blockTrigger :: Trigger where
  "blockTrigger =
     \<lparr> ttype = ''block'', cron = [], filter_address = [], filter_topics = [],
       blockConfirmations = 0, interval = 0 \<rparr>"

definition rawMainnet :: bytes where
  \<open>rawMainnet = ''{"domain":"mainnet","args":{},"secrets":{"KEY":"VAR"},"trigger":{"type":"block"}}''\<close>

definition configMainnet :: DeploymentConfig where
  "configMainnet = \<lparr> domain = ''mainnet'', args = [], secrets = [(''KEY'', ''VAR'')], trigger = blockTrigger \<rparr>"

definition rawMainnat :: bytes where
  \<open>rawMainnat = ''{"domain":"mainnat","args":{},"secrets":{"KEY":"VAR"},"trigger":{"type":"block"}}''\<close>

definition configMainnat :: DeploymentConfig where
  "configMainnat = \<lparr> domain = ''mainnat'', args = [], secrets = [(''KEY'', ''VAR'')], trigger = blockTrigger \<rparr>"

definition rawGnosis :: bytes where
  \<open>rawGnosis = ''{"domain":"gnosis","args":{},"secrets":{},"trigger":{"type":"block"}}''\<close>

definition configGnosis :: DeploymentConfig where
  "configGnosis = \<lparr> domain = ''gnosis'', args = [], secrets = [], trigger = blockTrigger \<rparr>"

definition rawThreshold5 :: bytes where
  \<open>rawThreshold5 = ''{"domain":"gnosis","args":{"threshold":"5"},"secrets":{},"trigger":{"type":"block"}}''\<close>

definition configThreshold5 :: DeploymentConfig where
  "configThreshold5 =
     \<lparr> domain = ''gnosis'', args = [(''threshold'', ''5'')], secrets = [], trigger = blockTrigger \<rparr>"

definition rawThreshold6 :: bytes where
  \<open>rawThreshold6 = ''{"domain":"gnosis","args":{"threshold":"6"},"secrets":{},"trigger":{"type":"block"}}''\<close>

definition configThreshold6 :: DeploymentConfig where
  "configThreshold6 =
     \<lparr> domain = ''gnosis'', args = [(''threshold'', ''6'')], secrets = [], trigger = blockTrigger \<rparr>"

definition rawMnosis :: bytes where
  \<open>rawMnosis = ''{"domain":"mnosis","args":{},"secrets":{},"trigger":{"type":"block"}}''\<close>

definition configMnosis :: DeploymentConfig where
  "configMnosis = \<lparr> domain = ''mnosis'', args = [], secrets = [], trigger = blockTrigger \<rparr>"

definition exampleConfigs :: "(bytes \<times> DeploymentConfig) list" where
  "exampleConfigs =
     [(rawMainnet, configMainnet), (rawMainnat, configMainnat), (rawGnosis, configGnosis),
      (rawThreshold5, configThreshold5), (rawThreshold6, configThreshold6), (rawMnosis, configMnosis)]"

text \<open>A world with one ABI file, \<open>abis/aggregator.json\<close>, holding the event \<open>AnswerUpdated\<close>.\<close>

definition rawAggregatorAbi :: bytes where
  \<open>rawAggregatorAbi = ''[{"type":"event","name":"AnswerUpdated","inputs":[{"type":"int256"},{"type":"uint256"},{"type":"uint256"}]}]''\<close>

definition exampleAbiWorld :: World where
  "exampleAbiWorld =
     (exampleWorld [] [] [])
       \<lparr> readFileSync := (\<lambda>p. if p = [abisPath, ''aggregator.json''] then Some rawAggregatorAbi else None),
         parseAbi := (\<lambda>raw. if raw = rawAggregatorAbi
                             then Some [\<lparr> event_name = ''AnswerUpdated'',
                                          event_inputs = [''int256'', ''uint256'', ''uint256''] \<rparr>]
                             else None) \<rparr>"

definition eventTrigger :: "string \<Rightarrow> string \<Rightarrow> Trigger" where
  "eventTrigger abi ev =
     \<lparr> ttype = ''event'', cron = [], filter_address = ''0xAggregator'',
       filter_topics = [\<lparr> abiName = abi, eventName = ev \<rparr>],
       blockConfirmations = 0, interval = 0 \<rparr>"

text \<open>A world with a keystore and a password file of the given content, and no explicit key.\<close>

definition exampleKeyWorld :: "string \<Rightarrow> World" where
  "exampleKeyWorld passwordFile =
     (exampleWorld [] []
        [(''GELATO_KEYSTORE_PATH'', ''/keys/keystore.json''), (''GELATO_PASSWORD_PATH'', ''/keys/password'')])
       \<lparr> readFileSync := (\<lambda>p. if p = [''/keys/password''] then Some passwordFile
                               else if p = [''/keys/keystore.json''] then Some ''{keystore}''
                               else None) \<rparr>"

text \<open>A chain state and forwarder tables for the handler.\<close>

definition exampleForwarders :: Forwarders where
  "exampleForwarders =
     \<lparr> optimismStyle = [(''optimism'', Address ''0a''), (''base'', Address ''0b'')],
       arbitrumStyle = [(''arbitrum'', Address ''0c''), (''nova'', Address ''0d'')] \<rparr>"

text \<open>Tables whose arbitrum-style part holds \<open>nova\<close> alone, and \<open>nova\<close> before \<open>arbitrum\<close>.\<close>

definition novaForwarders :: Forwarders where
  "novaForwarders = \<lparr> optimismStyle = [], arbitrumStyle = [(''nova'', Address ''0d'')] \<rparr>"

definition novaFirstForwarders :: Forwarders where
  "novaFirstForwarders =
     \<lparr> optimismStyle = [], arbitrumStyle = [(''nova'', Address ''0d''), (''arbitrum'', Address ''0c'')] \<rparr>"

text \<open>
  The forwarders \<open>0x0b\<close> and \<open>0x0d\<close> were last updated at 400, the others at 1000; all of
  them hold the current rate.
\<close>

definition exampleChain :: "int \<Rightarrow> Chain" where
  "exampleChain now =
     \<lparr> currentDsr = 105, latestTimestamp = now,
       lastSeenPotData =
         (\<lambda>a. if a = Address ''0b'' \<or> a = Address ''0d''
               then \<lparr> dsr = 105, rho = 400 \<rparr> else \<lparr> dsr = 105, rho = 1000 \<rparr>),
       gasPrice = 10, remoteGasPrice = (\<lambda>url. 1) \<rparr>"

section \<open>Lemmas about the loops of deploy.ts\<close>

lemma delete_filter: "AList.delete k al = filter (\<lambda>kv. fst kv \<noteq> k) al"
  by (induction al) auto

lemma stringOf_Some: "stringOf v = Some a \<longleftrightarrow> v = StringValue a"
  by (cases v) auto

lemma stringOf_getProperty:
  "stringOf (getProperty obj key) = obj key"
  by (simp add: getProperty_def split: option.splits)

lemma processConfig_unloaded:
  "loadConfig W n f = None \<Longrightarrow> \<exists>e. processConfig W ethers S n v f st = ([], Inl e)"
  by (auto simp: loadConfig_def processConfig_def split: option.splits)

lemma processConfig_unsupported:
  "loadConfig W n f = Some (raw, c) \<Longrightarrow> \<not> supported c \<Longrightarrow>
   \<exists>m. processConfig W ethers S n v f st = ([Log m], Inr st)"
  by (auto simp: loadConfig_def processConfig_def supported_def split: option.splits)

lemma processConfig_nonstring:
  "loadConfig W n f = Some (raw, c) \<Longrightarrow> supported c \<Longrightarrow> stringOf v = None \<Longrightarrow>
   processConfig W ethers S n v f st = ([], Inl TypeError)"
  by (cases v) (auto simp: loadConfig_def processConfig_def supported_def split: option.splits)

lemma processConfig_matched:
  "loadConfig W n f = Some (raw, c) \<Longrightarrow> supported c \<Longrightarrow>
   deploymentName ethers f raw a \<in> fst ` set old \<Longrightarrow>
   processConfig W ethers S n (StringValue a) f (old, p)
     = ([Log (''Task '' @ deploymentName ethers f raw a @ '' is already active'')],
        Inr (AList.delete (deploymentName ethers f raw a) old, p))"
  by (auto simp: loadConfig_def processConfig_def supported_def map_of_eq_None_iff split: option.splits)

lemma createTask_old:
  "createTask S d params sv (old, p) = (es, Inr (old', p')) \<Longrightarrow>
   old' = old \<and> CreateBatchExecTask d params \<in> set es"
  by (auto simp: createTask_def split: prod.splits option.splits bool.splits)

lemma createTask_events:
  "createTask S d params sv st = (es, r) \<Longrightarrow> CreateBatchExecTask d' params' \<in> set es \<Longrightarrow>
   d' = d \<and> params' = params"
  by (auto simp: createTask_def split: prod.splits option.splits bool.splits)

lemma processConfig_unmatched:
  "loadConfig W n f = Some (raw, c) \<Longrightarrow> supported c \<Longrightarrow>
   deploymentName ethers f raw a \<notin> fst ` set old \<Longrightarrow>
   processConfig W ethers S n (StringValue a) f (old, p) = (es, Inr (old', p')) \<Longrightarrow>
   old' = old \<and> (\<exists>params. CreateBatchExecTask (domain c) params \<in> set es
                  \<and> task_name params = deploymentName ethers f raw a)"
  by (auto simp: loadConfig_def processConfig_def supported_def map_of_eq_None_iff
      split: option.splits sum.splits dest!: createTask_old)

lemma andThen_Inr:
  "andThen m f = (es, Inr t) \<longleftrightarrow>
   (\<exists>es1 s es2. m = (es1, Inr s) \<and> f s = (es2, Inr t) \<and> es = es1 @ es2)"
  by (cases m; cases "snd m") (auto simp: andThen_def split: prod.splits)

lemma forEach_Cons_Inr:
  "forEach body (x # xs) s = (es, Inr t) \<longleftrightarrow>
   (\<exists>es1 s1 es2. body x s = (es1, Inr s1) \<and> forEach body xs s1 = (es2, Inr t) \<and> es = es1 @ es2)"
  by (simp add: andThen_Inr)

lemma processConfig_old:
  assumes "processConfig W ethers S n v f (old, p) = (es, Inr (old', p'))"
  shows "old' = filter (\<lambda>kv. fst kv \<notin> set (derivedName W ethers n v f)) old"
proof (cases "loadConfig W n f")
  case None
  with processConfig_unloaded[OF None, of ethers S v "(old, p)"] assms show ?thesis by auto
next
  case (Some rc)
  obtain raw c where rc: "rc = (raw, c)" by (cases rc)
  note L = Some[unfolded rc]
  show ?thesis
  proof (cases "supported c")
    case False
    with processConfig_unsupported[OF L False, of ethers S v "(old, p)"] assms L
    show ?thesis by (auto simp: derivedName_def split: option.splits)
  next
    case True
    show ?thesis
    proof (cases "stringOf v")
      case None
      from processConfig_nonstring[OF L True None, of ethers S "(old, p)"] assms
      show ?thesis by simp
    next
      case (Some a)
      then have v: "v = StringValue a" by (simp add: stringOf_Some)
      show ?thesis
      proof (cases "deploymentName ethers f raw a \<in> fst ` set old")
        case m: True
        from processConfig_matched[OF L True m, of S p] assms
        show ?thesis using L True v by (simp add: derivedName_def delete_filter)
      next
        case m: False
        from processConfig_unmatched[OF L True m assms[unfolded v]] have "old' = old" by simp
        moreover from m have "filter (\<lambda>kv. fst kv \<noteq> deploymentName ethers f raw a) old = old"
          by (induction old) auto
        ultimately show ?thesis using L True v by (simp add: derivedName_def)
      qed
    qed
  qed
qed

lemma configLoop_old:
  "forEach (processConfig W ethers S n v) fs (old, p) = (es, Inr (old', p')) \<Longrightarrow>
   old' = filter (\<lambda>kv. fst kv \<notin> set (derivedNames W ethers n v fs)) old"
proof (induction fs arbitrary: old p es)
  case Nil
  then show ?case by (simp add: derivedNames_def)
next
  case (Cons f fs)
  from Cons.prems obtain es1 old1 p1 es2 where
    a: "processConfig W ethers S n v f (old, p) = (es1, Inr (old1, p1))" and
    b: "forEach (processConfig W ethers S n v) fs (old1, p1) = (es2, Inr (old', p'))"
    by (auto simp: andThen_Inr)
  from processConfig_old[OF a] Cons.IH[OF b] show ?case
    by (auto simp: derivedNames_def intro: filter_cong)
qed

lemma processKeeper_files:
  "processKeeper W ethers S cfgs ipfss n st =
     (if keeperFiles W cfgs ipfss n = []
      then ([Log (''No '' @ (if n \<in> set cfgs \<and> \<not> truthyValue (getProperty (map_of ipfss) n)
                             then ''IPFS deployment'' else ''configs'') @ '' for '' @ n)], Inr st)
      else andThen ([Log (''Deploying '' @ n)], Inr st)
            (forEach (processConfig W ethers S n (getProperty (map_of ipfss) n)) (keeperFiles W cfgs ipfss n)))"
  by (simp add: processKeeper_def keeperFiles_def Let_def)

lemma processKeeper_loop:
  assumes "processKeeper W ethers S cfgs ipfss n st = (es, Inr st')"
  shows "\<exists>es2. forEach (processConfig W ethers S n (getProperty (map_of ipfss) n))
                  (keeperFiles W cfgs ipfss n) st = (es2, Inr st')
               \<and> set es2 \<subseteq> set es"
proof (cases "keeperFiles W cfgs ipfss n = []")
  case True
  with assms show ?thesis by (simp add: processKeeper_files)
next
  case False
  with assms show ?thesis by (auto simp: processKeeper_files andThen_Inr)
qed

lemma processKeeper_old:
  assumes "processKeeper W ethers S cfgs ipfss n (old, p) = (es, Inr (old', p'))"
  shows "old' = filter (\<lambda>kv. fst kv \<notin> set (keeperNames W ethers cfgs ipfss n)) old"
proof -
  from processKeeper_loop[OF assms] obtain es2 where
    "forEach (processConfig W ethers S n (getProperty (map_of ipfss) n)) (keeperFiles W cfgs ipfss n) (old, p)
       = (es2, Inr (old', p'))" by blast
  from configLoop_old[OF this] show ?thesis by (simp add: keeperNames_def)
qed

lemma keeperLoop_old:
  "forEach (processKeeper W ethers S cfgs ipfss) ns (old, p) = (es, Inr (old', p')) \<Longrightarrow>
   old' = filter (\<lambda>kv. fst kv \<notin> set (allNames W ethers cfgs ipfss ns)) old"
proof (induction ns arbitrary: old p es)
  case Nil
  then show ?case by (simp add: allNames_def)
next
  case (Cons n ns)
  from Cons.prems obtain es1 old1 p1 es2 where
    a: "processKeeper W ethers S cfgs ipfss n (old, p) = (es1, Inr (old1, p1))" and
    b: "forEach (processKeeper W ethers S cfgs ipfss) ns (old1, p1) = (es2, Inr (old', p'))"
    by (auto simp: andThen_Inr)
  from processKeeper_old[OF a] Cons.IH[OF b] show ?case
    by (auto simp: allNames_def intro: filter_cong)
qed

lemma configLoop_creates:
  "forEach (processConfig W ethers S n (StringValue a)) fs (old, p) = (es, Inr st') \<Longrightarrow>
   f \<in> set fs \<Longrightarrow> loadConfig W n f = Some (raw, c) \<Longrightarrow> supported c \<Longrightarrow>
   deploymentName ethers f raw a \<notin> fst ` set old \<Longrightarrow>
   \<exists>params. CreateBatchExecTask (domain c) params \<in> set es
           \<and> task_name params = deploymentName ethers f raw a"
proof (induction fs arbitrary: old p es)
  case Nil
  then show ?case by simp
next
  case (Cons g fs)
  from Cons.prems(1) obtain es1 old1 p1 es2 where
    a: "processConfig W ethers S n (StringValue a) g (old, p) = (es1, Inr (old1, p1))" and
    b: "forEach (processConfig W ethers S n (StringValue a)) fs (old1, p1) = (es2, Inr st')" and
    es: "es = es1 @ es2"
    by (auto simp: andThen_Inr)
  show ?case
  proof (cases "g = f")
    case True
    from processConfig_unmatched[OF Cons.prems(3,4,5) a[unfolded True]] es show ?thesis by auto
  next
    case False
    with Cons.prems(2) have "f \<in> set fs" by simp
    moreover from processConfig_old[OF a] Cons.prems(5)
    have "deploymentName ethers f raw a \<notin> fst ` set old1" by auto
    ultimately show ?thesis using Cons.IH[OF b _ Cons.prems(3,4)] es by auto
  qed
qed

lemma processKeeper_creates:
  assumes "processKeeper W ethers S cfgs ipfss n (old, p) = (es, Inr st')"
    and "getProperty (map_of ipfss) n = StringValue a"
    and "f \<in> set (keeperFiles W cfgs ipfss n)"
    and "loadConfig W n f = Some (raw, c)" and "supported c"
    and "deploymentName ethers f raw a \<notin> fst ` set old"
  shows "\<exists>params. CreateBatchExecTask (domain c) params \<in> set es
           \<and> task_name params = deploymentName ethers f raw a"
proof -
  from processKeeper_loop[OF assms(1)] assms(2) obtain es2 where
    b: "forEach (processConfig W ethers S n (StringValue a)) (keeperFiles W cfgs ipfss n) (old, p)
       = (es2, Inr st')" and es: "set es2 \<subseteq> set es"
    by auto
  from configLoop_creates[OF b assms(3,4,5,6)] es show ?thesis by auto
qed

lemma keeperLoop_creates:
  "forEach (processKeeper W ethers S cfgs ipfss) ns (old, p) = (es, Inr st') \<Longrightarrow>
   n \<in> set ns \<Longrightarrow> getProperty (map_of ipfss) n = StringValue a \<Longrightarrow>
   f \<in> set (keeperFiles W cfgs ipfss n) \<Longrightarrow>
   loadConfig W n f = Some (raw, c) \<Longrightarrow> supported c \<Longrightarrow>
   deploymentName ethers f raw a \<notin> fst ` set old \<Longrightarrow>
   \<exists>params. CreateBatchExecTask (domain c) params \<in> set es
           \<and> task_name params = deploymentName ethers f raw a"
proof (induction ns arbitrary: old p es)
  case Nil
  then show ?case by simp
next
  case (Cons m ns)
  from Cons.prems(1) obtain es1 old1 p1 es2 where
    a: "processKeeper W ethers S cfgs ipfss m (old, p) = (es1, Inr (old1, p1))" and
    b: "forEach (processKeeper W ethers S cfgs ipfss) ns (old1, p1) = (es2, Inr st')" and
    es: "es = es1 @ es2"
    by (auto simp: andThen_Inr)
  show ?case
  proof (cases "m = n")
    case True
    from processKeeper_creates[OF a[unfolded True] Cons.prems(3,4,5,6,7)] es show ?thesis by auto
  next
    case False
    with Cons.prems(2) have "n \<in> set ns" by simp
    moreover from processKeeper_old[OF a] Cons.prems(7)
    have "deploymentName ethers f raw a \<notin> fst ` set old1" by auto
    ultimately show ?thesis using Cons.IH[OF b _ Cons.prems(3,4,5,6)] es by auto
  qed
qed

lemma keys_delete: "fst ` set (AList.delete k al) = fst ` set al - {k}"
  by (induction al) auto

lemma configLoop_matched:
  "list_all (configLoads W n v) fs \<Longrightarrow>
   distinct (derivedNames W ethers n v fs) \<Longrightarrow>
   set (derivedNames W ethers n v fs) \<subseteq> fst ` set old \<Longrightarrow>
   \<exists>es. forEach (processConfig W ethers S n v) fs (old, p)
          = (es, Inr (filter (\<lambda>kv. fst kv \<notin> set (derivedNames W ethers n v fs)) old, p))
        \<and> list_all isLog es"
proof (induction fs arbitrary: old)
  case Nil
  then show ?case by (simp add: derivedNames_def)
next
  case (Cons f fs)
  from Cons.prems(1) obtain raw c where L: "loadConfig W n f = Some (raw, c)"
    and S: "\<not> supported c \<or> stringOf v \<noteq> None"
    by (auto simp: configLoads_def split: option.splits)
  have rest: "list_all (configLoads W n v) fs" using Cons.prems(1) by simp
  show ?case
  proof (cases "supported c")
    case False
    then have dn: "derivedName W ethers n v f = []" using L
      by (simp add: derivedName_def split: option.splits)
    from processConfig_unsupported[OF L False, of ethers S v "(old, p)"] obtain m where
      a: "processConfig W ethers S n v f (old, p) = ([Log m], Inr (old, p))" by auto
    from Cons.prems(2,3) dn have "distinct (derivedNames W ethers n v fs)"
      and "set (derivedNames W ethers n v fs) \<subseteq> fst ` set old"
      by (simp_all add: derivedNames_def)
    from Cons.IH[OF rest this] obtain es where
      "forEach (processConfig W ethers S n v) fs (old, p)
          = (es, Inr (filter (\<lambda>kv. fst kv \<notin> set (derivedNames W ethers n v fs)) old, p))"
      "list_all isLog es" by auto
    with a dn show ?thesis by (simp add: andThen_def derivedNames_def)
  next
    case True
    with S obtain a where v: "v = StringValue a" by (auto simp: stringOf_Some)
    let ?N = "deploymentName ethers f raw a"
    have dn: "derivedName W ethers n v f = [?N]" using L True v by (simp add: derivedName_def)
    with Cons.prems(3) have m: "?N \<in> fst ` set old" by (simp add: derivedNames_def)
    note a = processConfig_matched[OF L True m, of S p, folded v]
    from Cons.prems(2,3) dn have d: "distinct (derivedNames W ethers n v fs)"
      and "?N \<notin> set (derivedNames W ethers n v fs)"
      and "set (derivedNames W ethers n v fs) \<subseteq> fst ` set old"
      by (simp_all add: derivedNames_def)
    then have "set (derivedNames W ethers n v fs) \<subseteq> fst ` set (AList.delete ?N old)"
      by (auto simp: keys_delete)
    from Cons.IH[OF rest d this] obtain es where
      "forEach (processConfig W ethers S n v) fs (AList.delete ?N old, p)
          = (es, Inr (filter (\<lambda>kv. fst kv \<notin> set (derivedNames W ethers n v fs))
                        (AList.delete ?N old), p))"
      "list_all isLog es" by auto
    with a dn show ?thesis
      by (auto simp: andThen_def derivedNames_def delete_filter intro: filter_cong)
  qed
qed

lemma keys_filter_notin:
  "B \<subseteq> fst ` set old \<Longrightarrow> A \<inter> B = {} \<Longrightarrow> B \<subseteq> fst ` set (filter (\<lambda>kv. fst kv \<notin> A) old)"
  by force

lemma processKeeper_matched:
  assumes "list_all (configLoads W n (getProperty (map_of ipfss) n)) (keeperFiles W cfgs ipfss n)"
    and "distinct (keeperNames W ethers cfgs ipfss n)"
    and "set (keeperNames W ethers cfgs ipfss n) \<subseteq> fst ` set old"
  shows "\<exists>es. processKeeper W ethers S cfgs ipfss n (old, p)
          = (es, Inr (filter (\<lambda>kv. fst kv \<notin> set (keeperNames W ethers cfgs ipfss n)) old, p))
        \<and> list_all isLog es"
proof (cases "keeperFiles W cfgs ipfss n = []")
  case True
  then show ?thesis by (simp add: processKeeper_files keeperNames_def derivedNames_def)
next
  case False
  from configLoop_matched[OF assms[unfolded keeperNames_def], of S p] obtain es where
    "forEach (processConfig W ethers S n (getProperty (map_of ipfss) n)) (keeperFiles W cfgs ipfss n) (old, p)
      = (es, Inr (filter (\<lambda>kv. fst kv \<notin> set (keeperNames W ethers cfgs ipfss n)) old, p))"
    "list_all isLog es" by (auto simp: keeperNames_def)
  with False show ?thesis by (simp add: processKeeper_files andThen_def)
qed

lemma keeperLoop_matched:
  "list_all (\<lambda>n. list_all (configLoads W n (getProperty (map_of ipfss) n)) (keeperFiles W cfgs ipfss n)) ns \<Longrightarrow>
   distinct (allNames W ethers cfgs ipfss ns) \<Longrightarrow>
   set (allNames W ethers cfgs ipfss ns) \<subseteq> fst ` set old \<Longrightarrow>
   \<exists>es. forEach (processKeeper W ethers S cfgs ipfss) ns (old, p)
          = (es, Inr (filter (\<lambda>kv. fst kv \<notin> set (allNames W ethers cfgs ipfss ns)) old, p))
        \<and> list_all isLog es"
proof (induction ns arbitrary: old)
  case Nil
  then show ?case by (simp add: allNames_def)
next
  case (Cons n ns)
  let ?A = "keeperNames W ethers cfgs ipfss n"
  let ?B = "allNames W ethers cfgs ipfss ns"
  have split: "allNames W ethers cfgs ipfss (n # ns) = ?A @ ?B" by (simp add: allNames_def)
  from Cons.prems(2,3) have dA: "distinct ?A" and dB: "distinct ?B" and disj: "set ?A \<inter> set ?B = {}"
    and sA: "set ?A \<subseteq> fst ` set old" and sB: "set ?B \<subseteq> fst ` set old"
    by (simp_all add: split)
  from Cons.prems(1)
  have lA: "list_all (configLoads W n (getProperty (map_of ipfss) n)) (keeperFiles W cfgs ipfss n)"
    and lB: "list_all (\<lambda>n. list_all (configLoads W n (getProperty (map_of ipfss) n))
                              (keeperFiles W cfgs ipfss n)) ns"
    by simp_all
  from processKeeper_matched[OF lA dA sA, of S p] obtain es1 where
    a: "processKeeper W ethers S cfgs ipfss n (old, p)
          = (es1, Inr (filter (\<lambda>kv. fst kv \<notin> set ?A) old, p))" and l1: "list_all isLog es1" by auto
  from Cons.IH[OF lB dB keys_filter_notin[OF sB disj]] obtain es2 where
    b: "forEach (processKeeper W ethers S cfgs ipfss) ns (filter (\<lambda>kv. fst kv \<notin> set ?A) old, p)
          = (es2, Inr (filter (\<lambda>kv. fst kv \<notin> set ?B) (filter (\<lambda>kv. fst kv \<notin> set ?A) old), p))"
    and l2: "list_all isLog es2" by auto
  from a b l1 l2 show ?case
    by (auto simp: andThen_def split intro: filter_cong)
qed

lemma index_phase:
  "forEach (indexDomain S) domains ([], p) = (es, Inr st) \<longleftrightarrow>
   (\<exists>old. activeIndex S p = Some old \<and> st = (old, p)
        \<and> es = [GetActiveTasks ''mainnet'', GetActiveTasks ''gnosis''])"
  by (auto simp: domains_def indexDomain_def activeIndex_def andThen_def split: option.splits)

lemma keys_assignProperty:
  "fst ` set (assignProperty k v old) = fst ` set old \<union> ({k} - {''__proto__''})"
  by (auto simp: assignProperty_def dom_update)

lemma keys_indexTasks:
  "fst ` set (indexTasks d ts old) = fst ` set old \<union> (name ` set ts - {''__proto__''})"
  unfolding indexTasks_def
  by (induction ts arbitrary: old) (auto simp: keys_assignProperty)

lemma set_objectEntries: "set (objectEntries al) = set al"
  by (auto simp: objectEntries_def)

lemma cancelLoop_all:
  "forEach (cancelOld S) entries p = (es, Inr p') \<Longrightarrow> (n, (t, d)) \<in> set entries \<Longrightarrow>
   CancelTask d t \<in> set es"
proof (induction entries arbitrary: p es)
  case Nil
  then show ?case by simp
next
  case (Cons x xs)
  from Cons.prems(1) obtain es1 p1 es2 where
    a: "cancelOld S x p = (es1, Inr p1)" and b: "forEach (cancelOld S) xs p1 = (es2, Inr p')"
    and es: "es = es1 @ es2" by (auto simp: andThen_Inr)
  show ?case
  proof (cases "x = (n, (t, d))")
    case True
    with a have "CancelTask d t \<in> set es1"
      by (auto simp: cancelOld_def split: prod.splits bool.splits)
    with es show ?thesis by simp
  next
    case False
    with Cons.prems(2) have "(n, (t, d)) \<in> set xs" by simp
    from Cons.IH[OF b this] es show ?thesis by simp
  qed
qed

lemma reconcile_Inr:
  assumes "reconcile W ethers S p = (es, Inr p')"
  shows "\<exists>ipfss old es1 old1 p1 es2.
           ipfsDeploymentsOf W = Some ipfss \<and> activeIndex S p = Some old
         \<and> forEach (processKeeper W ethers S (listDirectories W w3fConfigsPath) ipfss)
               (listDirectories W w3fImplementationsPath) (old, p) = (es1, Inr (old1, p1))
         \<and> forEach (cancelOld S) (objectEntries old1) p1 = (es2, Inr p')
         \<and> es = [GetActiveTasks ''mainnet'', GetActiveTasks ''gnosis''] @ es1 @ es2"
  using assms
  by (auto simp: reconcile_def ipfsDeploymentsOf_def andThen_Inr index_phase Let_def
      split: option.splits)

lemma matched_run:
  assumes "configsLoad W" and "activeIndex S p = Some old"
    and "distinct (desiredNames W ethers)"
    and "set (desiredNames W ethers) = fst ` set old"
  shows "\<exists>es. reconcile W ethers S p
               = ([GetActiveTasks ''mainnet'', GetActiveTasks ''gnosis''] @ es, Inr p)
             \<and> list_all isLog es"
proof -
  from assms(1) obtain ipfss where I: "ipfsDeploymentsOf W = Some ipfss"
    by (auto simp: configsLoad_def split: option.splits)
  let ?cfgs = "listDirectories W w3fConfigsPath"
  let ?ns = "listDirectories W w3fImplementationsPath"
  have dn: "desiredNames W ethers = allNames W ethers ?cfgs ipfss ?ns"
    using I by (simp add: desiredNames_def)
  from assms(1) I have
    "list_all (\<lambda>n. list_all (configLoads W n (getProperty (map_of ipfss) n)) (keeperFiles W ?cfgs ipfss n)) ?ns"
    by (simp add: configsLoad_def)
  from keeperLoop_matched[OF this, of ethers old S p] assms(3,4) dn obtain es where
    k: "forEach (processKeeper W ethers S ?cfgs ipfss) ?ns (old, p)
          = (es, Inr (filter (\<lambda>kv. fst kv \<notin> set (allNames W ethers ?cfgs ipfss ?ns)) old, p))"
    and l: "list_all isLog es" by auto
  have "filter (\<lambda>kv. fst kv \<notin> set (allNames W ethers ?cfgs ipfss ?ns)) old = []"
    using assms(4) dn by (auto simp: filter_empty_conv)
  with k have k': "forEach (processKeeper W ethers S ?cfgs ipfss) ?ns (old, p) = (es, Inr ([], p))"
    by simp
  have idx: "forEach (indexDomain S) domains ([], p)
               = ([GetActiveTasks ''mainnet'', GetActiveTasks ''gnosis''], Inr (old, p))"
    using assms(2) by (simp add: index_phase)
  have "reconcile W ethers S p = ([GetActiveTasks ''mainnet'', GetActiveTasks ''gnosis''] @ es, Inr p)"
    using I idx k'
    by (auto simp: reconcile_def ipfsDeploymentsOf_def Let_def andThen_def objectEntries_def
        split: option.splits)
  with l show ?thesis by blast
qed

text \<open>A run that completes has got past every config file it reached.\<close>

lemma processConfig_loads:
  assumes "processConfig W ethers S n v f st = (es, Inr st')"
  shows "configLoads W n v f"
proof (cases "loadConfig W n f")
  case None
  with processConfig_unloaded[OF None, of ethers S v st] assms show ?thesis by auto
next
  case (Some rc)
  obtain raw c where rc: "rc = (raw, c)" by (cases rc)
  note L = Some[unfolded rc]
  show ?thesis
  proof (cases "supported c \<and> stringOf v = None")
    case True
    with processConfig_nonstring[OF L, where v = v and ethers = ethers and S = S and st = st] assms
    show ?thesis by simp
  next
    case False
    with L show ?thesis by (auto simp: configLoads_def)
  qed
qed

lemma configLoop_loads:
  "forEach (processConfig W ethers S n v) fs st = (es, Inr st') \<Longrightarrow> list_all (configLoads W n v) fs"
proof (induction fs arbitrary: st es)
  case Nil
  then show ?case by simp
next
  case (Cons f fs)
  from Cons.prems obtain es1 st1 es2 where
    a: "processConfig W ethers S n v f st = (es1, Inr st1)" and
    b: "forEach (processConfig W ethers S n v) fs st1 = (es2, Inr st')"
    by (auto simp: andThen_Inr)
  from processConfig_loads[OF a] Cons.IH[OF b] show ?case by simp
qed

lemma keeperLoop_loads:
  "forEach (processKeeper W ethers S cfgs ipfss) ns st = (es, Inr st') \<Longrightarrow>
   list_all (\<lambda>n. list_all (configLoads W n (getProperty (map_of ipfss) n)) (keeperFiles W cfgs ipfss n)) ns"
proof (induction ns arbitrary: st es)
  case Nil
  then show ?case by simp
next
  case (Cons n ns)
  from Cons.prems obtain es1 st1 es2 where
    a: "processKeeper W ethers S cfgs ipfss n st = (es1, Inr st1)" and
    b: "forEach (processKeeper W ethers S cfgs ipfss) ns st1 = (es2, Inr st')"
    by (auto simp: andThen_Inr)
  from processKeeper_loop[OF a] obtain es3 where
    "forEach (processConfig W ethers S n (getProperty (map_of ipfss) n)) (keeperFiles W cfgs ipfss n) st
       = (es3, Inr st1)" by blast
  from configLoop_loads[OF this] Cons.IH[OF b] show ?case by simp
qed

lemma completed_run_loads:
  assumes "reconcile W ethers S p = (es, Inr p')"
  shows "configsLoad W"
proof -
  from reconcile_Inr[OF assms] obtain ipfss old es1 old1 p1 where
    I: "ipfsDeploymentsOf W = Some ipfss" and
    k: "forEach (processKeeper W ethers S (listDirectories W w3fConfigsPath) ipfss)
               (listDirectories W w3fImplementationsPath) (old, p) = (es1, Inr (old1, p1))"
    by blast
  from keeperLoop_loads[OF k] I show ?thesis by (simp add: configsLoad_def)
qed

text \<open>Every task a run creates carries the name derived for one of the configs.\<close>

lemma processConfig_create_name:
  assumes "processConfig W ethers S n v f st = (es, r)"
    and "CreateBatchExecTask d params \<in> set es"
  shows "task_name params \<in> set (derivedName W ethers n v f)"
proof (cases "loadConfig W n f")
  case None
  with processConfig_unloaded[OF None, of ethers S v st] assms show ?thesis by auto
next
  case (Some rc)
  obtain raw c where rc: "rc = (raw, c)" by (cases rc)
  note L = Some[unfolded rc]
  from L have R: "readFileSync W [w3fConfigsPath, n, f] = Some raw" and P: "parseConfig W raw = Some c"
    by (auto simp: loadConfig_def split: option.splits)
  show ?thesis
  proof (cases "supported c")
    case False
    with processConfig_unsupported[OF L False, of ethers S v st] assms show ?thesis by auto
  next
    case True
    then have sup: "domain c \<in> set domains" "ttype (trigger c) \<in> set triggerTypeNames"
      by (simp_all add: supported_def)
    show ?thesis
    proof (cases "stringOf v")
      case None
      from processConfig_nonstring[OF L True None, of ethers S st] assms show ?thesis by simp
    next
      case (Some a)
      then have v: "v = StringValue a" by (simp add: stringOf_Some)
      have dn: "derivedName W ethers n v f = [deploymentName ethers f raw a]"
        using L True v by (simp add: derivedName_def)
      from assms R P sup v have "task_name params = deploymentName ethers f raw a"
        by (auto simp: processConfig_def split: if_splits sum.splits dest!: createTask_events)
      with dn show ?thesis by simp
    qed
  qed
qed

lemma configLoop_create_names:
  "forEach (processConfig W ethers S n v) fs st = (es, r) \<Longrightarrow>
   CreateBatchExecTask d params \<in> set es \<Longrightarrow>
   task_name params \<in> set (derivedNames W ethers n v fs)"
proof (induction fs arbitrary: st es r)
  case Nil
  then show ?case by simp
next
  case (Cons f fs)
  obtain es1 r1 where a: "processConfig W ethers S n v f st = (es1, r1)"
    by (cases "processConfig W ethers S n v f st")
  show ?case
  proof (cases r1)
    case (Inl e)
    with a Cons.prems(1) have "es = es1" by (simp add: andThen_def)
    with processConfig_create_name[OF a] Cons.prems(2) show ?thesis
      by (simp add: derivedNames_def)
  next
    case (Inr st1)
    obtain es2 r2 where b: "forEach (processConfig W ethers S n v) fs st1 = (es2, r2)"
      by (cases "forEach (processConfig W ethers S n v) fs st1")
    with a Inr Cons.prems(1) have "es = es1 @ es2" by (simp add: andThen_def)
    with processConfig_create_name[OF a] Cons.IH[OF b] Cons.prems(2) show ?thesis
      by (auto simp: derivedNames_def)
  qed
qed

lemma processKeeper_create_names:
  assumes "processKeeper W ethers S cfgs ipfss n st = (es, r)"
    and "CreateBatchExecTask d params \<in> set es"
  shows "task_name params \<in> set (keeperNames W ethers cfgs ipfss n)"
proof (cases "keeperFiles W cfgs ipfss n = []")
  case True
  with assms show ?thesis by (auto simp: processKeeper_files split: if_splits)
next
  case False
  obtain es2 r2 where
    b: "forEach (processConfig W ethers S n (getProperty (map_of ipfss) n)) (keeperFiles W cfgs ipfss n) st
          = (es2, r2)"
    by (cases "forEach (processConfig W ethers S n (getProperty (map_of ipfss) n)) (keeperFiles W cfgs ipfss n) st")
  with False assms(1) have "es = Log (''Deploying '' @ n) # es2"
    by (simp add: processKeeper_files andThen_def)
  with assms(2) have "CreateBatchExecTask d params \<in> set es2" by simp
  from configLoop_create_names[OF b this] show ?thesis by (simp add: keeperNames_def)
qed

lemma keeperLoop_create_names:
  "forEach (processKeeper W ethers S cfgs ipfss) ns st = (es, r) \<Longrightarrow>
   CreateBatchExecTask d params \<in> set es \<Longrightarrow>
   task_name params \<in> set (allNames W ethers cfgs ipfss ns)"
proof (induction ns arbitrary: st es r)
  case Nil
  then show ?case by simp
next
  case (Cons n ns)
  obtain es1 r1 where a: "processKeeper W ethers S cfgs ipfss n st = (es1, r1)"
    by (cases "processKeeper W ethers S cfgs ipfss n st")
  show ?case
  proof (cases r1)
    case (Inl e)
    with a Cons.prems(1) have "es = es1" by (simp add: andThen_def)
    with processKeeper_create_names[OF a] Cons.prems(2) show ?thesis
      by (simp add: allNames_def)
  next
    case (Inr st1)
    obtain es2 r2 where b: "forEach (processKeeper W ethers S cfgs ipfss) ns st1 = (es2, r2)"
      by (cases "forEach (processKeeper W ethers S cfgs ipfss) ns st1")
    with a Inr Cons.prems(1) have "es = es1 @ es2" by (simp add: andThen_def)
    with processKeeper_create_names[OF a] Cons.IH[OF b] Cons.prems(2) show ?thesis
      by (auto simp: allNames_def)
  qed
qed

lemma cancelLoop_no_create:
  "forEach (cancelOld S) entries p = (es, r) \<Longrightarrow> CreateBatchExecTask d params \<notin> set es"
proof (induction entries arbitrary: p es r)
  case Nil
  then show ?case by simp
next
  case (Cons x xs)
  obtain es1 r1 where a: "cancelOld S x p = (es1, r1)" by (cases "cancelOld S x p")
  then have n1: "CreateBatchExecTask d params \<notin> set es1"
    by (auto simp: cancelOld_def split: prod.splits bool.splits)
  show ?case
  proof (cases r1)
    case (Inl e)
    with a Cons.prems have "es = es1" by (simp add: andThen_def)
    with n1 show ?thesis by simp
  next
    case (Inr p1)
    obtain es2 r2 where b: "forEach (cancelOld S) xs p1 = (es2, r2)"
      by (cases "forEach (cancelOld S) xs p1")
    with a Inr Cons.prems have "es = es1 @ es2" by (simp add: andThen_def)
    with n1 Cons.IH[OF b] show ?thesis by simp
  qed
qed

lemma run_create_names:
  assumes "reconcile W ethers S p = (es, Inr p')"
    and "CreateBatchExecTask d params \<in> set es"
  shows "task_name params \<in> set (desiredNames W ethers)"
proof -
  from reconcile_Inr[OF assms(1)] obtain ipfss old es1 old1 p1 es2 where
    I: "ipfsDeploymentsOf W = Some ipfss" and
    k: "forEach (processKeeper W ethers S (listDirectories W w3fConfigsPath) ipfss)
               (listDirectories W w3fImplementationsPath) (old, p) = (es1, Inr (old1, p1))" and
    c: "forEach (cancelOld S) (objectEntries old1) p1 = (es2, Inr p')" and
    es: "es = [GetActiveTasks ''mainnet'', GetActiveTasks ''gnosis''] @ es1 @ es2"
    by blast
  from assms(2) es cancelLoop_no_create[OF c] have "CreateBatchExecTask d params \<in> set es1" by auto
  from keeperLoop_create_names[OF k this] I show ?thesis by (simp add: desiredNames_def)
qed

text \<open>What the loops reach and derive does not depend on the environment.\<close>

lemma loadConfig_env: "loadConfig (W\<lparr>processEnv := env\<rparr>) = loadConfig W"
  by (simp add: fun_eq_iff loadConfig_def cong: option.case_cong)

lemma ipfsDeploymentsOf_env: "ipfsDeploymentsOf (W\<lparr>processEnv := env\<rparr>) = ipfsDeploymentsOf W"
  by (simp add: ipfsDeploymentsOf_def cong: option.case_cong)

lemma keeperFiles_env: "keeperFiles (W\<lparr>processEnv := env\<rparr>) = keeperFiles W"
  by (simp add: fun_eq_iff keeperFiles_def)

lemma derivedName_env: "derivedName (W\<lparr>processEnv := env\<rparr>) = derivedName W"
  by (simp add: fun_eq_iff derivedName_def loadConfig_env)

lemma keeperNames_env: "keeperNames (W\<lparr>processEnv := env\<rparr>) = keeperNames W"
  by (simp add: fun_eq_iff keeperNames_def derivedNames_def keeperFiles_env derivedName_env)

lemma configLoads_env: "configLoads (W\<lparr>processEnv := env\<rparr>) = configLoads W"
  by (simp add: fun_eq_iff configLoads_def loadConfig_env)

lemma desiredNames_env: "desiredNames (W\<lparr>processEnv := env\<rparr>) ethers = desiredNames W ethers"
  by (simp add: desiredNames_def ipfsDeploymentsOf_env allNames_def keeperNames_env
      cong: option.case_cong)

lemma configsLoad_env: "configsLoad (W\<lparr>processEnv := env\<rparr>) = configsLoad W"
  by (simp add: configsLoad_def configLoads_env ipfsDeploymentsOf_env keeperFiles_env
      cong: option.case_cong)

lemmas example_defs = exampleWorld_def exampleSdk_def exampleEthers_def exampleConfigs_def
  rawMainnet_def rawMainnat_def rawGnosis_def configMainnet_def configMainnat_def configGnosis_def
  rawThreshold5_def rawThreshold6_def configThreshold5_def configThreshold6_def blockTrigger_def

lemmas path_defs = w3fImplementationsPath_def w3fConfigsPath_def w3fIpfsDeploymentsPath_def abisPath_def

lemmas run_defs = processConfig_def createTask_def createTriggerConfig_def deploymentName_def
  createHash_def getBufferFromString_def slice_to_neg_def domains_def triggerTypeNames_def andThen_def
  getProperty_def objectPrototypeMembers_def assignProperty_def

section \<open>Properties of deploy.ts\<close>

lemma set_domains: "set domains = {''mainnet'', ''gnosis''}"
  by (auto simp: domains_def)

text \<open>
  C6. When the loop reaches a config whose \<open>domain\<close> is neither \<open>mainnet\<close> nor \<open>gnosis\<close>, the
  only thing it does for that config is to log the diagnostic: no SDK call is made and the
  working set and the platform are unchanged. The loop then goes on with the remaining
  config files from the same state.
\<close>

theorem unsupported_domain_skipped:
  assumes "readFileSync W [w3fConfigsPath, w3fName, configFileName] = Some rawConfig"
    and "parseConfig W rawConfig = Some config"
    and "domain config \<notin> {''mainnet'', ''gnosis''}"
  shows "processConfig W ethers S w3fName ipfsDeployment configFileName st
           = ([Log (''Domain '' @ domain config @ '' is not supported'')], Inr st)
       \<and> forEach (processConfig W ethers S w3fName ipfsDeployment) (configFileName # rest) st
           = (case forEach (processConfig W ethers S w3fName ipfsDeployment) rest st of
                (es, r) \<Rightarrow> (Log (''Domain '' @ domain config @ '' is not supported'') # es, r))"
  using assms by (simp add: processConfig_def domains_def andThen_def)

theorem unsupported_domain_skipped_witness:
  "readFileSync (exampleWorld [(''keeper'', ''QmA'', [(''a.json'', rawMainnat), (''b.json'', rawGnosis)])] exampleConfigs [])
      [w3fConfigsPath, ''keeper'', ''a.json''] = Some rawMainnat
   \<and> parseConfig (exampleWorld [(''keeper'', ''QmA'', [(''a.json'', rawMainnat), (''b.json'', rawGnosis)])] exampleConfigs [])
      rawMainnat = Some configMainnat
   \<and> domain configMainnat = ''mainnat''
   \<and> forEach (processConfig
         (exampleWorld [(''keeper'', ''QmA'', [(''a.json'', rawMainnat), (''b.json'', rawGnosis)])] exampleConfigs [])
         exampleEthers exampleSdk ''keeper'' (StringValue ''QmA'')) [''a.json'', ''b.json''] ([], ([], [], []))
     = ([Log ''Domain mainnat is not supported'',
         Log (''Deploying '' @ deploymentName exampleEthers ''b.json'' rawGnosis ''QmA''),
         Pause,
         CreateBatchExecTask ''gnosis''
           \<lparr> task_name = deploymentName exampleEthers ''b.json'' rawGnosis ''QmA'',
             web3FunctionHash = ''QmA'', web3FunctionArgs = [], task_trigger = TriggerBLOCK \<rparr>,
         SecretsSet ''gnosis'' [] ''id''],
        Inr ([], (''*'', [],
                  [\<lparr> name = deploymentName exampleEthers ''b.json'' rawGnosis ''QmA'', taskId = ''id'' \<rparr>])))"
  using unsupported_domain_skipped[where
      W = "exampleWorld [(''keeper'', ''QmA'', [(''a.json'', rawMainnat), (''b.json'', rawGnosis)])] exampleConfigs []"
      and ?w3fName = "''keeper''" and configFileName = "''a.json''" and rawConfig = rawMainnat
      and config = configMainnat and ethers = exampleEthers and S = exampleSdk
      and ipfsDeployment = "StringValue ''QmA''" and rest = "[''b.json'']" and st = "([], ([], [], []))"]
  by (simp add: example_defs path_defs run_defs)

lemma deploymentName_not_proto: "deploymentName ethers f raw ipfs \<noteq> ''__proto__''"
proof
  assume "deploymentName ethers f raw ipfs = ''__proto__''"
  then have "CHR '' '' \<in> set ''__proto__''"
    by (metis deploymentName_def in_set_conv_decomp append_Cons append_Nil)
  then show False by simp
qed

lemma desiredNames_not_proto: "''__proto__'' \<notin> set (desiredNames W ethers)"
  by (auto simp: desiredNames_def allNames_def keeperNames_def derivedNames_def derivedName_def
      deploymentName_not_proto[symmetric] split: option.splits if_splits)

lemma activeIndex_keys:
  assumes "getActiveTasks S ''mainnet'' p = Some mainnetTasks"
    and "getActiveTasks S ''gnosis'' p = Some gnosisTasks"
  shows "\<exists>old. activeIndex S p = Some old
           \<and> fst ` set old = name ` set (mainnetTasks @ gnosisTasks) - {''__proto__''}"
  using assms by (auto simp: activeIndex_def keys_indexTasks)

lemma rerun_matches:
  assumes "configsLoad W"
    and "getActiveTasks S ''mainnet'' p = Some mainnetTasks"
    and "getActiveTasks S ''gnosis'' p = Some gnosisTasks"
    and "distinct (desiredNames W ethers)"
    and "set (map name (mainnetTasks @ gnosisTasks)) = set (desiredNames W ethers)"
  shows "\<exists>es. reconcile W ethers S p = (es, Inr p)
             \<and> filter isCreate es = [] \<and> filter isSecretsSet es = [] \<and> filter isCancel es = []"
proof -
  from activeIndex_keys[OF assms(2,3)] obtain old where
    a: "activeIndex S p = Some old"
    and k: "fst ` set old = name ` set (mainnetTasks @ gnosisTasks) - {''__proto__''}" by blast
  from k assms(5) desiredNames_not_proto[of W ethers]
  have "set (desiredNames W ethers) = fst ` set old" by auto
  from matched_run[OF assms(1) a assms(4) this] obtain es where
    r: "reconcile W ethers S p = ([GetActiveTasks ''mainnet'', GetActiveTasks ''gnosis''] @ es, Inr p)"
    and l: "list_all isLog es" by blast
  have "\<not> isCreate e \<and> \<not> isSecretsSet e \<and> \<not> isCancel e" if "isLog e" for e
    using that by (cases e) simp_all
  with l have "filter isCreate es = [] \<and> filter isSecretsSet es = [] \<and> filter isCancel es = []"
    by (auto simp: filter_empty_conv list_all_iff)
  with r show ?thesis by simp
qed

lemmas reconcile_defs = reconcile_def processKeeper_def indexDomain_def indexTasks_def
  cancelOld_def objectEntries_def isArrayIndex_def isDigit_def

lemmas notion_defs = configsLoad_def configLoads_def desiredNames_def ipfsDeploymentsOf_def allNames_def
  keeperNames_def keeperFiles_def derivedNames_def derivedName_def loadConfig_def supported_def

text \<open>
  C1, as amended. Suppose a run over the config files and content addresses has completed,
  the deployment names derived for the configs that pass the two membership checks are
  pairwise distinct, and the names of the active tasks of the two networks are exactly
  these names. Then a run over the same files completes, leaves the platform as it found
  it, and issues no create-task, no secrets and no cancel-task call. Without the
  distinctness the statement fails, as the example after the witness shows.
\<close>

theorem rerun_issues_no_transactions:
  assumes "reconcile W ethers S0 p0 = (es0, Inr p1)"
    and "getActiveTasks S ''mainnet'' p = Some mainnetTasks"
    and "getActiveTasks S ''gnosis'' p = Some gnosisTasks"
    and "distinct (desiredNames W ethers)"
    and "set (map name (mainnetTasks @ gnosisTasks)) = set (desiredNames W ethers)"
  shows "\<exists>es. reconcile W ethers S p = (es, Inr p)
             \<and> filter isCreate es = [] \<and> filter isSecretsSet es = [] \<and> filter isCancel es = []"
proof -
  from completed_run_loads[OF assms(1)] have loads: "configsLoad W" .
  from rerun_matches[OF loads assms(2,3,4,5)] show ?thesis .
qed

theorem rerun_issues_no_transactions_witness:
  "snd (reconcile
     (exampleWorld [(''keeper'', ''QmA'', [(''a.json'', rawMainnet), (''b.json'', rawGnosis)])] exampleConfigs
        [(''VAR'', ''value'')])
     exampleEthers exampleSdk ([], [], []))
   = Inr (''**'', [\<lparr> name = deploymentName exampleEthers ''a.json'' rawMainnet ''QmA'', taskId = ''id'' \<rparr>],
             [\<lparr> name = deploymentName exampleEthers ''b.json'' rawGnosis ''QmA'', taskId = ''id*'' \<rparr>])
   \<and> reconcile
     (exampleWorld [(''keeper'', ''QmA'', [(''a.json'', rawMainnet), (''b.json'', rawGnosis)])] exampleConfigs
        [(''VAR'', ''value'')])
     exampleEthers exampleSdk
     (''**'', [\<lparr> name = deploymentName exampleEthers ''a.json'' rawMainnet ''QmA'', taskId = ''id'' \<rparr>],
             [\<lparr> name = deploymentName exampleEthers ''b.json'' rawGnosis ''QmA'', taskId = ''id*'' \<rparr>])
   = ([GetActiveTasks ''mainnet'', GetActiveTasks ''gnosis'', Log ''Deploying keeper'',
       Log (''Task '' @ deploymentName exampleEthers ''a.json'' rawMainnet ''QmA'' @ '' is already active''),
       Log (''Task '' @ deploymentName exampleEthers ''b.json'' rawGnosis ''QmA'' @ '' is already active'')],
      Inr (''**'', [\<lparr> name = deploymentName exampleEthers ''a.json'' rawMainnet ''QmA'', taskId = ''id'' \<rparr>],
             [\<lparr> name = deploymentName exampleEthers ''b.json'' rawGnosis ''QmA'', taskId = ''id*'' \<rparr>]))"
  using rerun_issues_no_transactions[where
      W = "exampleWorld [(''keeper'', ''QmA'', [(''a.json'', rawMainnet), (''b.json'', rawGnosis)])] exampleConfigs
             [(''VAR'', ''value'')]"
      and ethers = exampleEthers and S = exampleSdk and ?S0.0 = exampleSdk and ?p0.0 = "([], [], [])"
      and ?p1.0 = "(''**'', [\<lparr> name = deploymentName exampleEthers ''a.json'' rawMainnet ''QmA'', taskId = ''id'' \<rparr>],
             [\<lparr> name = deploymentName exampleEthers ''b.json'' rawGnosis ''QmA'', taskId = ''id*'' \<rparr>])"
      and p = "(''**'', [\<lparr> name = deploymentName exampleEthers ''a.json'' rawMainnet ''QmA'', taskId = ''id'' \<rparr>],
             [\<lparr> name = deploymentName exampleEthers ''b.json'' rawGnosis ''QmA'', taskId = ''id*'' \<rparr>])"
      and mainnetTasks = "[\<lparr> name = deploymentName exampleEthers ''a.json'' rawMainnet ''QmA'', taskId = ''id'' \<rparr>]"
      and gnosisTasks = "[\<lparr> name = deploymentName exampleEthers ''b.json'' rawGnosis ''QmA'', taskId = ''id*'' \<rparr>]"
      and ?es0.0 = "fst (reconcile
     (exampleWorld [(''keeper'', ''QmA'', [(''a.json'', rawMainnet), (''b.json'', rawGnosis)])] exampleConfigs
        [(''VAR'', ''value'')])
     exampleEthers exampleSdk ([], [], []))"]
  by (simp add: example_defs path_defs run_defs reconcile_defs notion_defs prod_eq_iff)

text \<open>
  The claim as stated fails when two configs derive the same name. Keepers \<open>alpha\<close> and
  \<open>beta\<close> share a content address and hold the same \<open>main.json\<close>. The first run, from an
  empty platform, creates one task per config, both with the same name; the active tasks
  then carry exactly the derived names. The second run indexes the two tasks under one key,
  matches and removes it for \<open>alpha\<close>, and creates a third task for \<open>beta\<close>.
\<close>

theorem rerun_counterexample:
  "snd (reconcile
     (exampleWorld [(''alpha'', ''QmA'', [(''main.json'', rawGnosis)]),
                    (''beta'', ''QmA'', [(''main.json'', rawGnosis)])] exampleConfigs [])
     exampleEthers exampleSdk ([], [], []))
   = Inr (''**'', [],
          [\<lparr> name = deploymentName exampleEthers ''main.json'' rawGnosis ''QmA'', taskId = ''id'' \<rparr>,
           \<lparr> name = deploymentName exampleEthers ''main.json'' rawGnosis ''QmA'', taskId = ''id*'' \<rparr>])
   \<and> set (map name
          [\<lparr> name = deploymentName exampleEthers ''main.json'' rawGnosis ''QmA'', taskId = ''id'' \<rparr>,
           \<lparr> name = deploymentName exampleEthers ''main.json'' rawGnosis ''QmA'', taskId = ''id*'' \<rparr>])
     = set (desiredNames
          (exampleWorld [(''alpha'', ''QmA'', [(''main.json'', rawGnosis)]),
                         (''beta'', ''QmA'', [(''main.json'', rawGnosis)])] exampleConfigs [])
          exampleEthers)
   \<and> filter isCreate (fst (reconcile
     (exampleWorld [(''alpha'', ''QmA'', [(''main.json'', rawGnosis)]),
                    (''beta'', ''QmA'', [(''main.json'', rawGnosis)])] exampleConfigs [])
     exampleEthers exampleSdk
     (''**'', [],
          [\<lparr> name = deploymentName exampleEthers ''main.json'' rawGnosis ''QmA'', taskId = ''id'' \<rparr>,
           \<lparr> name = deploymentName exampleEthers ''main.json'' rawGnosis ''QmA'', taskId = ''id*'' \<rparr>])))
   = [CreateBatchExecTask ''gnosis''
        \<lparr> task_name = deploymentName exampleEthers ''main.json'' rawGnosis ''QmA'',
          web3FunctionHash = ''QmA'', web3FunctionArgs = [], task_trigger = TriggerBLOCK \<rparr>]"
  by (simp add: example_defs path_defs run_defs reconcile_defs notion_defs)

text \<open>
  C8, as amended. A config that passes the two membership checks and whose derived name is
  a key of the working set when the loop reaches it only logs and has its entry removed:
  the result mentions neither the environment nor the ABI files nor the SDK, so no secret
  is resolved, no trigger translated and no call made. Suppose further that a run over the
  config files has completed, that the derived names are pairwise distinct and are exactly
  the names of the active tasks. Then the script, started over the same files in any
  environment from which the private key resolves, completes and leaves the platform as it
  found it: no secret variable needs to be set.
\<close>

theorem matched_config_needs_no_secrets:
  "(loadConfig W w3fName configFileName = Some (rawConfig, config) \<and> supported config
      \<and> deploymentName ethers configFileName rawConfig ipfsDeployment \<in> fst ` set old
    \<longrightarrow> processConfig W ethers S w3fName (StringValue ipfsDeployment) configFileName (old, p)
          = ([Log (''Task '' @ deploymentName ethers configFileName rawConfig ipfsDeployment
                   @ '' is already active'')],
             Inr (AList.delete (deploymentName ethers configFileName rawConfig ipfsDeployment) old, p)))
   \<and> (reconcile W ethers S0 p0 = (es0, Inr p1)
      \<and> getActiveTasks S ''mainnet'' p = Some mainnetTasks
      \<and> getActiveTasks S ''gnosis'' p = Some gnosisTasks
      \<and> distinct (desiredNames W ethers)
      \<and> set (map name (mainnetTasks @ gnosisTasks)) = set (desiredNames W ethers)
      \<and> deployerPrivateKey (W\<lparr>processEnv := env\<rparr>) ethers = Inr key \<and> newWallet ethers key
    \<longrightarrow> snd (script (W\<lparr>processEnv := env\<rparr>) ethers S p) = Inr p)"
proof (intro conjI impI)
  assume "loadConfig W w3fName configFileName = Some (rawConfig, config) \<and> supported config
      \<and> deploymentName ethers configFileName rawConfig ipfsDeployment \<in> fst ` set old"
  then show "processConfig W ethers S w3fName (StringValue ipfsDeployment) configFileName (old, p)
          = ([Log (''Task '' @ deploymentName ethers configFileName rawConfig ipfsDeployment
                   @ '' is already active'')],
             Inr (AList.delete (deploymentName ethers configFileName rawConfig ipfsDeployment) old, p))"
    by (simp add: processConfig_matched)
next
  assume h: "reconcile W ethers S0 p0 = (es0, Inr p1)
      \<and> getActiveTasks S ''mainnet'' p = Some mainnetTasks
      \<and> getActiveTasks S ''gnosis'' p = Some gnosisTasks
      \<and> distinct (desiredNames W ethers)
      \<and> set (map name (mainnetTasks @ gnosisTasks)) = set (desiredNames W ethers)
      \<and> deployerPrivateKey (W\<lparr>processEnv := env\<rparr>) ethers = Inr key \<and> newWallet ethers key"
  let ?W = "W\<lparr>processEnv := env\<rparr>"
  from h have r: "reconcile W ethers S0 p0 = (es0, Inr p1)"
    and m: "getActiveTasks S ''mainnet'' p = Some mainnetTasks"
    and g: "getActiveTasks S ''gnosis'' p = Some gnosisTasks"
    and d: "distinct (desiredNames ?W ethers)"
    and e: "set (map name (mainnetTasks @ gnosisTasks)) = set (desiredNames ?W ethers)"
    and k: "deployerPrivateKey ?W ethers = Inr key" and w: "newWallet ethers key"
    by (simp_all add: desiredNames_env)
  from completed_run_loads[OF r] have c: "configsLoad ?W" by (simp add: configsLoad_env)
  from rerun_matches[OF c m g d e] obtain es where "reconcile ?W ethers S p = (es, Inr p)" by blast
  with k w show "snd (script ?W ethers S p) = Inr p" by (simp add: script_def)
qed

theorem matched_config_needs_no_secrets_witness:
  "processConfig
      (exampleWorld [(''keeper'', ''QmA'', [(''a.json'', rawMainnet)])] exampleConfigs [(''VAR'', ''value'')])
      exampleEthers exampleSdk ''keeper'' (StringValue ''QmA'') ''a.json''
      ([(deploymentName exampleEthers ''a.json'' rawMainnet ''QmA'', (''id'', ''mainnet''))],
       (''*'', [\<lparr> name = deploymentName exampleEthers ''a.json'' rawMainnet ''QmA'', taskId = ''id'' \<rparr>], []))
    = ([Log (''Task '' @ deploymentName exampleEthers ''a.json'' rawMainnet ''QmA'' @ '' is already active'')],
       Inr ([], (''*'', [\<lparr> name = deploymentName exampleEthers ''a.json'' rawMainnet ''QmA'', taskId = ''id'' \<rparr>], [])))
   \<and> snd (reconcile
      (exampleWorld [(''keeper'', ''QmA'', [(''a.json'', rawMainnet)])] exampleConfigs [(''VAR'', ''value'')])
      exampleEthers exampleSdk ([], [], []))
    = Inr (''*'', [\<lparr> name = deploymentName exampleEthers ''a.json'' rawMainnet ''QmA'', taskId = ''id'' \<rparr>], [])
   \<and> secrets configMainnet = [(''KEY'', ''VAR'')]
   \<and> map_of [(''GELATO_PRIVATE_KEY'', ''0xkey'')] ''VAR'' = None
   \<and> snd (script
      ((exampleWorld [(''keeper'', ''QmA'', [(''a.json'', rawMainnet)])] exampleConfigs [(''VAR'', ''value'')])
         \<lparr>processEnv := map_of [(''GELATO_PRIVATE_KEY'', ''0xkey'')]\<rparr>)
      exampleEthers exampleSdk
      (''*'', [\<lparr> name = deploymentName exampleEthers ''a.json'' rawMainnet ''QmA'', taskId = ''id'' \<rparr>], []))
    = Inr (''*'', [\<lparr> name = deploymentName exampleEthers ''a.json'' rawMainnet ''QmA'', taskId = ''id'' \<rparr>], [])"
  using matched_config_needs_no_secrets[where
      W = "exampleWorld [(''keeper'', ''QmA'', [(''a.json'', rawMainnet)])] exampleConfigs [(''VAR'', ''value'')]"
      and ethers = exampleEthers and S = exampleSdk and ?w3fName = "''keeper''"
      and configFileName = "''a.json''" and rawConfig = rawMainnet and config = configMainnet
      and ipfsDeployment = "''QmA''"
      and old = "[(deploymentName exampleEthers ''a.json'' rawMainnet ''QmA'', (''id'', ''mainnet''))]"
      and p = "(''*'', [\<lparr> name = deploymentName exampleEthers ''a.json'' rawMainnet ''QmA'', taskId = ''id'' \<rparr>], [])"
      and mainnetTasks = "[\<lparr> name = deploymentName exampleEthers ''a.json'' rawMainnet ''QmA'', taskId = ''id'' \<rparr>]"
      and gnosisTasks = "[]"
      and ?S0.0 = exampleSdk and ?p0.0 = "([], [], [])"
      and ?p1.0 = "(''*'', [\<lparr> name = deploymentName exampleEthers ''a.json'' rawMainnet ''QmA'', taskId = ''id'' \<rparr>], [])"
      and ?es0.0 = "fst (reconcile
          (exampleWorld [(''keeper'', ''QmA'', [(''a.json'', rawMainnet)])] exampleConfigs [(''VAR'', ''value'')])
          exampleEthers exampleSdk ([], [], []))"
      and env = "map_of [(''GELATO_PRIVATE_KEY'', ''0xkey'')]" and key = "''0xkey''"]
  by (simp add: example_defs path_defs run_defs reconcile_defs notion_defs prod_eq_iff
      deployerPrivateKey_def script_def)

text \<open>
  The claim as stated speaks of the initial working set, and fails for the second of two
  configs that derive the same name: the entry it matches in the initial set was removed
  for the first. Here \<open>beta\<close>'s config derives the name of the one active task, and the run
  still throws for its unset secret variable.
\<close>

theorem matched_config_counterexample:
  "activeIndex exampleSdk
     (''*'', [\<lparr> name = deploymentName exampleEthers ''main.json'' rawMainnet ''QmA'', taskId = ''id'' \<rparr>], [])
   = Some [(deploymentName exampleEthers ''main.json'' rawMainnet ''QmA'', (''id'', ''mainnet''))]
   \<and> derivedName
        (exampleWorld [(''alpha'', ''QmA'', [(''main.json'', rawMainnet)]),
                       (''beta'', ''QmA'', [(''main.json'', rawMainnet)])] exampleConfigs [])
        exampleEthers ''beta'' (StringValue ''QmA'') ''main.json''
      = [deploymentName exampleEthers ''main.json'' rawMainnet ''QmA'']
   \<and> reconcile
        (exampleWorld [(''alpha'', ''QmA'', [(''main.json'', rawMainnet)]),
                       (''beta'', ''QmA'', [(''main.json'', rawMainnet)])] exampleConfigs [])
        exampleEthers exampleSdk
        (''*'', [\<lparr> name = deploymentName exampleEthers ''main.json'' rawMainnet ''QmA'', taskId = ''id'' \<rparr>], [])
      = ([GetActiveTasks ''mainnet'', GetActiveTasks ''gnosis'', Log ''Deploying alpha'',
          Log (''Task '' @ deploymentName exampleEthers ''main.json'' rawMainnet ''QmA'' @ '' is already active''),
          Log ''Deploying beta''],
         Inl (Error ''VAR env variable is not defined''))"
  by (simp add: example_defs path_defs run_defs reconcile_defs notion_defs activeIndex_def)

lemma resolveSecrets_unset:
  "(k, v) \<in> set xs \<Longrightarrow> \<not> truthyValue (getProperty env v) \<Longrightarrow>
   \<exists>k' v'. (k', v') \<in> set xs \<and> \<not> truthyValue (getProperty env v')
          \<and> resolveSecrets env xs acc = Inl (Error (v' @ '' env variable is not defined''))"
proof (induction xs arbitrary: acc)
  case Nil
  then show ?case by simp
next
  case (Cons x xs)
  obtain k0 v0 where x: "x = (k0, v0)" by (cases x)
  show ?case
  proof (cases "truthyValue (getProperty env v0)")
    case False
    with x show ?thesis by auto
  next
    case True
    with Cons.prems x have "(k, v) \<in> set xs" by auto
    from Cons.IH[OF this Cons.prems(2), of "assignProperty k0 (getProperty env v0) acc"] True x
    show ?thesis by auto
  qed
qed

lemma forEach_skip:
  "body x s = ([ev], Inr s) \<Longrightarrow>
   forEach body (x # xs) s = (case forEach body xs s of (es, r) \<Rightarrow> (ev # es, r))"
  by (simp add: andThen_def)

lemma forEach_throw:
  "body x s = (es, Inl e) \<Longrightarrow> forEach body (x # xs) s = (es, Inl e)"
  by (simp add: andThen_def)

lemma processConfig_skip:
  assumes "loadConfig W n f = Some (raw, c)" and "\<not> supported c"
  shows "processConfig W ethers S n v f st
           = ([Log (if domain c \<notin> set domains
                    then ''Domain '' @ domain c @ '' is not supported''
                    else ''Trigger type '' @ ttype (trigger c) @ '' is not supported'')], Inr st)"
proof -
  from assms(1) have L: "readFileSync W [w3fConfigsPath, n, f] = Some raw"
    and P: "parseConfig W raw = Some c"
    by (auto simp: loadConfig_def split: option.splits)
  from assms(2) have "domain c \<notin> set domains \<or> ttype (trigger c) \<notin> set triggerTypeNames"
    by (simp add: supported_def)
  with L P show ?thesis by (simp add: processConfig_def)
qed

lemma processConfig_throw:
  assumes "loadConfig W n f = Some (raw, c)" and "supported c"
    and "deploymentName ethers f raw a \<notin> fst ` set (fst st)"
    and "createTriggerConfig W ethers (trigger c) = Inl e
         \<or> (\<exists>k v. (k, v) \<in> set (secrets c) \<and> \<not> truthyValue (getProperty (processEnv W) v))"
  shows "\<exists>e'. processConfig W ethers S n (StringValue a) f st = ([], Inl e')
             \<and> (createTriggerConfig W ethers (trigger c) = Inl e'
                 \<or> (\<exists>k v. (k, v) \<in> set (secrets c) \<and> \<not> truthyValue (getProperty (processEnv W) v)
                        \<and> e' = Error (v @ '' env variable is not defined'')))"
proof -
  from assms(1) have L: "readFileSync W [w3fConfigsPath, n, f] = Some raw"
    and P: "parseConfig W raw = Some c"
    by (auto simp: loadConfig_def split: option.splits)
  from assms(2) have sup: "domain c \<in> set domains" "ttype (trigger c) \<in> set triggerTypeNames"
    by (simp_all add: supported_def)
  from assms(3) have nm: "map_of (fst st) (deploymentName ethers f raw a) = None"
    by (simp add: map_of_eq_None_iff)
  show ?thesis
  proof (cases "createTriggerConfig W ethers (trigger c)")
    case (Inl e1)
    with L P sup nm have "processConfig W ethers S n (StringValue a) f st = ([], Inl e1)"
      by (simp add: processConfig_def)
    with Inl show ?thesis by simp
  next
    case (Inr tc)
    with assms(4) obtain k v where kv: "(k, v) \<in> set (secrets c)"
      "\<not> truthyValue (getProperty (processEnv W) v)"
      by auto
    from resolveSecrets_unset[where env = "processEnv W" and acc = "[]", OF kv] obtain k' v' where
      s: "(k', v') \<in> set (secrets c)" "\<not> truthyValue (getProperty (processEnv W) v')"
      "resolveSecrets (processEnv W) (secrets c) [] = Inl (Error (v' @ '' env variable is not defined''))"
      by blast
    with L P sup nm Inr
    have "processConfig W ethers S n (StringValue a) f st
            = ([], Inl (Error (v' @ '' env variable is not defined'')))"
      by (simp add: processConfig_def)
    with s(1,2) show ?thesis by auto
  qed
qed

text \<open>
  C3, as amended. A config with an unsupported domain or an unsupported trigger type is
  reported by one log line and skipped, and the loop goes on with the remaining config
  files from the same state. A config that reaches the create branch and whose trigger
  translation fails (a missing ABI file, an event absent from the ABI) or one of whose
  secret variables reads as undefined or empty from the environment is not skipped: the
  error is thrown out of the loop over the config files, with no event issued for the
  config and no later config file processed. The error is the one of the trigger
  translation, or else names the first such variable.
\<close>

theorem config_error_handling:
  "(loadConfig W w3fName configFileName = Some (rawConfig, config) \<and> \<not> supported config
    \<longrightarrow> (\<exists>m. processConfig W ethers S w3fName ipfsValue configFileName st = ([Log m], Inr st)
           \<and> m = (if domain config \<notin> set domains
                  then ''Domain '' @ domain config @ '' is not supported''
                  else ''Trigger type '' @ ttype (trigger config) @ '' is not supported'')
           \<and> forEach (processConfig W ethers S w3fName ipfsValue) (configFileName # rest) st
               = (case forEach (processConfig W ethers S w3fName ipfsValue) rest st of
                    (es, r) \<Rightarrow> (Log m # es, r))))
   \<and> (loadConfig W w3fName configFileName = Some (rawConfig, config) \<and> supported config
      \<and> deploymentName ethers configFileName rawConfig ipfsDeployment \<notin> fst ` set (fst st)
      \<and> (createTriggerConfig W ethers (trigger config) = Inl e
          \<or> (\<exists>k v. (k, v) \<in> set (secrets config) \<and> \<not> truthyValue (getProperty (processEnv W) v)))
    \<longrightarrow> (\<exists>e'. forEach (processConfig W ethers S w3fName (StringValue ipfsDeployment)) (configFileName # rest) st
                 = ([], Inl e')
             \<and> (createTriggerConfig W ethers (trigger config) = Inl e'
                 \<or> (\<exists>k v. (k, v) \<in> set (secrets config) \<and> \<not> truthyValue (getProperty (processEnv W) v)
                        \<and> e' = Error (v @ '' env variable is not defined'')))))"
proof (intro conjI impI)
  assume h: "loadConfig W w3fName configFileName = Some (rawConfig, config) \<and> \<not> supported config"
  then have a: "processConfig W ethers S w3fName ipfsValue configFileName st
           = ([Log (if domain config \<notin> set domains
                    then ''Domain '' @ domain config @ '' is not supported''
                    else ''Trigger type '' @ ttype (trigger config) @ '' is not supported'')], Inr st)"
    by (intro processConfig_skip) simp_all
  from a forEach_skip[where body = "processConfig W ethers S w3fName ipfsValue"
      and x = configFileName and s = st and xs = rest, OF a]
  show "\<exists>m. processConfig W ethers S w3fName ipfsValue configFileName st = ([Log m], Inr st)
           \<and> m = (if domain config \<notin> set domains
                  then ''Domain '' @ domain config @ '' is not supported''
                  else ''Trigger type '' @ ttype (trigger config) @ '' is not supported'')
           \<and> forEach (processConfig W ethers S w3fName ipfsValue) (configFileName # rest) st
               = (case forEach (processConfig W ethers S w3fName ipfsValue) rest st of
                    (es, r) \<Rightarrow> (Log m # es, r))"
    by (intro exI conjI) (assumption | rule refl)+
next
  assume h: "loadConfig W w3fName configFileName = Some (rawConfig, config) \<and> supported config
      \<and> deploymentName ethers configFileName rawConfig ipfsDeployment \<notin> fst ` set (fst st)
      \<and> (createTriggerConfig W ethers (trigger config) = Inl e
          \<or> (\<exists>k v. (k, v) \<in> set (secrets config) \<and> \<not> truthyValue (getProperty (processEnv W) v)))"
  then have h1: "loadConfig W w3fName configFileName = Some (rawConfig, config)"
    and h2: "supported config"
    and h3: "deploymentName ethers configFileName rawConfig ipfsDeployment \<notin> fst ` set (fst st)"
    and h4: "createTriggerConfig W ethers (trigger config) = Inl e
          \<or> (\<exists>k v. (k, v) \<in> set (secrets config) \<and> \<not> truthyValue (getProperty (processEnv W) v))"
    by simp_all
  from processConfig_throw[OF h1 h2 h3 h4, of S] obtain e' where
    t: "processConfig W ethers S w3fName (StringValue ipfsDeployment) configFileName st = ([], Inl e')"
    and w: "createTriggerConfig W ethers (trigger config) = Inl e'
                 \<or> (\<exists>k v. (k, v) \<in> set (secrets config) \<and> \<not> truthyValue (getProperty (processEnv W) v)
                        \<and> e' = Error (v @ '' env variable is not defined''))"
    by (elim exE conjE)
  from forEach_throw[where body = "processConfig W ethers S w3fName (StringValue ipfsDeployment)"
      and x = configFileName and s = st and xs = rest, OF t] w
  show "\<exists>e'. forEach (processConfig W ethers S w3fName (StringValue ipfsDeployment)) (configFileName # rest) st
                 = ([], Inl e')
             \<and> (createTriggerConfig W ethers (trigger config) = Inl e'
                 \<or> (\<exists>k v. (k, v) \<in> set (secrets config) \<and> \<not> truthyValue (getProperty (processEnv W) v)
                        \<and> e' = Error (v @ '' env variable is not defined'')))"
    by (intro exI[of _ e'] conjI)
qed

theorem config_error_handling_witness:
  "forEach (processConfig
      (exampleWorld [(''keeper'', ''QmA'', [(''a.json'', rawMainnat), (''b.json'', rawMainnet),
                                            (''c.json'', rawGnosis)])] exampleConfigs [])
      exampleEthers exampleSdk ''keeper'' (StringValue ''QmA'')) [''a.json'', ''b.json'', ''c.json''] ([], ([], [], []))
   = ([Log ''Domain mainnat is not supported''], Inl (Error ''VAR env variable is not defined''))
   \<and> forEach (processConfig
      (exampleWorld [(''keeper'', ''QmA'', [(''a.json'', rawMainnat), (''b.json'', rawMainnet),
                                            (''c.json'', rawGnosis)])] exampleConfigs [])
      exampleEthers exampleSdk ''keeper'' (StringValue ''QmA'')) [''b.json'', ''c.json''] ([], ([], [], []))
   = ([], Inl (Error ''VAR env variable is not defined''))"
  using config_error_handling[where
      W = "exampleWorld [(''keeper'', ''QmA'', [(''a.json'', rawMainnat), (''b.json'', rawMainnet),
                                                (''c.json'', rawGnosis)])] exampleConfigs []"
      and ethers = exampleEthers and S = exampleSdk and ?w3fName = "''keeper''"
      and ipfsValue = "StringValue ''QmA''" and ipfsDeployment = "''QmA''" and configFileName = "''a.json''"
      and rawConfig = rawMainnat and config = configMainnat
      and rest = "[''b.json'', ''c.json'']" and st = "([], ([], [], []))"]
    config_error_handling[where
      W = "exampleWorld [(''keeper'', ''QmA'', [(''a.json'', rawMainnat), (''b.json'', rawMainnet),
                                                (''c.json'', rawGnosis)])] exampleConfigs []"
      and ethers = exampleEthers and S = exampleSdk and ?w3fName = "''keeper''"
      and ipfsValue = "StringValue ''QmA''" and ipfsDeployment = "''QmA''" and configFileName = "''b.json''"
      and rawConfig = rawMainnet and config = configMainnet
      and rest = "[''c.json'']" and st = "([], ([], [], []))"]
  by (simp add: example_defs path_defs run_defs notion_defs)

text \<open>
  The claim as stated fails for a missing secret: the keeper holds \<open>b.json\<close>, whose secret
  variable \<open>VAR\<close> is unset, and \<open>c.json\<close>, which is valid. The run ends with the error
  thrown for \<open>b.json\<close>; \<open>c.json\<close> is never processed and the cancellation pass never runs.
\<close>

theorem config_error_counterexample:
  "reconcile
     (exampleWorld [(''keeper'', ''QmA'', [(''b.json'', rawMainnet), (''c.json'', rawGnosis)])]
        exampleConfigs [])
     exampleEthers exampleSdk ([], [], [])
   = ([GetActiveTasks ''mainnet'', GetActiveTasks ''gnosis'', Log ''Deploying keeper''],
      Inl (Error ''VAR env variable is not defined''))"
  by (simp add: example_defs path_defs run_defs reconcile_defs notion_defs)

lemma createHash_changes:
  assumes "rawConfig' \<noteq> rawConfig"
    and "inj_on (keccak256 ethers)
           {rawConfig, rawConfig',
            keccak256 ethers rawConfig @ keccak256 ethers ipfsDeployment,
            keccak256 ethers rawConfig' @ keccak256 ethers ipfsDeployment}"
  shows "createHash ethers rawConfig' ipfsDeployment \<noteq> createHash ethers rawConfig ipfsDeployment"
proof -
  from assms have "keccak256 ethers rawConfig' \<noteq> keccak256 ethers rawConfig"
    by (auto simp: inj_on_def)
  then have "keccak256 ethers rawConfig' @ keccak256 ethers ipfsDeployment
             \<noteq> keccak256 ethers rawConfig @ keccak256 ethers ipfsDeployment" by simp
  with assms(2) show ?thesis
    by (auto simp: inj_on_def createHash_def getBufferFromString_def Let_def)
qed

text \<open>
  C2, as amended. Let a config file differ from its earlier version in one byte, and let
  keccak256 have no collision among the two versions of the file and the two concatenated
  digests. Then the identity hash and the deployment name change. Take a run that
  completes, in which the earlier version's task is in the working set, no config derives
  its name any more, and the changed file is reached and loads. The earlier task is
  cancelled. If the changed config passes the two membership checks and no active task
  carries the new name yet, a task with the new name is created. If the changed config
  fails one of the two checks and no config derives the new name, no task with the new
  name is created: the cancellation is all that happens for the file.
\<close>

theorem changed_config_is_redeployed:
  assumes "rawConfig = pre @ [b] @ post" and "rawConfig' = pre @ [b'] @ post" and "b' \<noteq> b"
    and "inj_on (keccak256 ethers)
           {rawConfig, rawConfig',
            keccak256 ethers rawConfig @ keccak256 ethers ipfsDeployment,
            keccak256 ethers rawConfig' @ keccak256 ethers ipfsDeployment}"
    and "reconcile W ethers S p = (es, Inr p')"
    and "activeIndex S p = Some old"
    and "map_of old (deploymentName ethers configFileName rawConfig ipfsDeployment) = Some (tid, dmn)"
    and "deploymentName ethers configFileName rawConfig ipfsDeployment \<notin> set (desiredNames W ethers)"
    and "ipfsDeploymentsOf W = Some ipfsDeployments"
    and "map_of ipfsDeployments w3fName = Some ipfsDeployment"
    and "w3fName \<in> set (listDirectories W w3fImplementationsPath)"
    and "configFileName \<in> set (keeperFiles W (listDirectories W w3fConfigsPath) ipfsDeployments w3fName)"
    and "loadConfig W w3fName configFileName = Some (rawConfig', config)"
  shows "createHash ethers rawConfig' ipfsDeployment \<noteq> createHash ethers rawConfig ipfsDeployment
       \<and> deploymentName ethers configFileName rawConfig' ipfsDeployment
           \<noteq> deploymentName ethers configFileName rawConfig ipfsDeployment
       \<and> CancelTask dmn tid \<in> set es
       \<and> (supported config
            \<and> deploymentName ethers configFileName rawConfig' ipfsDeployment \<notin> fst ` set old
          \<longrightarrow> (\<exists>params. CreateBatchExecTask (domain config) params \<in> set es
                 \<and> task_name params = deploymentName ethers configFileName rawConfig' ipfsDeployment))
       \<and> (\<not> supported config
            \<and> deploymentName ethers configFileName rawConfig' ipfsDeployment \<notin> set (desiredNames W ethers)
          \<longrightarrow> \<not> (\<exists>d params. CreateBatchExecTask d params \<in> set es
                 \<and> task_name params = deploymentName ethers configFileName rawConfig' ipfsDeployment))"
proof -
  let ?old = "deploymentName ethers configFileName rawConfig ipfsDeployment"
  let ?new = "deploymentName ethers configFileName rawConfig' ipfsDeployment"
  from assms(1,2,3) have "rawConfig' \<noteq> rawConfig" by simp
  from createHash_changes[OF this assms(4)]
  have h: "createHash ethers rawConfig' ipfsDeployment \<noteq> createHash ethers rawConfig ipfsDeployment" .
  then have n: "?new \<noteq> ?old"
    by (simp add: deploymentName_def Let_def)
  let ?cfgs = "listDirectories W w3fConfigsPath"
  let ?ns = "listDirectories W w3fImplementationsPath"
  from reconcile_Inr[OF assms(5)] assms(6,9) obtain es1 old1 p1 es2 where
    k: "forEach (processKeeper W ethers S ?cfgs ipfsDeployments) ?ns (old, p) = (es1, Inr (old1, p1))"
    and c: "forEach (cancelOld S) (objectEntries old1) p1 = (es2, Inr p')"
    and es: "es = [GetActiveTasks ''mainnet'', GetActiveTasks ''gnosis''] @ es1 @ es2"
    by auto
  have dn: "desiredNames W ethers = allNames W ethers ?cfgs ipfsDeployments ?ns"
    using assms(9) by (simp add: desiredNames_def)
  from keeperLoop_old[OF k]
  have o1: "old1 = filter (\<lambda>kv. fst kv \<notin> set (allNames W ethers ?cfgs ipfsDeployments ?ns)) old" .
  from assms(7) have "(?old, (tid, dmn)) \<in> set old"
    by (rule map_of_SomeD)
  with o1 assms(8) dn
  have "(?old, (tid, dmn)) \<in> set (objectEntries old1)"
    by (simp add: set_objectEntries)
  from cancelLoop_all[OF c this] es have cancel: "CancelTask dmn tid \<in> set es" by simp
  from assms(10) have ip: "getProperty (map_of ipfsDeployments) w3fName = StringValue ipfsDeployment"
    by (simp add: getProperty_def)
  have create: "\<exists>params. CreateBatchExecTask (domain config) params \<in> set es \<and> task_name params = ?new"
    if s: "supported config" and f: "?new \<notin> fst ` set old"
  proof -
    from keeperLoop_creates[where W = W and ethers = ethers and S = S and cfgs = ?cfgs
        and ipfss = ipfsDeployments and ns = ?ns and old = old and p = p and es = es1
        and st' = "(old1, p1)" and n = w3fName and f = configFileName and raw = rawConfig'
        and c = config and a = ipfsDeployment, OF k assms(11) ip assms(12,13) s f]
    obtain params where "CreateBatchExecTask (domain config) params \<in> set es1"
      "task_name params = ?new"
      by auto
    with es show ?thesis by auto
  qed
  have none: "\<not> (\<exists>d params. CreateBatchExecTask d params \<in> set es \<and> task_name params = ?new)"
    if f: "?new \<notin> set (desiredNames W ethers)"
  proof
    assume "\<exists>d params. CreateBatchExecTask d params \<in> set es \<and> task_name params = ?new"
    then obtain d params where e: "CreateBatchExecTask d params \<in> set es" and t: "task_name params = ?new"
      by blast
    from run_create_names[OF assms(5) e] f t show False by simp
  qed
  from h n cancel create none show ?thesis by blast
qed

theorem changed_config_is_redeployed_witness:
  \<open>rawThreshold5 = ''{"domain":"gnosis","args":{"threshold":"'' @ [CHR ''5''] @ ''"},"secrets":{},"trigger":{"type":"block"}}''
   \<and> rawThreshold6 = ''{"domain":"gnosis","args":{"threshold":"'' @ [CHR ''6''] @ ''"},"secrets":{},"trigger":{"type":"block"}}''
   \<and> createHash exampleEthers rawThreshold6 ''QmA'' \<noteq> createHash exampleEthers rawThreshold5 ''QmA''
   \<and> reconcile
        (exampleWorld [(''keeper'', ''QmA'', [(''a.json'', rawThreshold6)])] exampleConfigs [])
        exampleEthers exampleSdk
        (''*'', [], [\<lparr> name = deploymentName exampleEthers ''a.json'' rawThreshold5 ''QmA'', taskId = ''id'' \<rparr>])
      = ([GetActiveTasks ''mainnet'', GetActiveTasks ''gnosis'', Log ''Deploying keeper'',
          Log (''Deploying '' @ deploymentName exampleEthers ''a.json'' rawThreshold6 ''QmA''),
          Pause,
          CreateBatchExecTask ''gnosis''
            \<lparr> task_name = deploymentName exampleEthers ''a.json'' rawThreshold6 ''QmA'',
              web3FunctionHash = ''QmA'', web3FunctionArgs = [(''threshold'', ''6'')],
              task_trigger = TriggerBLOCK \<rparr>,
          SecretsSet ''gnosis'' [] ''id*'',
          Log (''Cancelling task '' @ deploymentName exampleEthers ''a.json'' rawThreshold5 ''QmA''),
          CancelTask ''gnosis'' ''id''],
         Inr (''**'', [],
              [\<lparr> name = deploymentName exampleEthers ''a.json'' rawThreshold6 ''QmA'', taskId = ''id*'' \<rparr>]))
   \<and> (\<exists>params. CreateBatchExecTask ''gnosis'' params
          \<in> set (fst (reconcile
                (exampleWorld [(''keeper'', ''QmA'', [(''a.json'', rawThreshold6)])] exampleConfigs [])
                exampleEthers exampleSdk
                (''*'', [], [\<lparr> name = deploymentName exampleEthers ''a.json'' rawThreshold5 ''QmA'', taskId = ''id'' \<rparr>])))
        \<and> task_name params = deploymentName exampleEthers ''a.json'' rawThreshold6 ''QmA'')
   \<and> rawGnosis = ''{"domain":"'' @ [CHR ''g''] @ ''nosis","args":{},"secrets":{},"trigger":{"type":"block"}}''
   \<and> rawMnosis = ''{"domain":"'' @ [CHR ''m''] @ ''nosis","args":{},"secrets":{},"trigger":{"type":"block"}}''
   \<and> deploymentName exampleEthers ''a.json'' rawMnosis ''QmA''
        \<noteq> deploymentName exampleEthers ''a.json'' rawGnosis ''QmA''
   \<and> reconcile
        (exampleWorld [(''keeper'', ''QmA'', [(''a.json'', rawMnosis)])] exampleConfigs [])
        exampleEthers exampleSdk
        (''*'', [], [\<lparr> name = deploymentName exampleEthers ''a.json'' rawGnosis ''QmA'', taskId = ''id'' \<rparr>])
      = ([GetActiveTasks ''mainnet'', GetActiveTasks ''gnosis'', Log ''Deploying keeper'',
          Log ''Domain mnosis is not supported'',
          Log (''Cancelling task '' @ deploymentName exampleEthers ''a.json'' rawGnosis ''QmA''),
          CancelTask ''gnosis'' ''id''],
         Inr (''*'', [], []))
   \<and> \<not> (\<exists>d params. CreateBatchExecTask d params
          \<in> set (fst (reconcile
                (exampleWorld [(''keeper'', ''QmA'', [(''a.json'', rawMnosis)])] exampleConfigs [])
                exampleEthers exampleSdk
                (''*'', [], [\<lparr> name = deploymentName exampleEthers ''a.json'' rawGnosis ''QmA'', taskId = ''id'' \<rparr>])))
        \<and> task_name params = deploymentName exampleEthers ''a.json'' rawMnosis ''QmA'')\<close>
proof -
  let ?W1 = "exampleWorld [(''keeper'', ''QmA'', [(''a.json'', rawThreshold6)])] exampleConfigs []"
  let ?p1 = "(''*'', [], [\<lparr> name = deploymentName exampleEthers ''a.json'' rawThreshold5 ''QmA'', taskId = ''id'' \<rparr>])
             :: examplePlatform"
  let ?W2 = "exampleWorld [(''keeper'', ''QmA'', [(''a.json'', rawMnosis)])] exampleConfigs []"
  let ?p2 = "(''*'', [], [\<lparr> name = deploymentName exampleEthers ''a.json'' rawGnosis ''QmA'', taskId = ''id'' \<rparr>])
             :: examplePlatform"
  have b5: \<open>rawThreshold5 = ''{"domain":"gnosis","args":{"threshold":"'' @ [CHR ''5''] @ ''"},"secrets":{},"trigger":{"type":"block"}}''\<close>
    by (simp add: rawThreshold5_def)
  have b6: \<open>rawThreshold6 = ''{"domain":"gnosis","args":{"threshold":"'' @ [CHR ''6''] @ ''"},"secrets":{},"trigger":{"type":"block"}}''\<close>
    by (simp add: rawThreshold6_def)
  have bg: \<open>rawGnosis = ''{"domain":"'' @ [CHR ''g''] @ ''nosis","args":{},"secrets":{},"trigger":{"type":"block"}}''\<close>
    by (simp add: rawGnosis_def)
  have bm: \<open>rawMnosis = ''{"domain":"'' @ [CHR ''m''] @ ''nosis","args":{},"secrets":{},"trigger":{"type":"block"}}''\<close>
    by (simp add: rawMnosis_def)
  have ne1: "CHR ''6'' \<noteq> CHR ''5''" and ne2: "CHR ''m'' \<noteq> CHR ''g''" by simp_all
  have inj: "inj_on (keccak256 exampleEthers) A" for A
    by (simp add: exampleEthers_def inj_on_def)
  have run1: "reconcile ?W1 exampleEthers exampleSdk ?p1
      = ([GetActiveTasks ''mainnet'', GetActiveTasks ''gnosis'', Log ''Deploying keeper'',
          Log (''Deploying '' @ deploymentName exampleEthers ''a.json'' rawThreshold6 ''QmA''),
          Pause,
          CreateBatchExecTask ''gnosis''
            \<lparr> task_name = deploymentName exampleEthers ''a.json'' rawThreshold6 ''QmA'',
              web3FunctionHash = ''QmA'', web3FunctionArgs = [(''threshold'', ''6'')],
              task_trigger = TriggerBLOCK \<rparr>,
          SecretsSet ''gnosis'' [] ''id*'',
          Log (''Cancelling task '' @ deploymentName exampleEthers ''a.json'' rawThreshold5 ''QmA''),
          CancelTask ''gnosis'' ''id''],
         Inr (''**'', [],
              [\<lparr> name = deploymentName exampleEthers ''a.json'' rawThreshold6 ''QmA'', taskId = ''id*'' \<rparr>]))"
    by (simp add: example_defs path_defs run_defs reconcile_defs)
  have run2: "reconcile ?W2 exampleEthers exampleSdk ?p2
      = ([GetActiveTasks ''mainnet'', GetActiveTasks ''gnosis'', Log ''Deploying keeper'',
          Log ''Domain mnosis is not supported'',
          Log (''Cancelling task '' @ deploymentName exampleEthers ''a.json'' rawGnosis ''QmA''),
          CancelTask ''gnosis'' ''id''],
         Inr (''*'', [], []))"
    by (simp add: example_defs rawMnosis_def configMnosis_def path_defs run_defs reconcile_defs)
  have idx1: "activeIndex exampleSdk ?p1
                = Some [(deploymentName exampleEthers ''a.json'' rawThreshold5 ''QmA'', (''id'', ''gnosis''))]"
    by (simp add: activeIndex_def indexTasks_def assignProperty_def exampleSdk_def deploymentName_not_proto)
  have idx2: "activeIndex exampleSdk ?p2
                = Some [(deploymentName exampleEthers ''a.json'' rawGnosis ''QmA'', (''id'', ''gnosis''))]"
    by (simp add: activeIndex_def indexTasks_def assignProperty_def exampleSdk_def deploymentName_not_proto)
  have old1: "map_of [(deploymentName exampleEthers ''a.json'' rawThreshold5 ''QmA'', (''id'', ''gnosis''))]
                (deploymentName exampleEthers ''a.json'' rawThreshold5 ''QmA'') = Some (''id'', ''gnosis'')"
    and old2: "map_of [(deploymentName exampleEthers ''a.json'' rawGnosis ''QmA'', (''id'', ''gnosis''))]
                (deploymentName exampleEthers ''a.json'' rawGnosis ''QmA'') = Some (''id'', ''gnosis'')"
    by simp_all
  have des1: "desiredNames ?W1 exampleEthers = [deploymentName exampleEthers ''a.json'' rawThreshold6 ''QmA'']"
    by (simp add: example_defs path_defs notion_defs getProperty_def domains_def triggerTypeNames_def)
  have des2: "desiredNames ?W2 exampleEthers = []"
    by (simp add: example_defs rawMnosis_def configMnosis_def path_defs notion_defs getProperty_def
        domains_def triggerTypeNames_def)
  have gone1: "deploymentName exampleEthers ''a.json'' rawThreshold5 ''QmA'' \<notin> set (desiredNames ?W1 exampleEthers)"
    unfolding des1 by (simp add: deploymentName_def createHash_def getBufferFromString_def exampleEthers_def
        rawThreshold5_def rawThreshold6_def)
  have gone2: "deploymentName exampleEthers ''a.json'' rawGnosis ''QmA'' \<notin> set (desiredNames ?W2 exampleEthers)"
    unfolding des2 by simp
  have ipfs1: "ipfsDeploymentsOf ?W1 = Some [(''keeper'', ''QmA'')]"
    and ipfs2: "ipfsDeploymentsOf ?W2 = Some [(''keeper'', ''QmA'')]"
    by (simp_all add: ipfsDeploymentsOf_def exampleWorld_def path_defs)
  have addr: "map_of [(''keeper'', ''QmA'')] ''keeper'' = Some ''QmA''" by simp
  have dir1: "''keeper'' \<in> set (listDirectories ?W1 w3fImplementationsPath)"
    and dir2: "''keeper'' \<in> set (listDirectories ?W2 w3fImplementationsPath)"
    by (simp_all add: exampleWorld_def)
  have file1: "''a.json'' \<in> set (keeperFiles ?W1 (listDirectories ?W1 w3fConfigsPath) [(''keeper'', ''QmA'')] ''keeper'')"
    and file2: "''a.json'' \<in> set (keeperFiles ?W2 (listDirectories ?W2 w3fConfigsPath) [(''keeper'', ''QmA'')] ''keeper'')"
    by (simp_all add: keeperFiles_def exampleWorld_def getProperty_def path_defs)
  have load1: "loadConfig ?W1 ''keeper'' ''a.json'' = Some (rawThreshold6, configThreshold6)"
    by (simp add: loadConfig_def example_defs path_defs)
  have load2: "loadConfig ?W2 ''keeper'' ''a.json'' = Some (rawMnosis, configMnosis)"
    by (simp add: loadConfig_def example_defs rawMnosis_def configMnosis_def path_defs)
  have whole1: "reconcile ?W1 exampleEthers exampleSdk ?p1
      = (fst (reconcile ?W1 exampleEthers exampleSdk ?p1),
         Inr (''**'', [],
              [\<lparr> name = deploymentName exampleEthers ''a.json'' rawThreshold6 ''QmA'', taskId = ''id*'' \<rparr>]))"
    unfolding run1 by simp
  have whole2: "reconcile ?W2 exampleEthers exampleSdk ?p2
      = (fst (reconcile ?W2 exampleEthers exampleSdk ?p2), Inr (''*'', [], []))"
    unfolding run2 by simp
  have new1: "supported configThreshold6
      \<and> deploymentName exampleEthers ''a.json'' rawThreshold6 ''QmA''
          \<notin> fst ` set [(deploymentName exampleEthers ''a.json'' rawThreshold5 ''QmA'', (''id'', ''gnosis''))]"
    by (simp add: supported_def configThreshold6_def blockTrigger_def domains_def triggerTypeNames_def
        deploymentName_def createHash_def getBufferFromString_def exampleEthers_def
        rawThreshold5_def rawThreshold6_def)
  have new2: "\<not> supported configMnosis
      \<and> deploymentName exampleEthers ''a.json'' rawMnosis ''QmA'' \<notin> set (desiredNames ?W2 exampleEthers)"
    unfolding des2 by (simp add: supported_def configMnosis_def domains_def)
  note t1 = changed_config_is_redeployed[OF b5 b6 ne1 inj whole1 idx1 old1 gone1 ipfs1 addr dir1 file1 load1]
  note t2 = changed_config_is_redeployed[OF bg bm ne2 inj whole2 idx2 old2 gone2 ipfs2 addr dir2 file2 load2]
  from t1 have h1: "createHash exampleEthers rawThreshold6 ''QmA'' \<noteq> createHash exampleEthers rawThreshold5 ''QmA''"
    by (rule conjunct1)
  from t1 have "supported configThreshold6
      \<and> deploymentName exampleEthers ''a.json'' rawThreshold6 ''QmA''
          \<notin> fst ` set [(deploymentName exampleEthers ''a.json'' rawThreshold5 ''QmA'', (''id'', ''gnosis''))]
      \<longrightarrow> (\<exists>params. CreateBatchExecTask (domain configThreshold6) params
                     \<in> set (fst (reconcile ?W1 exampleEthers exampleSdk ?p1))
                 \<and> task_name params = deploymentName exampleEthers ''a.json'' rawThreshold6 ''QmA'')"
    by (elim conjE)
  with new1 have c1: "\<exists>params. CreateBatchExecTask ''gnosis'' params
                     \<in> set (fst (reconcile ?W1 exampleEthers exampleSdk ?p1))
                 \<and> task_name params = deploymentName exampleEthers ''a.json'' rawThreshold6 ''QmA''"
    by (simp add: configThreshold6_def)
  from t2 have h2: "deploymentName exampleEthers ''a.json'' rawMnosis ''QmA''
        \<noteq> deploymentName exampleEthers ''a.json'' rawGnosis ''QmA''"
    by (elim conjE)
  from t2 have "\<not> supported configMnosis
      \<and> deploymentName exampleEthers ''a.json'' rawMnosis ''QmA'' \<notin> set (desiredNames ?W2 exampleEthers)
      \<longrightarrow> \<not> (\<exists>d params. CreateBatchExecTask d params \<in> set (fst (reconcile ?W2 exampleEthers exampleSdk ?p2))
                 \<and> task_name params = deploymentName exampleEthers ''a.json'' rawMnosis ''QmA'')"
    by (elim conjE)
  with new2 have c2: "\<not> (\<exists>d params. CreateBatchExecTask d params \<in> set (fst (reconcile ?W2 exampleEthers exampleSdk ?p2))
                 \<and> task_name params = deploymentName exampleEthers ''a.json'' rawMnosis ''QmA'')"
    by (rule rev_mp)
  show ?thesis
    by (intro conjI) (rule b5 b6 h1 run1 c1 bg bm h2 run2 c2)+
qed

text \<open>
  The claim as stated fails where the changed byte leaves the file outside the supported
  configs: with \<open>mainnet\<close> turned into \<open>mainnat\<close> the file is skipped for its domain, the
  earlier task is cancelled, and no task is created.
\<close>

theorem changed_config_counterexample:
  \<open>rawMainnet = ''{"domain":"mainn'' @ [CHR ''e''] @ ''t","args":{},"secrets":{"KEY":"VAR"},"trigger":{"type":"block"}}''
   \<and> rawMainnat = ''{"domain":"mainn'' @ [CHR ''a''] @ ''t","args":{},"secrets":{"KEY":"VAR"},"trigger":{"type":"block"}}''
   \<and> reconcile
        (exampleWorld [(''keeper'', ''QmA'', [(''a.json'', rawMainnat)])] exampleConfigs [(''VAR'', ''value'')])
        exampleEthers exampleSdk
        (''*'', [\<lparr> name = deploymentName exampleEthers ''a.json'' rawMainnet ''QmA'', taskId = ''id'' \<rparr>], [])
      = ([GetActiveTasks ''mainnet'', GetActiveTasks ''gnosis'', Log ''Deploying keeper'',
          Log ''Domain mainnat is not supported'',
          Log (''Cancelling task '' @ deploymentName exampleEthers ''a.json'' rawMainnet ''QmA''),
          CancelTask ''mainnet'' ''id''],
         Inr (''*'', [], []))\<close>
  by (simp add: example_defs path_defs run_defs reconcile_defs notion_defs)

lemma resolveTopics_result:
  "resolveTopics W ethers ts acc =
     (case find (\<lambda>t. abiEvent W t = None) ts of
        None \<Rightarrow> Inr (acc @ map (\<lambda>t. keccak256 ethers (format_event (the (abiEvent W t)))) ts)
      | Some t \<Rightarrow> Inl (lookupError W t))"
proof (induction ts arbitrary: acc)
  case Nil
  then show ?case by simp
next
  case (Cons t ts)
  show ?case
  proof (cases "abiEvent W t")
    case None
    then show ?thesis
      by (auto simp: abiEvent_def lookupError_def getEventTopic_def split: option.splits)
  next
    case (Some ev)
    then have "resolveTopics W ethers (t # ts) acc
                 = resolveTopics W ethers ts (acc @ [keccak256 ethers (format_event ev)])"
      by (auto simp: abiEvent_def getEventTopic_def getBufferFromString_def split: option.splits)
    with Some Cons.IH[of "acc @ [keccak256 ethers (format_event ev)]"] show ?thesis
      by (simp split: option.splits)
  qed
qed

lemmas abi_defs = exampleAbiWorld_def eventTrigger_def rawAggregatorAbi_def abiEvent_def lookupError_def
  format_event_def createTriggerConfig_def getEventTopic_def getBufferFromString_def

text \<open>
  C5. For a trigger of type \<open>event\<close>: when every topic reference resolves (its ABI file
  exists and parses, and holds an event of that name), the translation succeeds, the
  topics are the keccak256 hashes of the canonical signatures of the events, in the order
  of the references and grouped in one inner array, and the address and the block
  confirmations are those of the trigger. Otherwise the translation throws the lookup
  error of the first reference that does not resolve: the missing file, or the missing
  event when the file is there.
\<close>

theorem event_trigger_translation:
  assumes "ttype trg = ''event''"
  shows "(list_all (\<lambda>t. abiEvent W t \<noteq> None) (filter_topics trg)
          \<longrightarrow> createTriggerConfig W ethers trg
               = Inr (TriggerEVENT (filter_address trg)
                        [map (\<lambda>t. keccak256 ethers (format_event (the (abiEvent W t)))) (filter_topics trg)]
                        (blockConfirmations trg)))
       \<and> (\<not> list_all (\<lambda>t. abiEvent W t \<noteq> None) (filter_topics trg)
          \<longrightarrow> (\<exists>t. find (\<lambda>t. abiEvent W t = None) (filter_topics trg) = Some t
                   \<and> createTriggerConfig W ethers trg = Inl (lookupError W t)
                   \<and> (readFileSync W [abisPath, abiName t @ ''.json''] = None
                        \<longrightarrow> lookupError W t = ENOENT [abisPath, abiName t @ ''.json''])
                   \<and> (\<forall>raw abi. readFileSync W [abisPath, abiName t @ ''.json''] = Some raw
                          \<and> parseAbi W raw = Some abi
                        \<longrightarrow> lookupError W t = NoMatchingEvent (eventName t))))"
proof (intro conjI impI)
  assume "list_all (\<lambda>t. abiEvent W t \<noteq> None) (filter_topics trg)"
  then have "find (\<lambda>t. abiEvent W t = None) (filter_topics trg) = None"
    by (simp add: find_None_iff list_all_iff)
  with assms show "createTriggerConfig W ethers trg
               = Inr (TriggerEVENT (filter_address trg)
                        [map (\<lambda>t. keccak256 ethers (format_event (the (abiEvent W t)))) (filter_topics trg)]
                        (blockConfirmations trg))"
    by (simp add: createTriggerConfig_def resolveTopics_result)
next
  assume "\<not> list_all (\<lambda>t. abiEvent W t \<noteq> None) (filter_topics trg)"
  then obtain t where f: "find (\<lambda>t. abiEvent W t = None) (filter_topics trg) = Some t"
    by (cases "find (\<lambda>t. abiEvent W t = None) (filter_topics trg)")
       (auto simp: find_None_iff list_all_iff)
  with assms have c: "createTriggerConfig W ethers trg = Inl (lookupError W t)"
    by (simp add: createTriggerConfig_def resolveTopics_result)
  have "readFileSync W [abisPath, abiName t @ ''.json''] = None
          \<longrightarrow> lookupError W t = ENOENT [abisPath, abiName t @ ''.json'']"
    by (simp add: lookupError_def)
  moreover have "\<forall>raw abi. readFileSync W [abisPath, abiName t @ ''.json''] = Some raw
                          \<and> parseAbi W raw = Some abi
                        \<longrightarrow> lookupError W t = NoMatchingEvent (eventName t)"
    by (simp add: lookupError_def)
  ultimately show "\<exists>t. find (\<lambda>t. abiEvent W t = None) (filter_topics trg) = Some t
                   \<and> createTriggerConfig W ethers trg = Inl (lookupError W t)
                   \<and> (readFileSync W [abisPath, abiName t @ ''.json''] = None
                        \<longrightarrow> lookupError W t = ENOENT [abisPath, abiName t @ ''.json''])
                   \<and> (\<forall>raw abi. readFileSync W [abisPath, abiName t @ ''.json''] = Some raw
                          \<and> parseAbi W raw = Some abi
                        \<longrightarrow> lookupError W t = NoMatchingEvent (eventName t))"
    using f c by (intro exI[of _ t] conjI)
qed

theorem event_trigger_translation_witness:
  "createTriggerConfig exampleAbiWorld exampleEthers (eventTrigger ''aggregator'' ''AnswerUpdated'')
     = Inr (TriggerEVENT ''0xAggregator'' [[keccak256 exampleEthers ''AnswerUpdated(int256,uint256,uint256)'']] 0)
   \<and> createTriggerConfig exampleAbiWorld exampleEthers (eventTrigger ''missing'' ''AnswerUpdated'')
     = Inl (ENOENT [abisPath, ''missing.json''])
   \<and> createTriggerConfig exampleAbiWorld exampleEthers (eventTrigger ''aggregator'' ''Transfer'')
     = Inl (NoMatchingEvent ''Transfer'')"
  using event_trigger_translation[of "eventTrigger ''aggregator'' ''AnswerUpdated''" exampleAbiWorld exampleEthers]
    event_trigger_translation[of "eventTrigger ''missing'' ''AnswerUpdated''" exampleAbiWorld exampleEthers]
    event_trigger_translation[of "eventTrigger ''aggregator'' ''Transfer''" exampleAbiWorld exampleEthers]
  by (simp add: abi_defs example_defs path_defs)

lemma slice_to_neg_1: "slice_to_neg s (Suc 0) = butlast s"
  by (simp add: slice_to_neg_def butlast_conv_take)

lemmas key_defs = exampleKeyWorld_def deployerPrivateKey_def retrievePrivateKeyFromKeystore_def
  script_def slice_to_neg_def stripTrailingNewline_def

text \<open>
  The key resolution as the code has it. With no explicit private key and both paths
  supplied, the keystore is decrypted with the content of the password file without its
  last character, whatever that character is. With no explicit key and one of the two paths
  missing, the script throws that the private key is not configured; and whenever the key
  resolution throws, or the wallet constructor rejects the key, the script ends with that
  error and has issued nothing: no SDK call, no log.
\<close>

lemma key_resolution:
  "(\<not> truthy (processEnv W ''GELATO_PRIVATE_KEY'')
      \<and> processEnv W ''GELATO_KEYSTORE_PATH'' = Some keystorePath \<and> keystorePath \<noteq> []
      \<and> processEnv W ''GELATO_PASSWORD_PATH'' = Some passwordPath \<and> passwordPath \<noteq> []
      \<and> readFileSync W [passwordPath] = Some passwordFile
      \<and> readFileSync W [keystorePath] = Some keystore
    \<longrightarrow> deployerPrivateKey W ethers
          = (case fromEncryptedJsonSync ethers keystore (butlast passwordFile) of
               None \<Rightarrow> Inl DecryptError
             | Some privateKey \<Rightarrow>
                 if privateKey = [] then Inl (Error ''Private key is not configured'')
                 else Inr privateKey))
   \<and> (\<not> truthy (processEnv W ''GELATO_PRIVATE_KEY'')
      \<and> \<not> (truthy (processEnv W ''GELATO_KEYSTORE_PATH'') \<and> truthy (processEnv W ''GELATO_PASSWORD_PATH''))
    \<longrightarrow> deployerPrivateKey W ethers = Inl (Error ''Private key is not configured''))
   \<and> (deployerPrivateKey W ethers = Inl e \<longrightarrow> script W ethers S p = ([], Inl e))
   \<and> (deployerPrivateKey W ethers = Inr key \<and> \<not> newWallet ethers key
    \<longrightarrow> script W ethers S p = ([], Inl InvalidKey))"
  by (auto simp: deployerPrivateKey_def retrievePrivateKeyFromKeystore_def slice_to_neg_1 script_def
      Let_def split: option.splits)

text \<open>
  C7. The claim has the password file read and its trailing newline stripped. The code
  drops the last character of the file instead, which is the same only for a file that
  ends in a newline. Take a keystore that opens with the password \<open>secret\<close>. With the
  password file \<open>secret\<close> followed by a newline the key is recovered. With the password
  file \<open>secret\<close> and no newline, stripping a trailing newline leaves the password as it is,
  but the code decrypts with \<open>secre\<close>: the decryption fails and the script ends with that
  error, although the keystore path and the password are right.
\<close>

theorem password_file_without_newline:
  "fromEncryptedJsonSync exampleEthers ''{keystore}'' ''secret'' = Some ''0xkey''
   \<and> deployerPrivateKey (exampleKeyWorld (''secret'' @ [CHR 0x0A])) exampleEthers = Inr ''0xkey''
   \<and> readFileSync (exampleKeyWorld ''secret'') [''/keys/password''] = Some ''secret''
   \<and> stripTrailingNewline ''secret'' = ''secret''
   \<and> slice_to_neg ''secret'' 1 = ''secre''
   \<and> retrievePrivateKeyFromKeystore (exampleKeyWorld ''secret'') exampleEthers
         ''/keys/keystore.json'' ''/keys/password''
       = Inl DecryptError
   \<and> script (exampleKeyWorld ''secret'') exampleEthers exampleSdk ([], [], []) = ([], Inl DecryptError)"
  by (simp add: key_defs example_defs)

section \<open>Properties of deployAll.ts\<close>

lemma length_deploymentTag:
  "19 \<le> length deploymentDate \<Longrightarrow> length (deploymentTag deploymentDate) = 22"
  by (simp add: deploymentTag_def slice_def)

lemma retireLoop_cancels:
  "forEach (retireTask S dmn) ts p = (es, r) \<Longrightarrow>
   \<exists>k. filter isCancel es = map (\<lambda>t. CancelTask dmn (taskId t)) (take k ts)
       \<and> ((\<exists>p'. r = Inr p') \<longrightarrow> k = length ts)"
proof (induction ts arbitrary: p es r)
  case Nil
  then show ?case by simp
next
  case (Cons t ts)
  show ?case
  proof (cases "fst (cancelTask S dmn (taskId t) p)")
    case False
    then have "retireTask S dmn t p
        = ([Log (''   * Retiring '' @ name t @ ''...''), CancelTask dmn (taskId t)], Inl Rejected)"
      by (cases "cancelTask S dmn (taskId t) p") (simp add: retireTask_def)
    with Cons.prems have "filter isCancel es = [CancelTask dmn (taskId t)]" and "r = Inl Rejected"
      by (auto simp: andThen_def)
    then show ?thesis by (intro exI[of _ 1]) simp
  next
    case True
    then obtain p1 where c: "cancelTask S dmn (taskId t) p = (True, p1)"
      by (cases "cancelTask S dmn (taskId t) p") simp
    obtain es2 r2 where f: "forEach (retireTask S dmn) ts p1 = (es2, r2)"
      by (cases "forEach (retireTask S dmn) ts p1")
    from c have b: "retireTask S dmn t p
        = ([Log (''   * Retiring '' @ name t @ ''...''), CancelTask dmn (taskId t),
            Log (''   * '' @ name t @ '' retired successfully!'')], Inr p1)"
      by (simp add: retireTask_def)
    from Cons.prems b f have es: "filter isCancel es = CancelTask dmn (taskId t) # filter isCancel es2"
      and r: "r = r2"
      by (auto simp: andThen_def)
    from Cons.IH[OF f] obtain k where
      k: "filter isCancel es2 = map (\<lambda>t. CancelTask dmn (taskId t)) (take k ts)"
      "(\<exists>p'. r2 = Inr p') \<longrightarrow> k = length ts" by blast
    with es r show ?thesis by (intro exI[of _ "Suc k"]) simp
  qed
qed

lemmas retire_defs = retirePreviouslyDeployedTasks_def retireTask_def tasksToRetire_def deploymentTag_def
  slice_def slice_to_neg_def andThen_def exampleSdk_def

text \<open>
  C10. The tag built from an ISO date text has 22 characters whatever the date, so the
  match of \<open>retirePreviouslyDeployedTasks\<close> strips the last 22 characters of a task name
  and looks the rest up among the supplied base names. The cancel calls it issues are those
  of the matching active tasks, in order: all of them when it returns, and an initial part
  of them, up to the rejected call, when a call rejects. Every cancel call is on the
  supplied network and for a matching task, so a task whose stripped name is not in the
  list is never cancelled.
\<close>

theorem retire_cancels_matching_tasks:
  assumes "19 \<le> length deploymentDate"
    and "getActiveTasks S dmn p = Some activeTasks"
    and "retirePreviouslyDeployedTasks S (deploymentTag deploymentDate) dmn taskNames p = (es, r)"
  shows "\<exists>k. filter isCancel es
               = map (\<lambda>t. CancelTask dmn (taskId t))
                   (take k (filter (\<lambda>t. take (length (name t) - 22) (name t) \<in> set taskNames) activeTasks))
             \<and> ((\<exists>p'. r = Inr p')
                  \<longrightarrow> filter isCancel es
                      = map (\<lambda>t. CancelTask dmn (taskId t))
                          (filter (\<lambda>t. take (length (name t) - 22) (name t) \<in> set taskNames) activeTasks))
             \<and> (\<forall>d i. CancelTask d i \<in> set es
                  \<longrightarrow> d = dmn \<and> (\<exists>t\<in>set activeTasks.
                         take (length (name t) - 22) (name t) \<in> set taskNames \<and> taskId t = i))"
proof -
  let ?ts = "filter (\<lambda>t. take (length (name t) - 22) (name t) \<in> set taskNames) activeTasks"
  have t: "tasksToRetire (deploymentTag deploymentDate) taskNames activeTasks = ?ts"
    by (simp add: tasksToRetire_def length_deploymentTag[OF assms(1)] slice_to_neg_def)
  obtain es2 where f: "forEach (retireTask S dmn) ?ts p = (es2, r)"
    and es: "es = GetActiveTasks dmn # es2"
    using assms(2,3) t
    by (cases "forEach (retireTask S dmn) ?ts p")
       (auto simp: retirePreviouslyDeployedTasks_def andThen_def)
  from retireLoop_cancels[OF f] obtain k where
    k: "filter isCancel es2 = map (\<lambda>t. CancelTask dmn (taskId t)) (take k ?ts)"
    "(\<exists>p'. r = Inr p') \<longrightarrow> k = length ?ts" by blast
  have u: "d = dmn \<and> (\<exists>t\<in>set activeTasks.
                         take (length (name t) - 22) (name t) \<in> set taskNames \<and> taskId t = i)"
    if "CancelTask d i \<in> set es" for d i
  proof -
    from that es have "CancelTask d i \<in> set (filter isCancel es2)" by simp
    with k(1) obtain t where "t \<in> set (take k ?ts)" "CancelTask d i = CancelTask dmn (taskId t)"
      by auto
    moreover then have "t \<in> set ?ts" by (meson in_set_takeD)
    ultimately show ?thesis by auto
  qed
  from k es have "filter isCancel es = map (\<lambda>t. CancelTask dmn (taskId t)) (take k ?ts)"
    and "(\<exists>p'. r = Inr p') \<longrightarrow> filter isCancel es = map (\<lambda>t. CancelTask dmn (taskId t)) ?ts"
    by auto
  with u show ?thesis by (intro exI[of _ k]) blast
qed

theorem retire_cancels_matching_tasks_witness:
  "retirePreviouslyDeployedTasks exampleSdk (deploymentTag ''2025-01-02T03:04:05.000Z'') ''mainnet''
     [''Cap Automator'']
     (''**'', [\<lparr> name = ''Cap Automator <2024-07-05 12:39:41>'', taskId = ''id'' \<rparr>,
              \<lparr> name = ''D3M Ticker <2024-07-05 13:20:54>'', taskId = ''id*'' \<rparr>], [])
   = ([GetActiveTasks ''mainnet'',
       Log ''   * Retiring Cap Automator <2024-07-05 12:39:41>...'',
       CancelTask ''mainnet'' ''id'',
       Log ''   * Cap Automator <2024-07-05 12:39:41> retired successfully!''],
      Inr (''**'', [\<lparr> name = ''D3M Ticker <2024-07-05 13:20:54>'', taskId = ''id*'' \<rparr>], []))"
  using retire_cancels_matching_tasks[where deploymentDate = "''2025-01-02T03:04:05.000Z''"
      and S = exampleSdk and dmn = "''mainnet''" and taskNames = "[''Cap Automator'']"
      and p = "(''**'', [\<lparr> name = ''Cap Automator <2024-07-05 12:39:41>'', taskId = ''id'' \<rparr>,
              \<lparr> name = ''D3M Ticker <2024-07-05 13:20:54>'', taskId = ''id*'' \<rparr>], [])"
      and activeTasks = "[\<lparr> name = ''Cap Automator <2024-07-05 12:39:41>'', taskId = ''id'' \<rparr>,
              \<lparr> name = ''D3M Ticker <2024-07-05 13:20:54>'', taskId = ''id*'' \<rparr>]"]
  by (simp add: retire_defs)

lemma deploymentsFile_append:
  "deploymentsFile (xs @ ys) content = deploymentsFile ys (deploymentsFile xs content)"
  by (induction xs content rule: deploymentsFile.induct) simp_all

lemma deploymentsFile_no_write:
  "filter isWrite es = [] \<Longrightarrow> deploymentsFile es content = content"
  by (induction es content rule: deploymentsFile.induct) simp_all

lemmas deploy_defs = deploy_def capAutomatorLogic_def hourInMilliseconds_def rejectingSdk_def

text \<open>
  C9. Whatever \<open>deploy\<close> does for a keeper: when the keeper is skipped (no IPFS deployment,
  or the recorded address equals the pre-deployment address) nothing is written and the
  file holds what it held; when the deployment logic throws, \<open>deploy\<close> ends with that
  error, its own events all precede the logic's and none of them is a write, so the file is
  unchanged unless the logic itself wrote it; and when the logic completes, its events are
  followed by one log line and the one write of \<open>deployments.json\<close>, which then holds the
  new content address for the keeper.
\<close>

theorem deployments_file_written_after_logic:
  assumes "deploy ipfsDeployments w3fName deploymentLogic (gelatoDeployments, p) = (es, r)"
  shows "(map_of ipfsDeployments w3fName = None
            \<or> map_of ipfsDeployments w3fName = map_of gelatoDeployments w3fName
          \<longrightarrow> r = Inr (gelatoDeployments, p) \<and> filter isWrite es = []
              \<and> deploymentsFile es held = held)
       \<and> (\<forall>a les e. map_of ipfsDeployments w3fName = Some a
                \<and> map_of gelatoDeployments w3fName \<noteq> Some a
                \<and> deploymentLogic a p = (les, Inl e)
          \<longrightarrow> r = Inl e
              \<and> (\<exists>pre. es = pre @ les \<and> filter isWrite pre = [])
              \<and> (filter isWrite les = [] \<longrightarrow> deploymentsFile es held = held))
       \<and> (\<forall>a les p'. map_of ipfsDeployments w3fName = Some a
                \<and> map_of gelatoDeployments w3fName \<noteq> Some a
                \<and> deploymentLogic a p = (les, Inr p')
          \<longrightarrow> r = Inr (AList.update w3fName a gelatoDeployments, p')
              \<and> (\<exists>pre m. es = pre @ les
                           @ [Log m, WriteFileSync ''./scripts/deployments.json''
                                       (AList.update w3fName a gelatoDeployments)]
                         \<and> filter isWrite pre = [])
              \<and> deploymentsFile es held = AList.update w3fName a gelatoDeployments
              \<and> map_of (deploymentsFile es held) w3fName = Some a)"
proof -
  have A: "(map_of ipfsDeployments w3fName = None
            \<or> map_of ipfsDeployments w3fName = map_of gelatoDeployments w3fName
          \<longrightarrow> r = Inr (gelatoDeployments, p) \<and> filter isWrite es = []
              \<and> deploymentsFile es held = held)"
  proof (intro allI impI)
    assume "map_of ipfsDeployments w3fName = None
              \<or> map_of ipfsDeployments w3fName = map_of gelatoDeployments w3fName"
    with assms have "r = Inr (gelatoDeployments, p) \<and> filter isWrite es = []"
      by (auto simp: deploy_def Let_def split: if_splits)
    then show "r = Inr (gelatoDeployments, p) \<and> filter isWrite es = [] \<and> deploymentsFile es held = held"
      by (simp add: deploymentsFile_no_write)
  qed
  have B: "(\<forall>a les e. map_of ipfsDeployments w3fName = Some a
                \<and> map_of gelatoDeployments w3fName \<noteq> Some a
                \<and> deploymentLogic a p = (les, Inl e)
          \<longrightarrow> r = Inl e
              \<and> (\<exists>pre. es = pre @ les \<and> filter isWrite pre = [])
              \<and> (filter isWrite les = [] \<longrightarrow> deploymentsFile es held = held))"
  proof (intro allI impI)
    fix a les e
    assume h: "map_of ipfsDeployments w3fName = Some a
                  \<and> map_of gelatoDeployments w3fName \<noteq> Some a
                  \<and> deploymentLogic a p = (les, Inl e)"
    let ?pre = "[Log (CHR 0x0A # ''== Deploying '' @ w3fName @ '' ==''),
                 Log (''   * Deployment of '' @ w3fName @ '' to be executed (IPFS hash: '' @ a @ '')''),
                 Pause, Log (''   * Deploying '' @ w3fName @ ''...'')]"
    from h assms have r: "r = Inl e" and es: "es = ?pre @ les"
      by (auto simp: deploy_def Let_def andThen_def split: if_splits)
    have "\<exists>pre. es = pre @ les \<and> filter isWrite pre = []"
      using es by (intro exI[of _ ?pre]) simp
    moreover have "filter isWrite les = [] \<longrightarrow> deploymentsFile es held = held"
      using es by (simp add: deploymentsFile_append deploymentsFile_no_write)
    ultimately show "r = Inl e
                \<and> (\<exists>pre. es = pre @ les \<and> filter isWrite pre = [])
                \<and> (filter isWrite les = [] \<longrightarrow> deploymentsFile es held = held)"
      using r by simp
  qed
  have C: "(\<forall>a les p'. map_of ipfsDeployments w3fName = Some a
                \<and> map_of gelatoDeployments w3fName \<noteq> Some a
                \<and> deploymentLogic a p = (les, Inr p')
          \<longrightarrow> r = Inr (AList.update w3fName a gelatoDeployments, p')
              \<and> (\<exists>pre m. es = pre @ les
                           @ [Log m, WriteFileSync ''./scripts/deployments.json''
                                       (AList.update w3fName a gelatoDeployments)]
                         \<and> filter isWrite pre = [])
              \<and> deploymentsFile es held = AList.update w3fName a gelatoDeployments
              \<and> map_of (deploymentsFile es held) w3fName = Some a)"
  proof (intro allI impI)
    fix a les p'
    assume h: "map_of ipfsDeployments w3fName = Some a
                  \<and> map_of gelatoDeployments w3fName \<noteq> Some a
                  \<and> deploymentLogic a p = (les, Inr p')"
    let ?pre = "[Log (CHR 0x0A # ''== Deploying '' @ w3fName @ '' ==''),
                 Log (''   * Deployment of '' @ w3fName @ '' to be executed (IPFS hash: '' @ a @ '')''),
                 Pause, Log (''   * Deploying '' @ w3fName @ ''...'')]"
    let ?m = "''   * Deployed '' @ w3fName @ '' successfully!''"
    let ?new = "AList.update w3fName a gelatoDeployments"
    from h assms have r: "r = Inr (?new, p')"
      and es: "es = ?pre @ les @ [Log ?m, WriteFileSync ''./scripts/deployments.json'' ?new]"
      by (auto simp: deploy_def Let_def andThen_def split: if_splits)
    have "\<exists>pre m. es = pre @ les @ [Log m, WriteFileSync ''./scripts/deployments.json'' ?new]
                           \<and> filter isWrite pre = []"
      using es by (intro exI[of _ ?pre] exI[of _ ?m]) simp
    moreover have f: "deploymentsFile es held = ?new"
      using es by (simp add: deploymentsFile_append)
    moreover have "map_of (deploymentsFile es held) w3fName = Some a"
      by (simp add: f update_conv')
    ultimately show "r = Inr (?new, p')
                \<and> (\<exists>pre m. es = pre @ les @ [Log m, WriteFileSync ''./scripts/deployments.json'' ?new]
                           \<and> filter isWrite pre = [])
                \<and> deploymentsFile es held = ?new
                \<and> map_of (deploymentsFile es held) w3fName = Some a"
      using r by simp
  qed
  from A B C show ?thesis by (intro conjI)
qed

theorem deployments_file_written_after_logic_witness:
  "deploy [] ''cap-automator''
     (capAutomatorLogic exampleSdk (deploymentTag ''2025-01-02T03:04:05.000Z'') ''hook'' ''key'')
     ([(''cap-automator'', ''QmOld'')], ([], [], []))
   = ([Log (CHR 0x0A # ''== Deploying cap-automator ==''),
       Log ''   * Skipping cap-automator deployment (no IPFS deployment found)''],
      Inr ([(''cap-automator'', ''QmOld'')], ([], [], [])))
   \<and> deploy [(''cap-automator'', ''QmOld'')] ''cap-automator''
     (capAutomatorLogic exampleSdk (deploymentTag ''2025-01-02T03:04:05.000Z'') ''hook'' ''key'')
     ([(''cap-automator'', ''QmOld'')], ([], [], []))
   = ([Log (CHR 0x0A # ''== Deploying cap-automator ==''),
       Log ''   * Skipping cap-automator deployment (already deployed)''],
      Inr ([(''cap-automator'', ''QmOld'')], ([], [], [])))
   \<and> deploy [(''cap-automator'', ''QmNew'')] ''cap-automator''
     (capAutomatorLogic rejectingSdk (deploymentTag ''2025-01-02T03:04:05.000Z'') ''hook'' ''key'')
     ([(''cap-automator'', ''QmOld'')], ([], [], []))
   = ([Log (CHR 0x0A # ''== Deploying cap-automator ==''),
       Log ''   * Deployment of cap-automator to be executed (IPFS hash: QmNew)'',
       Pause,
       Log ''   * Deploying cap-automator...'',
       GetActiveTasks ''mainnet'',
       CreateBatchExecTask ''mainnet''
         \<lparr> task_name = ''Cap Automator <2025-01-02 03:04:05>'', web3FunctionHash = ''QmNew'',
           web3FunctionArgs = [(''threshold'', ''5000''), (''performGasCheck'', ''true''),
                               (''sendSlackMessages'', ''true'')],
           task_trigger = TriggerTIME 3600000 \<rparr>],
      Inl Rejected)
   \<and> deploymentsFile
       (fst (deploy [(''cap-automator'', ''QmNew'')] ''cap-automator''
          (capAutomatorLogic rejectingSdk (deploymentTag ''2025-01-02T03:04:05.000Z'') ''hook'' ''key'')
          ([(''cap-automator'', ''QmOld'')], ([], [], []))))
       [(''cap-automator'', ''QmOld'')]
     = [(''cap-automator'', ''QmOld'')]
   \<and> deploy [(''cap-automator'', ''QmNew'')] ''cap-automator''
     (capAutomatorLogic exampleSdk (deploymentTag ''2025-01-02T03:04:05.000Z'') ''hook'' ''key'')
     ([(''cap-automator'', ''QmOld'')], ([], [], []))
   = ([Log (CHR 0x0A # ''== Deploying cap-automator ==''),
       Log ''   * Deployment of cap-automator to be executed (IPFS hash: QmNew)'',
       Pause,
       Log ''   * Deploying cap-automator...'',
       GetActiveTasks ''mainnet'',
       CreateBatchExecTask ''mainnet''
         \<lparr> task_name = ''Cap Automator <2025-01-02 03:04:05>'', web3FunctionHash = ''QmNew'',
           web3FunctionArgs = [(''threshold'', ''5000''), (''performGasCheck'', ''true''),
                               (''sendSlackMessages'', ''true'')],
           task_trigger = TriggerTIME 3600000 \<rparr>,
       SecretsSet ''mainnet'' [(''SLACK_WEBHOOK_URL'', StringValue ''hook''),
                                   (''ETHERSCAN_API_KEY'', StringValue ''key'')] ''id'',
       Log ''   * Deployed cap-automator successfully!'',
       WriteFileSync ''./scripts/deployments.json'' [(''cap-automator'', ''QmNew'')]],
      Inr ([(''cap-automator'', ''QmNew'')],
           (''*'', [\<lparr> name = ''Cap Automator <2025-01-02 03:04:05>'', taskId = ''id'' \<rparr>], [])))
   \<and> map_of (deploymentsFile
       (fst (deploy [(''cap-automator'', ''QmNew'')] ''cap-automator''
          (capAutomatorLogic exampleSdk (deploymentTag ''2025-01-02T03:04:05.000Z'') ''hook'' ''key'')
          ([(''cap-automator'', ''QmOld'')], ([], [], []))))
       [(''cap-automator'', ''QmOld'')]) ''cap-automator''
     = Some ''QmNew''"
proof -
  let ?ok = "capAutomatorLogic exampleSdk (deploymentTag ''2025-01-02T03:04:05.000Z'') ''hook'' ''key''"
  let ?bad = "capAutomatorLogic rejectingSdk (deploymentTag ''2025-01-02T03:04:05.000Z'') ''hook'' ''key''"
  let ?old = "[(''cap-automator'', ''QmOld'')]"
  let ?new = "[(''cap-automator'', ''QmNew'')]"
  let ?p0 = "([], [], []) :: examplePlatform"
  let ?create = "CreateBatchExecTask ''mainnet''
         \<lparr> task_name = ''Cap Automator <2025-01-02 03:04:05>'', web3FunctionHash = ''QmNew'',
           web3FunctionArgs = [(''threshold'', ''5000''), (''performGasCheck'', ''true''),
                               (''sendSlackMessages'', ''true'')],
           task_trigger = TriggerTIME 3600000 \<rparr>"
  let ?p4 = "(''*'', [\<lparr> name = ''Cap Automator <2025-01-02 03:04:05>'', taskId = ''id'' \<rparr>], [])
             :: examplePlatform"
  have run1: "deploy [] ''cap-automator'' ?ok (?old, ?p0)
       = ([Log (CHR 0x0A # ''== Deploying cap-automator ==''),
           Log ''   * Skipping cap-automator deployment (no IPFS deployment found)''],
          Inr (?old, ?p0))"
    by (simp add: deploy_defs retire_defs)
  have run2: "deploy ?old ''cap-automator'' ?ok (?old, ?p0)
       = ([Log (CHR 0x0A # ''== Deploying cap-automator ==''),
           Log ''   * Skipping cap-automator deployment (already deployed)''],
          Inr (?old, ?p0))"
    by (simp add: deploy_defs retire_defs)
  have run3: "deploy ?new ''cap-automator'' ?bad (?old, ?p0)
       = ([Log (CHR 0x0A # ''== Deploying cap-automator ==''),
           Log ''   * Deployment of cap-automator to be executed (IPFS hash: QmNew)'',
           Pause,
           Log ''   * Deploying cap-automator...'',
           GetActiveTasks ''mainnet'', ?create],
          Inl Rejected)"
    by (simp add: deploy_defs retire_defs)
  have run4: "deploy ?new ''cap-automator'' ?ok (?old, ?p0)
       = ([Log (CHR 0x0A # ''== Deploying cap-automator ==''),
           Log ''   * Deployment of cap-automator to be executed (IPFS hash: QmNew)'',
           Pause,
           Log ''   * Deploying cap-automator...'',
           GetActiveTasks ''mainnet'', ?create,
           SecretsSet ''mainnet'' [(''SLACK_WEBHOOK_URL'', StringValue ''hook''),
                                   (''ETHERSCAN_API_KEY'', StringValue ''key'')] ''id'',
           Log ''   * Deployed cap-automator successfully!'',
           WriteFileSync ''./scripts/deployments.json'' ?new],
          Inr (?new, ?p4))"
    by (simp add: deploy_defs retire_defs)
  have bad: "map_of ?new ''cap-automator'' = Some ''QmNew''
             \<and> map_of ?old ''cap-automator'' \<noteq> Some ''QmNew''
             \<and> ?bad ''QmNew'' ?p0 = ([GetActiveTasks ''mainnet'', ?create], Inl Rejected)"
    by (simp add: deploy_defs retire_defs)
  have ok: "map_of ?new ''cap-automator'' = Some ''QmNew''
             \<and> map_of ?old ''cap-automator'' \<noteq> Some ''QmNew''
             \<and> ?ok ''QmNew'' ?p0
               = ([GetActiveTasks ''mainnet'', ?create,
                   SecretsSet ''mainnet'' [(''SLACK_WEBHOOK_URL'', StringValue ''hook''),
                                   (''ETHERSCAN_API_KEY'', StringValue ''key'')] ''id''],
                  Inr ?p4)"
    by (simp add: deploy_defs retire_defs)
  have c3: "deploy ?new ''cap-automator'' ?bad (?old, ?p0)
            = (fst (deploy ?new ''cap-automator'' ?bad (?old, ?p0)),
               snd (deploy ?new ''cap-automator'' ?bad (?old, ?p0)))"
    by (rule prod.collapse[symmetric])
  have c4: "deploy ?new ''cap-automator'' ?ok (?old, ?p0)
            = (fst (deploy ?new ''cap-automator'' ?ok (?old, ?p0)),
               snd (deploy ?new ''cap-automator'' ?ok (?old, ?p0)))"
    by (rule prod.collapse[symmetric])
  note t3 = deployments_file_written_after_logic[OF c3, where held = ?old,
      THEN conjunct2, THEN conjunct1, rule_format, OF bad]
  note t4 = deployments_file_written_after_logic[OF c4, where held = ?old,
      THEN conjunct2, THEN conjunct2, rule_format, OF ok]
  have f3: "deploymentsFile (fst (deploy ?new ''cap-automator'' ?bad (?old, ?p0))) ?old = ?old"
    using t3[THEN conjunct2, THEN conjunct2] by simp
  have f4: "map_of (deploymentsFile (fst (deploy ?new ''cap-automator'' ?ok (?old, ?p0))) ?old)
              ''cap-automator'' = Some ''QmNew''"
    using t4[THEN conjunct2, THEN conjunct2, THEN conjunct2] .
  show ?thesis
    by (intro conjI) (rule run1 run2 run3 f3 run4 f4)+
qed

section \<open>Properties of the xchain-oracle-ticker handler\<close>

lemma steps_append:
  "steps body (xs @ ys) s = (case steps body xs s of Inl e \<Rightarrow> Inl e | Inr s' \<Rightarrow> steps body ys s')"
  by (induction xs arbitrary: s) (simp_all split: sum.splits)

lemma optimismStep_result:
  "isUint256 gasLimit \<Longrightarrow>
   optimismStep chain maxDelta gasLimit e (r # rs, calls, bits)
   = Inr (rs,
          calls @ (if needsRefresh chain maxDelta r then [optimismCall gasLimit e] else []),
          bits @ (if needsRefresh chain maxDelta r then [generateSlackMessageBit (fst e)] else []))"
  by (simp add: optimismStep_def encodeRefresh_def optimismCall_def)

lemma optimism_loop:
  "isUint256 gasLimit \<Longrightarrow>
   steps (optimismStep chain maxDelta gasLimit) entries
     (map (lastSeenPotData chain) (map snd entries) @ rest, calls, bits)
   = Inr (rest,
          calls @ map (optimismCall gasLimit) (filter (stale chain maxDelta) entries),
          bits @ map (\<lambda>e. generateSlackMessageBit (fst e)) (filter (stale chain maxDelta) entries))"
  by (induction entries arbitrary: calls bits) (simp_all add: optimismStep_result stale_def)

lemma url_value:
  "map_of (arbitrumDomainUrls fw) k = Some url \<Longrightarrow> url = ''https://arb1.arbitrum.io/rpc''"
  by (simp add: arbitrumDomainUrls_def split: if_splits)

lemma arbitrumStep_skip:
  "\<not> hasUrl fw e \<Longrightarrow> arbitrumStep chain fw maxDelta gasLimit e st = Inr st"
  by (cases st) (simp add: arbitrumStep_def hasUrl_def)

lemma arbitrumStep_result:
  assumes "isUint256 gasLimit"
    and "isUint256 (int (gasPrice chain * 120 div 100))"
    and "isUint256 (int (remoteGasPrice chain ''https://arb1.arbitrum.io/rpc'' * 120 div 100))"
    and "hasUrl fw e"
  shows "arbitrumStep chain fw maxDelta gasLimit e (r # rs, calls, bits)
   = Inr (rs,
          calls @ (if needsRefresh chain maxDelta r then [arbitrumCall chain fw gasLimit e] else []),
          bits @ (if needsRefresh chain maxDelta r then [generateSlackMessageBit (fst e)] else []))"
proof -
  from assms(4) obtain url where u: "map_of (arbitrumDomainUrls fw) (addressText (snd e)) = Some url"
    by (auto simp: hasUrl_def)
  from url_value[OF u] have v: "url = ''https://arb1.arbitrum.io/rpc''" .
  from assms(1,2,3) u v show ?thesis
    by (simp add: arbitrumStep_def encodeRefreshArbitrum_def arbitrumCall_def Let_def)
qed

lemma arbitrum_aligned:
  assumes "isUint256 gasLimit"
    and "isUint256 (int (gasPrice chain * 120 div 100))"
    and "isUint256 (int (remoteGasPrice chain ''https://arb1.arbitrum.io/rpc'' * 120 div 100))"
  shows "\<forall>e\<in>set entries. hasUrl fw e \<Longrightarrow>
   steps (arbitrumStep chain fw maxDelta gasLimit) entries
     (map (lastSeenPotData chain) (map snd entries) @ rest, calls, bits)
   = Inr (rest,
          calls @ map (arbitrumCall chain fw gasLimit) (filter (stale chain maxDelta) entries),
          bits @ map (\<lambda>e. generateSlackMessageBit (fst e)) (filter (stale chain maxDelta) entries))"
proof (induction entries arbitrary: calls bits)
  case Nil
  then show ?case by simp
next
  case (Cons e entries)
  from Cons.prems have h: "hasUrl fw e" and r: "\<forall>e\<in>set entries. hasUrl fw e" by simp_all
  show ?case
    using Cons.IH[OF r] by (simp add: arbitrumStep_result[OF assms h] stale_def)
qed

lemma arbitrum_general:
  assumes "isUint256 gasLimit"
    and "isUint256 (int (gasPrice chain * 120 div 100))"
    and "isUint256 (int (remoteGasPrice chain ''https://arb1.arbitrum.io/rpc'' * 120 div 100))"
  shows "length entries \<le> length results \<Longrightarrow>
   \<exists>rest cs bs.
     steps (arbitrumStep chain fw maxDelta gasLimit) entries (results, calls, bits)
       = Inr (rest, calls @ cs, bits @ bs)
     \<and> (\<forall>c\<in>set cs. \<exists>e\<in>set entries. hasUrl fw e \<and> fst c = snd e)
     \<and> ((\<forall>r\<in>set results. \<not> needsRefresh chain maxDelta r) \<longrightarrow> cs = [])"
proof (induction entries arbitrary: results calls bits)
  case Nil
  show ?case by (intro exI[of _ results] exI[of _ "[]"]) simp
next
  case (Cons e entries)
  show ?case
  proof (cases "hasUrl fw e")
    case False
    from Cons.prems have "length entries \<le> length results" by simp
    from Cons.IH[OF this, of calls bits] obtain rest cs bs where
      s: "steps (arbitrumStep chain fw maxDelta gasLimit) entries (results, calls, bits)
            = Inr (rest, calls @ cs, bits @ bs)"
      and t: "\<forall>c\<in>set cs. \<exists>e\<in>set entries. hasUrl fw e \<and> fst c = snd e"
      and f: "(\<forall>r\<in>set results. \<not> needsRefresh chain maxDelta r) \<longrightarrow> cs = []"
      by blast
    from s False have "steps (arbitrumStep chain fw maxDelta gasLimit) (e # entries) (results, calls, bits)
            = Inr (rest, calls @ cs, bits @ bs)"
      by (simp add: arbitrumStep_skip)
    moreover from t have "\<forall>c\<in>set cs. \<exists>x\<in>set (e # entries). hasUrl fw x \<and> fst c = snd x" by auto
    ultimately show ?thesis using f by blast
  next
    case True
    from Cons.prems obtain r rs where res: "results = r # rs" by (cases results) auto
    with Cons.prems have len: "length entries \<le> length rs" by simp
    let ?c = "if needsRefresh chain maxDelta r then [arbitrumCall chain fw gasLimit e] else []"
    let ?b = "if needsRefresh chain maxDelta r then [generateSlackMessageBit (fst e)] else []"
    from Cons.IH[OF len, of "calls @ ?c" "bits @ ?b"] obtain rest cs bs where
      s: "steps (arbitrumStep chain fw maxDelta gasLimit) entries (rs, calls @ ?c, bits @ ?b)
            = Inr (rest, (calls @ ?c) @ cs, (bits @ ?b) @ bs)"
      and t: "\<forall>c\<in>set cs. \<exists>e\<in>set entries. hasUrl fw e \<and> fst c = snd e"
      and f: "(\<forall>r\<in>set rs. \<not> needsRefresh chain maxDelta r) \<longrightarrow> cs = []"
      by blast
    from s res have run: "steps (arbitrumStep chain fw maxDelta gasLimit) (e # entries) (results, calls, bits)
            = Inr (rest, calls @ (?c @ cs), bits @ (?b @ bs))"
      by (simp add: arbitrumStep_result[OF assms True])
    have tgt: "\<forall>c\<in>set (?c @ cs). \<exists>x\<in>set (e # entries). hasUrl fw x \<and> fst c = snd x"
      using t True by (auto simp: arbitrumCall_def)
    have fresh: "(\<forall>r\<in>set results. \<not> needsRefresh chain maxDelta r) \<longrightarrow> ?c @ cs = []"
      using f res by simp
    from run tgt fresh show ?thesis by blast
  qed
qed

lemma count_target:
  "distinct (map snd xs) \<Longrightarrow> e \<in> set xs \<Longrightarrow>
   length (filter (\<lambda>x. snd x = snd e) (filter P xs)) = (if P e then 1 else 0)"
proof (induction xs)
  case Nil
  then show ?case by simp
next
  case (Cons x xs)
  show ?case
  proof (cases "x = e")
    case True
    from Cons.prems(1) have "\<forall>y\<in>set xs. snd y \<noteq> snd x" by (auto simp: image_iff)
    then have "filter (\<lambda>y. snd y = snd x) (filter P xs) = []" by (auto simp: filter_empty_conv)
    with True show ?thesis by simp
  next
    case False
    with Cons.prems have m: "e \<in> set xs" by simp
    with Cons.prems(1) have "snd x \<noteq> snd e" by (auto simp: image_iff)
    with Cons.IH[OF _ m] Cons.prems(1) show ?thesis by (auto split: if_splits)
  qed
qed

lemma count_map:
  "(\<And>x. fst (f x) = snd x) \<Longrightarrow>
   length (filter (\<lambda>c. fst c = a) (map f xs)) = length (filter (\<lambda>x. snd x = a) xs)"
  by (induction xs) simp_all

lemma no_calls_to: "\<forall>c\<in>set cs. fst c \<noteq> a \<Longrightarrow> length (filter (\<lambda>c. fst c = a) cs) = 0"
  by (simp add: filter_empty_conv)

lemma no_calls_in:
  "(\<And>c. c \<in> set cs \<Longrightarrow> fst c \<in> A) \<Longrightarrow> a \<notin> A \<Longrightarrow> length (filter (\<lambda>c. fst c = a) cs) = 0"
  by (auto simp: filter_empty_conv)

lemma hasUrl_address: "snd x = snd e \<Longrightarrow> hasUrl fw x = hasUrl fw e"
  by (simp add: hasUrl_def)

text \<open>
  The result of the handler when the numbers to encode fit their type: the calls of the
  first loop, those of the arbitrum-style consumers before the first one without a URL,
  and calls \<open>cs\<close> for consumers with a URL that come after one without.
\<close>

lemma onRun_calls:
  assumes "isUint256 gasLimit"
    and "isUint256 (int (gasPrice chain * 120 div 100))"
    and "isUint256 (int (remoteGasPrice chain ''https://arb1.arbitrum.io/rpc'' * 120 div 100))"
  shows "\<exists>cs slack.
      onRun chain fw maxDelta gasLimit sendSlackMessages
        = Inr (if map (optimismCall gasLimit) (filter (stale chain maxDelta) (optimismStyle fw))
                  @ map (arbitrumCall chain fw gasLimit)
                      (filter (stale chain maxDelta) (takeWhile (hasUrl fw) (arbitrumStyle fw)))
                  @ cs = []
               then NoExec ''Pot data refresh not needed''
               else Exec (map (optimismCall gasLimit) (filter (stale chain maxDelta) (optimismStyle fw))
                  @ map (arbitrumCall chain fw gasLimit)
                      (filter (stale chain maxDelta) (takeWhile (hasUrl fw) (arbitrumStyle fw)))
                  @ cs), slack)
    \<and> (\<forall>c\<in>set cs. \<exists>e\<in>set (dropWhile (hasUrl fw) (arbitrumStyle fw)). hasUrl fw e \<and> fst c = snd e)
    \<and> ((\<forall>e\<in>set (arbitrumStyle fw). \<not> stale chain maxDelta e) \<longrightarrow> cs = [])"
proof -
  let ?st = "stale chain maxDelta"
  let ?pre = "takeWhile (hasUrl fw) (arbitrumStyle fw)"
  let ?post = "dropWhile (hasUrl fw) (arbitrumStyle fw)"
  let ?oc = "map (optimismCall gasLimit) (filter ?st (optimismStyle fw))"
  let ?ob = "map (\<lambda>e. generateSlackMessageBit (fst e)) (filter ?st (optimismStyle fw))"
  let ?pc = "map (arbitrumCall chain fw gasLimit) (filter ?st ?pre)"
  let ?pb = "map (\<lambda>e. generateSlackMessageBit (fst e)) (filter ?st ?pre)"
  have arb: "arbitrumStyle fw = ?pre @ ?post" by simp
  have res: "map (lastSeenPotData chain) (map snd (optimismStyle fw) @ map snd (arbitrumStyle fw))
             = map (lastSeenPotData chain) (map snd (optimismStyle fw))
               @ (map (lastSeenPotData chain) (map snd ?pre) @ map (lastSeenPotData chain) (map snd ?post))"
    by (simp flip: map_append)
  have o: "steps (optimismStep chain maxDelta gasLimit) (optimismStyle fw)
             (map (lastSeenPotData chain) (map snd (optimismStyle fw) @ map snd (arbitrumStyle fw)), [], [])
           = Inr (map (lastSeenPotData chain) (map snd ?pre) @ map (lastSeenPotData chain) (map snd ?post),
                  ?oc, ?ob)"
    unfolding res
    using optimism_loop[OF assms(1), of chain maxDelta "optimismStyle fw"
        "map (lastSeenPotData chain) (map snd ?pre) @ map (lastSeenPotData chain) (map snd ?post)" "[]" "[]"]
    by simp
  have "\<forall>e\<in>set ?pre. hasUrl fw e" by (auto dest: set_takeWhileD)
  from arbitrum_aligned[OF assms this, of maxDelta "map (lastSeenPotData chain) (map snd ?post)" ?oc ?ob]
  have a1: "steps (arbitrumStep chain fw maxDelta gasLimit) ?pre
              (map (lastSeenPotData chain) (map snd ?pre) @ map (lastSeenPotData chain) (map snd ?post), ?oc, ?ob)
            = Inr (map (lastSeenPotData chain) (map snd ?post), ?oc @ ?pc, ?ob @ ?pb)" .
  have "length ?post \<le> length (map (lastSeenPotData chain) (map snd ?post))" by simp
  from arbitrum_general[OF assms this, of fw maxDelta "?oc @ ?pc" "?ob @ ?pb"] obtain rest cs bs where
    a2: "steps (arbitrumStep chain fw maxDelta gasLimit) ?post
           (map (lastSeenPotData chain) (map snd ?post), ?oc @ ?pc, ?ob @ ?pb)
         = Inr (rest, (?oc @ ?pc) @ cs, (?ob @ ?pb) @ bs)"
    and t: "\<forall>c\<in>set cs. \<exists>e\<in>set ?post. hasUrl fw e \<and> fst c = snd e"
    and f: "(\<forall>r\<in>set (map (lastSeenPotData chain) (map snd ?post)). \<not> needsRefresh chain maxDelta r)
            \<longrightarrow> cs = []"
    by blast
  have a: "steps (arbitrumStep chain fw maxDelta gasLimit) (arbitrumStyle fw)
              (map (lastSeenPotData chain) (map snd ?pre) @ map (lastSeenPotData chain) (map snd ?post), ?oc, ?ob)
            = Inr (rest, ?oc @ ?pc @ cs, ?ob @ ?pb @ bs)"
    using a1 a2 by (subst arb) (simp add: steps_append del: takeWhile_dropWhile_id)
  let ?slack = "if ?oc @ ?pc @ cs = [] then None
                else if sendSlackMessages then Some (generateSlackMessage (?ob @ ?pb @ bs)) else None"
  have run: "onRun chain fw maxDelta gasLimit sendSlackMessages
        = Inr (if ?oc @ ?pc @ cs = [] then NoExec ''Pot data refresh not needed''
               else Exec (?oc @ ?pc @ cs), ?slack)"
    using o a by (simp add: onRun_def Let_def)
  have fresh: "(\<forall>e\<in>set (arbitrumStyle fw). \<not> ?st e) \<longrightarrow> cs = []"
  proof
    assume h: "\<forall>e\<in>set (arbitrumStyle fw). \<not> ?st e"
    have "\<forall>e\<in>set ?post. \<not> ?st e" using h by (auto dest: set_dropWhileD)
    then have "\<forall>r\<in>set (map (lastSeenPotData chain) (map snd ?post)). \<not> needsRefresh chain maxDelta r"
      by (auto simp: stale_def)
    with f show "cs = []" by blast
  qed
  from run t fresh show ?thesis by blast
qed

lemmas ticker_defs = onRun_def optimismStep_def arbitrumStep_def needsRefresh_def arbitrumDomainUrls_def
  encodeRefresh_def encodeRefreshArbitrum_def isUint256_def stale_def hasUrl_def
  exampleForwarders_def novaForwarders_def novaFirstForwarders_def exampleChain_def

text \<open>
  C4, as amended. A consumer is an entry of the two forwarder tables, and it is stale when
  its last-seen rate differs from the current rate or the latest block timestamp exceeds
  its last-update timestamp plus \<open>maxDelta\<close>. Suppose the forwarder addresses are pairwise
  distinct and the gas limit and the two fees are numbers of type \<open>uint256\<close>. Then the
  handler returns, with \<open>canExec: false\<close> and the message when there is no call and with
  the calls otherwise, and when no consumer is stale there is no call. For an
  optimism-style consumer the number of calls that target its forwarder is one when it is
  stale and zero otherwise, and the call is the encoded \<open>refresh(gasLimit)\<close>. An
  arbitrum-style consumer without a URL in \<open>arbitrumDomainUrls\<close> is skipped: no call targets
  its forwarder. For an arbitrum-style consumer that has a URL and that no consumer
  without one precedes in the table, the number of calls is again one when it is stale and
  zero otherwise, and the call is the encoded \<open>refresh(gasLimit, maxFeePerGas, baseFee)\<close>.
  Every call targets the forwarder of a consumer.
\<close>

theorem ticker_refreshes_stale_consumers:
  assumes "distinct (map snd (optimismStyle fw @ arbitrumStyle fw))"
    and "isUint256 gasLimit"
    and "isUint256 (int (gasPrice chain * 120 div 100))"
    and "isUint256 (int (remoteGasPrice chain ''https://arb1.arbitrum.io/rpc'' * 120 div 100))"
  shows "\<exists>calls slack.
           onRun chain fw maxDelta gasLimit sendSlackMessages
             = Inr (if calls = [] then NoExec ''Pot data refresh not needed'' else Exec calls, slack)
         \<and> ((\<forall>e\<in>set (optimismStyle fw @ arbitrumStyle fw). \<not> stale chain maxDelta e) \<longrightarrow> calls = [])
         \<and> (\<forall>e\<in>set (optimismStyle fw).
               length (filter (\<lambda>c. fst c = snd e) calls)
                 = (if dsr (lastSeenPotData chain (snd e)) \<noteq> currentDsr chain
                       \<or> latestTimestamp chain > rho (lastSeenPotData chain (snd e)) + maxDelta
                    then 1 else 0))
         \<and> (\<forall>e\<in>set (optimismStyle fw).
               dsr (lastSeenPotData chain (snd e)) \<noteq> currentDsr chain
                 \<or> latestTimestamp chain > rho (lastSeenPotData chain (snd e)) + maxDelta
               \<longrightarrow> (snd e, Refresh gasLimit) \<in> set calls)
         \<and> (\<forall>e\<in>set (arbitrumStyle fw).
               \<not> hasUrl fw e \<longrightarrow> length (filter (\<lambda>c. fst c = snd e) calls) = 0)
         \<and> (\<forall>e\<in>set (takeWhile (hasUrl fw) (arbitrumStyle fw)).
               length (filter (\<lambda>c. fst c = snd e) calls)
                 = (if dsr (lastSeenPotData chain (snd e)) \<noteq> currentDsr chain
                       \<or> latestTimestamp chain > rho (lastSeenPotData chain (snd e)) + maxDelta
                    then 1 else 0))
         \<and> (\<forall>e\<in>set (takeWhile (hasUrl fw) (arbitrumStyle fw)).
               dsr (lastSeenPotData chain (snd e)) \<noteq> currentDsr chain
                 \<or> latestTimestamp chain > rho (lastSeenPotData chain (snd e)) + maxDelta
               \<longrightarrow> (snd e, RefreshArbitrum gasLimit
                              (int (remoteGasPrice chain ''https://arb1.arbitrum.io/rpc'' * 120 div 100))
                              (int (gasPrice chain * 120 div 100))) \<in> set calls)
         \<and> (\<forall>c\<in>set calls. fst c \<in> snd ` set (optimismStyle fw @ arbitrumStyle fw))"
proof -
  let ?st = "stale chain maxDelta"
  let ?pre = "takeWhile (hasUrl fw) (arbitrumStyle fw)"
  let ?post = "dropWhile (hasUrl fw) (arbitrumStyle fw)"
  let ?oc = "map (optimismCall gasLimit) (filter ?st (optimismStyle fw))"
  let ?pc = "map (arbitrumCall chain fw gasLimit) (filter ?st ?pre)"
  from onRun_calls[OF assms(2,3,4), of fw maxDelta sendSlackMessages] obtain cs slack where
    run: "onRun chain fw maxDelta gasLimit sendSlackMessages
        = Inr (if ?oc @ ?pc @ cs = [] then NoExec ''Pot data refresh not needed''
               else Exec (?oc @ ?pc @ cs), slack)"
    and t: "\<forall>c\<in>set cs. \<exists>e\<in>set ?post. hasUrl fw e \<and> fst c = snd e"
    and f: "(\<forall>e\<in>set (arbitrumStyle fw). \<not> ?st e) \<longrightarrow> cs = []"
    by blast
  let ?calls = "?oc @ ?pc @ cs"
  have st: "?st e \<longleftrightarrow> (dsr (lastSeenPotData chain (snd e)) \<noteq> currentDsr chain
                       \<or> latestTimestamp chain > rho (lastSeenPotData chain (snd e)) + maxDelta)" for e
    by (simp add: stale_def needsRefresh_def)
  have arb: "arbitrumStyle fw = ?pre @ ?post" by simp
  have pre_sub: "set ?pre \<subseteq> set (arbitrumStyle fw)" by (auto dest: set_takeWhileD)
  have post_sub: "set ?post \<subseteq> set (arbitrumStyle fw)" by (auto dest: set_dropWhileD)
  have pre_url: "hasUrl fw x" if "x \<in> set ?pre" for x using that by (auto dest: set_takeWhileD)
  from assms(1) have d_opt: "distinct (map snd (optimismStyle fw))"
    and d_arb: "distinct (map snd (arbitrumStyle fw))"
    and disj: "snd ` set (optimismStyle fw) \<inter> snd ` set (arbitrumStyle fw) = {}"
    by simp_all
  from d_arb have "distinct (map snd (?pre @ ?post))" by simp
  then have d_pre: "distinct (map snd ?pre)"
    and disj2: "snd ` set ?pre \<inter> snd ` set ?post = {}"
    by (simp_all del: takeWhile_dropWhile_id)
  have oc_tgt: "fst c \<in> snd ` set (optimismStyle fw)" if "c \<in> set ?oc" for c
    using that by (force simp: optimismCall_def)
  have pc_tgt: "fst c \<in> snd ` set ?pre" if "c \<in> set ?pc" for c
    using that by (force simp: arbitrumCall_def)
  have cs_tgt: "fst c \<in> snd ` set ?post" if "c \<in> set cs" for c
    using that t by auto
  have tgt: "\<forall>c\<in>set ?calls. fst c \<in> snd ` set (optimismStyle fw @ arbitrumStyle fw)"
  proof
    fix c assume "c \<in> set ?calls"
    then consider "c \<in> set ?oc" | "c \<in> set ?pc" | "c \<in> set cs" by auto
    then show "fst c \<in> snd ` set (optimismStyle fw @ arbitrumStyle fw)"
    proof cases
      case 1 with oc_tgt[OF 1] show ?thesis by auto
    next
      case 2 with pc_tgt[OF 2] pre_sub show ?thesis by auto
    next
      case 3 with cs_tgt[OF 3] post_sub show ?thesis by auto
    qed
  qed
  have fresh: "(\<forall>e\<in>set (optimismStyle fw @ arbitrumStyle fw). \<not> ?st e) \<longrightarrow> ?calls = []"
  proof
    assume h: "\<forall>e\<in>set (optimismStyle fw @ arbitrumStyle fw). \<not> ?st e"
    then have "filter ?st (optimismStyle fw) = []" by (auto simp: filter_empty_conv)
    moreover from h pre_sub have "filter ?st ?pre = []" by (auto simp: filter_empty_conv)
    moreover from h f have "cs = []" by auto
    ultimately show "?calls = []" by simp
  qed
  have cnt_opt: "length (filter (\<lambda>c. fst c = snd e) ?calls) = (if ?st e then 1 else 0)"
    if e: "e \<in> set (optimismStyle fw)" for e
  proof -
    from e disj have n: "snd e \<notin> snd ` set (arbitrumStyle fw)" by auto
    from n pre_sub have n1: "snd e \<notin> snd ` set ?pre" by blast
    from n post_sub have n2: "snd e \<notin> snd ` set ?post" by blast
    have "length (filter (\<lambda>c. fst c = snd e) ?oc) = (if ?st e then 1 else 0)"
      using count_target[OF d_opt e, of ?st] by (simp add: count_map optimismCall_def)
    moreover have "length (filter (\<lambda>c. fst c = snd e) ?pc) = 0"
      by (rule no_calls_in[where A = "snd ` set ?pre", OF pc_tgt n1])
    moreover have "length (filter (\<lambda>c. fst c = snd e) cs) = 0"
      by (rule no_calls_in[where A = "snd ` set ?post", OF cs_tgt n2])
    ultimately show ?thesis by simp
  qed
  have call_opt: "(snd e, Refresh gasLimit) \<in> set ?calls"
    if "e \<in> set (optimismStyle fw)" "?st e" for e
  proof -
    from that have "optimismCall gasLimit e \<in> optimismCall gasLimit ` set (filter ?st (optimismStyle fw))"
      by (intro imageI) simp
    then show ?thesis by (simp add: optimismCall_def)
  qed
  have cnt_skip: "length (filter (\<lambda>c. fst c = snd e) ?calls) = 0"
    if e: "e \<in> set (arbitrumStyle fw)" and u: "\<not> hasUrl fw e" for e
  proof -
    from e disj have n: "snd e \<notin> snd ` set (optimismStyle fw)" by auto
    have "length (filter (\<lambda>c. fst c = snd e) ?oc) = 0"
      by (rule no_calls_in[where A = "snd ` set (optimismStyle fw)", OF oc_tgt n])
    moreover have "length (filter (\<lambda>c. fst c = snd e) ?pc) = 0"
    proof (intro no_calls_to ballI notI)
      fix c assume c: "c \<in> set ?pc" and "fst c = snd e"
      with pc_tgt[OF c] obtain x where "x \<in> set ?pre" "snd x = snd e" by auto
      with pre_url[of x] hasUrl_address[of x e fw] u show False by simp
    qed
    moreover have "length (filter (\<lambda>c. fst c = snd e) cs) = 0"
    proof (intro no_calls_to ballI notI)
      fix c assume c: "c \<in> set cs" and "fst c = snd e"
      with t obtain x where "hasUrl fw x" "snd x = snd e" by force
      with hasUrl_address[of x e fw] u show False by simp
    qed
    ultimately show ?thesis by simp
  qed
  have cnt_pre: "length (filter (\<lambda>c. fst c = snd e) ?calls) = (if ?st e then 1 else 0)"
    if e: "e \<in> set ?pre" for e
  proof -
    from e pre_sub disj have n: "snd e \<notin> snd ` set (optimismStyle fw)" by auto
    from e disj2 have n2: "snd e \<notin> snd ` set ?post" by auto
    have "length (filter (\<lambda>c. fst c = snd e) ?oc) = 0"
      by (rule no_calls_in[where A = "snd ` set (optimismStyle fw)", OF oc_tgt n])
    moreover have "length (filter (\<lambda>c. fst c = snd e) ?pc) = (if ?st e then 1 else 0)"
      using count_target[OF d_pre e, of ?st] by (simp add: count_map arbitrumCall_def)
    moreover have "length (filter (\<lambda>c. fst c = snd e) cs) = 0"
      by (rule no_calls_in[where A = "snd ` set ?post", OF cs_tgt n2])
    ultimately show ?thesis by simp
  qed
  have call_pre: "(snd e, RefreshArbitrum gasLimit
                              (int (remoteGasPrice chain ''https://arb1.arbitrum.io/rpc'' * 120 div 100))
                              (int (gasPrice chain * 120 div 100))) \<in> set ?calls"
    if e: "e \<in> set ?pre" and s: "?st e" for e
  proof -
    from pre_url[OF e] obtain url where u: "map_of (arbitrumDomainUrls fw) (addressText (snd e)) = Some url"
      by (auto simp: hasUrl_def)
    from url_value[OF u] u have "arbitrumCall chain fw gasLimit e
        = (snd e, RefreshArbitrum gasLimit
                              (int (remoteGasPrice chain ''https://arb1.arbitrum.io/rpc'' * 120 div 100))
                              (int (gasPrice chain * 120 div 100)))"
      by (simp add: arbitrumCall_def)
    moreover from e s have "arbitrumCall chain fw gasLimit e \<in> set ?pc" by simp
    ultimately show ?thesis by simp
  qed
  show ?thesis
    apply (rule exI[of _ ?calls])
    apply (rule exI[of _ slack])
    apply (intro conjI)
    subgoal by (rule run)
    subgoal by (rule fresh)
    subgoal using cnt_opt by (simp add: st)
    subgoal using call_opt by (simp add: st)
    subgoal using cnt_skip by blast
    subgoal using cnt_pre by (simp add: st)
    subgoal using call_pre by (simp add: st)
    subgoal by (rule tgt)
    done
qed

theorem ticker_refreshes_stale_consumers_witness:
  "onRun (exampleChain 800) exampleForwarders 500 800000 True
     = Inr (NoExec ''Pot data refresh not needed'', None)
   \<and> onRun (exampleChain 1200) exampleForwarders 500 800000 True
     = Inr (Exec [(Address ''0b'', Refresh 800000)],
            Some (generateSlackMessage [generateSlackMessageBit ''base'']))
   \<and> onRun (exampleChain 2000) exampleForwarders 500 800000 False
     = Inr (Exec [(Address ''0a'', Refresh 800000), (Address ''0b'', Refresh 800000),
                  (Address ''0c'', RefreshArbitrum 800000 1 12)], None)"
  using ticker_refreshes_stale_consumers[of exampleForwarders 800000 "exampleChain 800" 500 True]
    ticker_refreshes_stale_consumers[of exampleForwarders 800000 "exampleChain 1200" 500 True]
    ticker_refreshes_stale_consumers[of exampleForwarders 800000 "exampleChain 2000" 500 False]
  by (simp add: ticker_defs)

text \<open>
  The claim as stated fails for a stale consumer that the handler does not serve, and for
  a gas limit that cannot be encoded. With \<open>nova\<close> as the one consumer, stale at 1200, the
  handler reports that no refresh is needed. With the stale consumer \<open>base\<close> and the gas
  limit \<open>-1\<close> the handler throws instead of returning a call.
\<close>

theorem ticker_counterexample:
  "stale (exampleChain 1200) 500 (''nova'', Address ''0d'')
   \<and> onRun (exampleChain 1200) novaForwarders 500 800000 True
       = Inr (NoExec ''Pot data refresh not needed'', None)
   \<and> stale (exampleChain 1200) 500 (''base'', Address ''0b'')
   \<and> onRun (exampleChain 1200) exampleForwarders 500 (- 1) True = Inl OutOfBounds"
  by (simp add: ticker_defs)

text \<open>
  A consumer that is skipped leaves its multicall result at the head of the results, so a
  consumer with a URL that comes after it is judged by the result of the skipped one. With
  \<open>nova\<close> before \<open>arbitrum\<close> in the table, \<open>nova\<close> stale and \<open>arbitrum\<close> not, the one call of
  the result targets the forwarder of \<open>arbitrum\<close>.
\<close>

lemma skipped_result_not_consumed:
  "stale (exampleChain 1200) 500 (''nova'', Address ''0d'')
   \<and> \<not> stale (exampleChain 1200) 500 (''arbitrum'', Address ''0c'')
   \<and> onRun (exampleChain 1200) novaFirstForwarders 500 800000 False
       = Inr (Exec [(Address ''0c'', RefreshArbitrum 800000 1 12)], None)"
  by (simp add: ticker_defs)

end
